(* ===== verification/Prelude.thy ===== *)
theory Prelude
  imports Main "HOL-Library.Word"
begin

text \<open>
  Shared vocabulary of the development: the byte type, the rule collections the
  component theories fill, and generic facts about bytes, lists and association
  lists that several components use (base64 bit packing, the file-system store,
  Python dictionaries).
\<close>

unbundle bit_operations_syntax

type_synonym byte = "8 word"
type_synonym bytes = "byte list"

named_theorems fs_simps "evaluation rules of the file-system model"
named_theorems wf_preserve "operations that keep the file system well formed"

subsection \<open>Bytes\<close>

text \<open>Two bytes are equal when their eight bits are: the workhorse of the base64 proofs.\<close>

lemma byte_eqI:
  assumes "\<And>n. n \<in> {0, 1, 2, 3, 4, 5, 6, 7} \<Longrightarrow> bit (x::byte) n = bit y n"
  shows "x = y"
proof (rule bit_eqI)
  fix n assume "possible_bit TYPE(byte) n"
  then have "n < 8" by simp
  then have "n \<in> {0, 1, 2, 3, 4, 5, 6, 7}" by auto
  then show "bit x n = bit y n" by (rule assms)
qed

lemma Suc_small: "Suc (Suc 0) = 2" "Suc (Suc (Suc 0)) = 3"
  by simp_all

lemma unat_and_63_less: "unat ((v::byte) AND 63) < 64"
proof -
  have "v AND 63 \<le> 63" by (rule word_and_le1)
  then have "unat (v AND 63) \<le> unat (63::byte)" by (simp add: word_le_nat_alt)
  then show ?thesis by simp
qed

subsection \<open>Lists and association lists\<close>

lemma map_of_filter_other:
  "\<not> P k \<Longrightarrow> map_of (filter (\<lambda>(p, n). P p) xs) k = None"
  by (induction xs) auto

lemma map_of_filter_keep:
  "P k \<Longrightarrow> map_of (filter (\<lambda>(p, n). P p) xs) k = map_of xs k"
  by (induction xs) auto

lemma map_of_append_new:
  "map_of (xs @ [(k, v)]) q = (case map_of xs q of None \<Rightarrow> (if q = k then Some v else None) | Some w \<Rightarrow> Some w)"
  by (induction xs) auto

lemma distinct_map_fst_filter:
  "distinct (map fst xs) \<Longrightarrow> distinct (map fst (filter P xs))"
  by (induction xs) (auto simp: image_iff)

lemma fold_max_init: "m \<le> fold max xs (m::nat)"
  by (induction xs arbitrary: m) (simp, metis fold_simps(2) max.cobounded2 order_trans)

lemma fold_max_ge: "x \<in> set xs \<Longrightarrow> x \<le> fold max xs (m::nat)"
proof (induction xs arbitrary: m)
  case (Cons a xs)
  show ?case
  proof (cases "x = a")
    case True
    then show ?thesis using fold_max_init [of "max a m" xs] by simp
  next
    case False
    then show ?thesis using Cons by simp
  qed
qed simp

end
