(* ===== verification/PyValue.thy ===== *)
theory PyValue
  imports Prelude
begin

text \<open>
  The Python values the handler sees and the exceptions it can raise.  A job arrives
  as decoded JSON (\<open>json\<close>: \<open>None\<close>, booleans, integers, strings, lists and dicts);
  Python's \<open>str\<close> is represented by its UTF-8 encoding as an Isabelle \<open>string\<close>, which
  is also what the operating system receives as a path.  The theory gives the
  Python operations the handler applies to these values (truthiness, \<open>dict.get\<close>,
  \<open>str()\<close> and \<open>repr()\<close>) and the message \<open>str(e)\<close> of every exception
  the pipeline can raise, which becomes the \<open>error\<close> field of a failure response.
  JSON numbers with a fractional part are not modelled (the handler would only
  format them into a file name).
\<close>

datatype json =
    JNone
  | JBool bool
  | JInt int
  | JStr string
  | JList "json list"
  | JDict "(string \<times> json) list"

subsection \<open>Truthiness, type names and \<open>dict.get\<close>\<close>

fun py_truthy :: "json \<Rightarrow> bool" where
  "py_truthy JNone = False"
| "py_truthy (JBool b) = b"
| "py_truthy (JInt i) = (i \<noteq> 0)"
| "py_truthy (JStr s) = (s \<noteq> [])"
| "py_truthy (JList xs) = (xs \<noteq> [])"
| "py_truthy (JDict kvs) = (kvs \<noteq> [])"

fun py_type_name :: "json \<Rightarrow> string" where
  "py_type_name JNone = ''NoneType''"
| "py_type_name (JBool b) = ''bool''"
| "py_type_name (JInt i) = ''int''"
| "py_type_name (JStr s) = ''str''"
| "py_type_name (JList xs) = ''list''"
| "py_type_name (JDict kvs) = ''dict''"

definition squote :: char where "squote = CHR 0x27"
definition dquote :: char where "dquote = CHR 0x22"
definition bslash :: char where "bslash = CHR 0x5C"

datatype py_exc =
    ValueError string
  | TypeError string
  | AttributeError string
  | BinasciiError string
  | FileNotFoundError string
  | IsADirectoryError string
  | NotADirectoryError string
  | FileExistsError string
  | RuntimeError string
  | TimeoutExpired "string list" nat

text \<open>
  \<open>d.get(key, default)\<close>: the dictionary's value for the key, the default when the
  key is absent, and \<open>AttributeError\<close> when the receiver is not a dict.  A decoded
  JSON object has distinct keys, so the first binding is the only one.
\<close>

fun py_get :: "json \<Rightarrow> string \<Rightarrow> json \<Rightarrow> py_exc + json" where
  "py_get (JDict kvs) k d = Inr (case map_of kvs k of None \<Rightarrow> d | Some v \<Rightarrow> v)"
| "py_get v k d =
     Inl (AttributeError ([squote] @ py_type_name v @ [squote] @
       '' object has no attribute '' @ [squote] @ ''get'' @ [squote]))"

subsection \<open>\<open>str()\<close> and \<open>repr()\<close>\<close>

fun nat_str :: "nat \<Rightarrow> string" where
  "nat_str n = (if n < 10 then [char_of (48 + n)] else nat_str (n div 10) @ [char_of (48 + n mod 10)])"

declare nat_str.simps [simp del]

definition int_str :: "int \<Rightarrow> string" where
  "int_str i = (if i < 0 then CHR ''-'' # nat_str (nat (- i)) else nat_str (nat i))"

definition hex_digit :: "nat \<Rightarrow> char" where
  "hex_digit d = (if d < 10 then char_of (48 + d) else char_of (87 + d))"

text \<open>
  \<open>repr(s)\<close> of a string: single quotes unless the string contains a single quote and
  no double quote; the quote, backslash, tab, newline and carriage return are
  escaped, other control characters are written \<open>\xNN\<close>.  Bytes of multi-byte UTF-8
  sequences are kept as they are (Python keeps printable non-ASCII characters).
\<close>

definition repr_char :: "char \<Rightarrow> char \<Rightarrow> string" where
  "repr_char q c =
     (if c = q \<or> c = bslash then [bslash, c]
      else if c = CHR 0x09 then [bslash, CHR ''t'']
      else if c = CHR 0x0A then [bslash, CHR ''n'']
      else if c = CHR 0x0D then [bslash, CHR ''r'']
      else if of_char c < (32::nat) \<or> of_char c = (127::nat)
      then [bslash, CHR ''x'', hex_digit (of_char c div 16), hex_digit (of_char c mod 16)]
      else [c])"

definition py_repr_str :: "string \<Rightarrow> string" where
  "py_repr_str s =
     (let q = (if squote \<in> set s \<and> dquote \<notin> set s then dquote else squote)
      in q # concat (map (repr_char q) s) @ [q])"

text \<open>\<open>sep.join(parts)\<close>.\<close>

fun py_join :: "string \<Rightarrow> string list \<Rightarrow> string" where
  "py_join sep [] = []"
| "py_join sep [x] = x"
| "py_join sep (x # y # ys) = x @ sep @ py_join sep (y # ys)"

fun py_repr :: "json \<Rightarrow> string" where
  "py_repr JNone = ''None''"
| "py_repr (JBool b) = (if b then ''True'' else ''False'')"
| "py_repr (JInt i) = int_str i"
| "py_repr (JStr s) = py_repr_str s"
| "py_repr (JList xs) = ''['' @ py_join '', '' (map py_repr xs) @ '']''"
| "py_repr (JDict kvs) =
     ''{'' @ py_join '', '' (map (\<lambda>(k, v). py_repr_str k @ '': '' @ py_repr v) kvs) @ ''}''"

text \<open>\<open>str(v)\<close> is \<open>repr(v)\<close> except on strings, which it returns unchanged.\<close>

fun py_str :: "json \<Rightarrow> string" where
  "py_str (JStr s) = s"
| "py_str v = py_repr v"

subsection \<open>Exception messages\<close>

fun exc_str :: "py_exc \<Rightarrow> string" where
  "exc_str (ValueError m) = m"
| "exc_str (TypeError m) = m"
| "exc_str (AttributeError m) = m"
| "exc_str (BinasciiError m) = m"
| "exc_str (FileNotFoundError p) = ''[Errno 2] No such file or directory: '' @ py_repr_str p"
| "exc_str (IsADirectoryError p) = ''[Errno 21] Is a directory: '' @ py_repr_str p"
| "exc_str (NotADirectoryError p) = ''[Errno 20] Not a directory: '' @ py_repr_str p"
| "exc_str (FileExistsError p) = ''[Errno 17] File exists: '' @ py_repr_str p"
| "exc_str (RuntimeError m) = m"
| "exc_str (TimeoutExpired cmd t) =
     ''Command '' @ [squote] @ py_repr (JList (map JStr cmd)) @ [squote] @
     '' timed out after '' @ nat_str t @ '' seconds''"

subsection \<open>Facts\<close>

lemma nat_str_nonempty [simp]: "nat_str n \<noteq> []"
  by (subst nat_str.simps) simp

lemma py_repr_str_nonempty [simp]: "py_repr_str s \<noteq> []"
  by (simp add: py_repr_str_def Let_def)

lemma py_get_not_dict:
  "(\<And>kvs. v \<noteq> JDict kvs) \<Longrightarrow> \<exists>e. py_get v k d = Inl (AttributeError e)"
  by (cases v) auto

text \<open>Printed numbers are made of digits and the minus sign only.\<close>

lemma digit_chars: "(k::nat) < 10 \<Longrightarrow> char_of (48 + k) \<in> set ''0123456789''"
proof -
  have "list_all (\<lambda>k. char_of (48 + k) \<in> set ''0123456789'') [0..<10]"
    by code_simp
  moreover assume "k < 10"
  ultimately show ?thesis by (simp add: list_all_iff)
qed

lemma nat_str_digits: "set (nat_str n) \<subseteq> set ''0123456789''"
proof (induction n rule: nat_str.induct)
  case (1 n)
  then show ?case
    using digit_chars [of n] digit_chars [of "n mod 10"] by (subst nat_str.simps) auto
qed

lemma int_str_chars: "set (int_str i) \<subseteq> set ''-0123456789''"
proof -
  have "set (nat_str n) \<subseteq> set ''-0123456789''" for n
    using nat_str_digits [of n] by (simp only: list.set(2) subset_insertI2)
  then show ?thesis
    by (simp add: int_str_def)
qed

end
