(* ===== verification/PosixPath.thy ===== *)
theory PosixPath
  imports PyValue
begin

text \<open>
  The path-string functions of Python's \<open>posixpath\<close> module that the handler uses to
  name its files and to find the separation output: \<open>os.path.join\<close>, \<open>split\<close>,
  \<open>basename\<close>, \<open>dirname\<close> and \<open>splitext\<close>, transcribed from CPython.  They
  work on strings only; the file system is not consulted.  The lemmas give the
  decompositions the handler relies on: \<open>splitext\<close> splits a path into two parts
  that concatenate back to it, and \<open>dirname\<close>/\<open>basename\<close> undo a \<open>join\<close> of a
  plain name.
\<close>

definition sep :: char where "sep = CHR ''/''"

text \<open>\<open>p.rfind(c) + 1\<close>: the length of the prefix up to and including the last \<open>c\<close>,
  0 when there is none.\<close>

definition rfind_end :: "char \<Rightarrow> string \<Rightarrow> nat" where
  "rfind_end c p = length p - length (takeWhile (\<lambda>x. x \<noteq> c) (rev p))"

text \<open>\<open>s.rstrip('/')\<close>.\<close>

definition rstrip_sep :: "string \<Rightarrow> string" where
  "rstrip_sep s = rev (dropWhile (\<lambda>x. x = sep) (rev s))"

definition all_sep :: "string \<Rightarrow> bool" where
  "all_sep s \<longleftrightarrow> (\<forall>c \<in> set s. c = sep)"

text \<open>\<open>join(a, *p)\<close>: an absolute component restarts the path, otherwise a separator
  is inserted unless the path is empty or already ends with one.\<close>

fun path_join :: "string \<Rightarrow> string list \<Rightarrow> string" where
  "path_join path [] = path"
| "path_join path (b # bs) =
     path_join (if take 1 b = [sep] then b
                else if path = [] \<or> last path = sep then path @ b
                else path @ [sep] @ b) bs"

definition path_split :: "string \<Rightarrow> string \<times> string" where
  "path_split p =
     (let i = rfind_end sep p; head = take i p; tail = drop i p
      in (if head \<noteq> [] \<and> \<not> all_sep head then rstrip_sep head else head, tail))"

definition basename :: "string \<Rightarrow> string" where
  "basename p = drop (rfind_end sep p) p"

definition dirname :: "string \<Rightarrow> string" where
  "dirname p =
     (let head = take (rfind_end sep p) p
      in if head \<noteq> [] \<and> \<not> all_sep head then rstrip_sep head else head)"

text \<open>
  \<open>splitext(p)\<close> (\<open>genericpath._splitext\<close>): the extension starts at the last dot,
  provided that dot lies in the last path component and some character of that
  component before it is not a dot (the loop over \<open>filenameIndex\<close>); otherwise the
  extension is empty.
\<close>

definition splitext :: "string \<Rightarrow> string \<times> string" where
  "splitext p =
     (let i = rfind_end sep p; name = drop i p; d = rfind_end CHR ''.'' name
      in if d \<noteq> 0 \<and> (\<exists>c \<in> set (take (d - 1) name). c \<noteq> CHR ''.'')
         then (take (i + d - 1) p, drop (i + d - 1) p)
         else (p, []))"

subsection \<open>Facts\<close>

lemma rfind_end_le: "rfind_end c p \<le> length p"
  by (simp add: rfind_end_def)

lemma rfind_end_append_notin:
  "c \<notin> set b \<Longrightarrow> rfind_end c (a @ b) = rfind_end c a"
proof -
  assume "c \<notin> set b"
  then have "takeWhile (\<lambda>x. x \<noteq> c) (rev b @ rev a) = rev b @ takeWhile (\<lambda>x. x \<noteq> c) (rev a)"
    by (subst takeWhile_append2) auto
  then show ?thesis
    by (simp add: rfind_end_def)
qed

lemma rfind_end_snoc: "rfind_end c (a @ [c]) = Suc (length a)"
  by (simp add: rfind_end_def)

lemma splitext_concat: "splitext p = (r, e) \<Longrightarrow> r @ e = p"
  by (auto simp: splitext_def Let_def split: if_splits)

lemma basename_join:
  assumes "sep \<notin> set b"
  shows "basename (a @ sep # b) = b"
proof -
  have "rfind_end sep (a @ sep # b) = Suc (length a)"
    using assms rfind_end_append_notin [of sep b "a @ [sep]"] by (simp add: rfind_end_snoc)
  then show ?thesis by (simp add: basename_def)
qed

lemma dirname_join:
  assumes "sep \<notin> set b" and "a \<noteq> []" and "last a \<noteq> sep"
  shows "dirname (a @ sep # b) = a"
proof -
  have i: "rfind_end sep (a @ sep # b) = Suc (length a)"
    using assms(1) rfind_end_append_notin [of sep b "a @ [sep]"] by (simp add: rfind_end_snoc)
  have "\<not> all_sep (a @ [sep])"
    using assms(2,3) by (auto simp: all_sep_def)
  moreover have "rstrip_sep (a @ [sep]) = a"
  proof -
    have "dropWhile (\<lambda>x. x = sep) (rev a) = rev a"
      using assms(2,3) by (cases "rev a") (auto simp: last_rev [symmetric])
    then show ?thesis by (simp add: rstrip_sep_def)
  qed
  ultimately show ?thesis
    using i by (simp add: dirname_def)
qed

lemma path_split_snd: "snd (path_split p) = drop (rfind_end sep p) p"
  by (simp add: path_split_def Let_def)

lemma path_split_fst_nonempty:
  "sep \<in> set p \<Longrightarrow> fst (path_split p) \<noteq> []"
proof -
  assume "sep \<in> set p"
  then have "takeWhile (\<lambda>x. x \<noteq> sep) (rev p) \<noteq> rev p"
    by (auto simp: takeWhile_eq_all_conv)
  then have ne: "dropWhile (\<lambda>x. x \<noteq> sep) (rev p) \<noteq> []"
    using takeWhile_dropWhile_id [of "\<lambda>x. x \<noteq> sep" "rev p"] by auto
  have "length (takeWhile (\<lambda>x. x \<noteq> sep) (rev p)) + length (dropWhile (\<lambda>x. x \<noteq> sep) (rev p)) = length p"
  proof -
    have "length (takeWhile (\<lambda>x. x \<noteq> sep) (rev p) @ dropWhile (\<lambda>x. x \<noteq> sep) (rev p)) = length p"
      by simp
    then show ?thesis by (simp only: length_append)
  qed
  then have "rfind_end sep p \<noteq> 0"
    using ne by (cases "dropWhile (\<lambda>x. x \<noteq> sep) (rev p)") (simp_all add: rfind_end_def)
  then have "take (rfind_end sep p) p \<noteq> []"
    using rfind_end_le [of sep p] by (cases p) auto
  moreover have "rstrip_sep h \<noteq> []" if "h \<noteq> []" "\<not> all_sep h" for h
    using that by (auto simp: rstrip_sep_def all_sep_def dropWhile_eq_Nil_conv)
  ultimately show ?thesis
    by (auto simp: path_split_def Let_def)
qed

lemma path_join_snoc: "path_join p (bs @ [b]) = path_join (path_join p bs) [b]"
  by (induction p bs rule: path_join.induct) auto

lemma path_join_nonempty: "p \<noteq> [] \<Longrightarrow> path_join p bs \<noteq> []"
proof (induction p bs rule: path_join.induct)
  case (2 path b bs)
  then show ?case by (cases b) (auto split: if_splits)
qed simp

lemma path_join_last:
  assumes "p \<noteq> []" and "take 1 b \<noteq> [sep]"
  shows "\<exists>x. path_join p [b] = x @ sep # b"
proof (cases p rule: rev_cases)
  case (snoc ys y)
  show ?thesis
  proof (cases "y = sep")
    case True
    then have "path_join p [b] = ys @ sep # b" using snoc assms(2) by simp
    then show ?thesis by blast
  next
    case False
    then have "path_join p [b] = (ys @ [y]) @ sep # b" using snoc assms(2) by simp
    then show ?thesis by blast
  qed
qed (use assms in simp)

lemma path_split_sep_base:
  "sep \<notin> set b \<Longrightarrow> path_split (x @ sep # b) = (fst (path_split (x @ sep # b)), b)"
proof -
  assume "sep \<notin> set b"
  then have "rfind_end sep (x @ sep # b) = Suc (length x)"
    using rfind_end_append_notin [of sep b "x @ [sep]"] by (simp add: rfind_end_snoc)
  then show ?thesis by (simp add: path_split_def Let_def)
qed

lemma splitext_fst_take: "\<exists>k. fst (splitext p) = take k p \<and> (p \<noteq> [] \<longrightarrow> 0 < k)"
proof -
  define i where "i = rfind_end sep p"
  define nm where "nm = drop i p"
  define d where "d = rfind_end CHR ''.'' nm"
  have sp: "splitext p = (if d \<noteq> 0 \<and> (\<exists>c \<in> set (take (d - 1) nm). c \<noteq> CHR ''.'')
                          then (take (i + d - 1) p, drop (i + d - 1) p) else (p, []))"
    by (simp add: splitext_def Let_def i_def nm_def d_def)
  show ?thesis
  proof (cases "d \<noteq> 0 \<and> (\<exists>c \<in> set (take (d - 1) nm). c \<noteq> CHR ''.'')")
    case True
    then have "0 < d - 1" by (cases "d - 1") auto
    then show ?thesis using True sp by (intro exI [of _ "i + d - 1"]) auto
  next
    case False
    then show ?thesis using sp by (intro exI [of _ "length p"]) auto
  qed
qed

end
