(* ===== verification/FileSystem.thy ===== *)
theory FileSystem
  imports PosixPath "HOL-Library.Sublist"
begin

text \<open>
  The local file system the worker's scratch directory lives on, and the Python
  operations on it that src/handler.py calls: \<open>os.makedirs(..., exist_ok=True)\<close>,
  \<open>open(p, 'wb').write\<close>, \<open>open(p, 'rb').read\<close>, \<open>os.path.exists\<close>,
  \<open>isfile\<close>, \<open>isdir\<close>, \<open>os.remove\<close>, \<open>shutil.rmtree\<close> and directory listing.
  The store is an association list from component paths to nodes, in creation order
  (the order a directory listing returns); the root directory is implicit.  A path
  string is resolved component by component as the kernel does: every component
  before the last must be an existing directory, \<open>.\<close> and empty components stay,
  \<open>..\<close> goes up.  Symbolic links, permissions and partial writes are not modelled.
  The invariant \<open>fs_wf\<close> (distinct entries, every entry's parent a directory, only
  proper names) is kept by every operation.
\<close>

type_synonym fpath = "string list"

datatype node = File bytes | Dir

type_synonym fs = "(fpath \<times> node) list"

definition lookup :: "fs \<Rightarrow> fpath \<Rightarrow> node option" where
  "lookup fs p = (if p = [] then Some Dir else map_of fs p)"

subsection \<open>Path resolution\<close>

fun split_sep :: "string \<Rightarrow> string list" where
  "split_sep [] = [[]]"
| "split_sep (c # cs) =
     (if c = sep then [] # split_sep cs
      else (case split_sep cs of [] \<Rightarrow> [[c]] | w # ws \<Rightarrow> (c # w) # ws))"

definition comp_step :: "fpath \<Rightarrow> string \<Rightarrow> fpath" where
  "comp_step cur c =
     (if c = [] \<or> c = ''.'' then cur else if c = ''..'' then butlast cur else cur @ [c])"

datatype errno = ENOENT | ENOTDIR | EISDIR | EEXIST

fun walk :: "fs \<Rightarrow> fpath \<Rightarrow> string list \<Rightarrow> errno + fpath" where
  "walk fs cur [] = Inr cur"
| "walk fs cur [c] = Inr (comp_step cur c)"
| "walk fs cur (c # c' # cs) =
     (let nxt = comp_step cur c in
      case lookup fs nxt of
        None \<Rightarrow> Inl ENOENT
      | Some (File _) \<Rightarrow> Inl ENOTDIR
      | Some Dir \<Rightarrow> walk fs nxt (c' # cs))"

text \<open>Paths are resolved from the root: every path the handler builds is absolute.\<close>

definition resolve :: "fs \<Rightarrow> string \<Rightarrow> errno + fpath" where
  "resolve fs p = walk fs [] (split_sep p)"

fun os_error :: "errno \<Rightarrow> string \<Rightarrow> py_exc" where
  "os_error ENOENT p = FileNotFoundError p"
| "os_error ENOTDIR p = NotADirectoryError p"
| "os_error EISDIR p = IsADirectoryError p"
| "os_error EEXIST p = FileExistsError p"

subsection \<open>Queries\<close>

definition os_path_exists :: "fs \<Rightarrow> string \<Rightarrow> bool" where
  "os_path_exists fs p = (case resolve fs p of Inl _ \<Rightarrow> False | Inr q \<Rightarrow> lookup fs q \<noteq> None)"

definition os_path_isfile :: "fs \<Rightarrow> string \<Rightarrow> bool" where
  "os_path_isfile fs p =
     (case resolve fs p of Inl _ \<Rightarrow> False
      | Inr q \<Rightarrow> (case lookup fs q of Some (File _) \<Rightarrow> True | _ \<Rightarrow> False))"

definition os_path_isdir :: "fs \<Rightarrow> string \<Rightarrow> bool" where
  "os_path_isdir fs p = (case resolve fs p of Inl _ \<Rightarrow> False | Inr q \<Rightarrow> lookup fs q = Some Dir)"

text \<open>\<open>os.listdir\<close> (and \<open>os.scandir\<close>): the names of a directory's entries, in the
  store's order.\<close>

definition fs_children :: "fs \<Rightarrow> fpath \<Rightarrow> (string \<times> node) list" where
  "fs_children fs q = [(last p, n). (p, n) \<leftarrow> fs, p \<noteq> [] \<and> butlast p = q]"

subsection \<open>Updates\<close>

definition fs_put :: "fs \<Rightarrow> fpath \<Rightarrow> node \<Rightarrow> fs" where
  "fs_put fs q n =
     (if q \<in> set (map fst fs) then map (\<lambda>(p, m). (p, if p = q then n else m)) fs
      else fs @ [(q, n)])"

definition fs_del_tree :: "fs \<Rightarrow> fpath \<Rightarrow> fs" where
  "fs_del_tree fs q = filter (\<lambda>(p, n). \<not> prefix q p) fs"

definition os_mkdir :: "fs \<Rightarrow> string \<Rightarrow> py_exc + fs" where
  "os_mkdir fs p =
     (case resolve fs p of
        Inl e \<Rightarrow> Inl (os_error e p)
      | Inr q \<Rightarrow> (if lookup fs q \<noteq> None then Inl (FileExistsError p) else Inr (fs @ [(q, Dir)])))"

text \<open>\<open>with open(p, 'wb') as f: f.write(data)\<close>: creates or truncates a file.\<close>

definition os_write_file :: "fs \<Rightarrow> string \<Rightarrow> bytes \<Rightarrow> py_exc + fs" where
  "os_write_file fs p bs =
     (case resolve fs p of
        Inl e \<Rightarrow> Inl (os_error e p)
      | Inr q \<Rightarrow> (case lookup fs q of
                   Some Dir \<Rightarrow> Inl (IsADirectoryError p)
                 | _ \<Rightarrow> Inr (fs_put fs q (File bs))))"

text \<open>\<open>with open(p, 'rb') as f: f.read()\<close>.\<close>

definition os_read_file :: "fs \<Rightarrow> string \<Rightarrow> py_exc + bytes" where
  "os_read_file fs p =
     (case resolve fs p of
        Inl e \<Rightarrow> Inl (os_error e p)
      | Inr q \<Rightarrow> (case lookup fs q of
                   None \<Rightarrow> Inl (FileNotFoundError p)
                 | Some Dir \<Rightarrow> Inl (IsADirectoryError p)
                 | Some (File bs) \<Rightarrow> Inr bs))"

definition os_remove :: "fs \<Rightarrow> string \<Rightarrow> py_exc + fs" where
  "os_remove fs p =
     (case resolve fs p of
        Inl e \<Rightarrow> Inl (os_error e p)
      | Inr q \<Rightarrow> (case lookup fs q of
                   None \<Rightarrow> Inl (FileNotFoundError p)
                 | Some Dir \<Rightarrow> Inl (IsADirectoryError p)
                 | Some (File _) \<Rightarrow> Inr (filter (\<lambda>(r, n). r \<noteq> q) fs)))"

definition shutil_rmtree :: "fs \<Rightarrow> string \<Rightarrow> py_exc + fs" where
  "shutil_rmtree fs p =
     (case resolve fs p of
        Inl e \<Rightarrow> Inl (os_error e p)
      | Inr q \<Rightarrow> (case lookup fs q of
                   None \<Rightarrow> Inl (FileNotFoundError p)
                 | Some (File _) \<Rightarrow> Inl (NotADirectoryError p)
                 | Some Dir \<Rightarrow> Inr (fs_del_tree fs q)))"

text \<open>
  \<open>os.makedirs(name, exist_ok=True)\<close> as CPython writes it: split off the last
  component (twice if the name ends with a separator), create the missing parent
  recursively (a \<open>FileExistsError\<close> from it is ignored), then \<open>mkdir\<close>, whose error
  is ignored when the name is a directory afterwards.
\<close>

definition makedirs_parts :: "string \<Rightarrow> string \<times> string" where
  "makedirs_parts name =
     (let (head, tail) = path_split name in if tail = [] then path_split head else (head, tail))"

lemma length_rstrip_sep: "length (rstrip_sep s) \<le> length s"
  using length_dropWhile_le [of "\<lambda>x. x = sep" "rev s"] by (simp add: rstrip_sep_def)

lemma path_split_fst_le: "length (fst (path_split p)) \<le> length p"
  using length_rstrip_sep [of "take (rfind_end sep p) p"]
  by (auto simp: path_split_def Let_def)

lemma path_split_fst_less: "snd (path_split p) \<noteq> [] \<Longrightarrow> length (fst (path_split p)) < length p"
proof -
  assume "snd (path_split p) \<noteq> []"
  then have "rfind_end sep p < length p"
    by (simp add: path_split_def Let_def)
  moreover have "length (rstrip_sep (take (rfind_end sep p) p)) \<le> rfind_end sep p"
    using length_rstrip_sep [of "take (rfind_end sep p) p"] by simp
  ultimately show ?thesis
    by (auto simp: path_split_def Let_def)
qed

lemma makedirs_parts_less:
  "makedirs_parts name = (head, tail) \<Longrightarrow> tail \<noteq> [] \<Longrightarrow> length head < length name"
  using path_split_fst_less [of name] path_split_fst_less [of "fst (path_split name)"]
        path_split_fst_le [of name]
  by (auto simp: makedirs_parts_def split: prod.splits if_splits)

text \<open>The \<open>except FileExistsError: pass\<close> around the recursive call; whatever
  the call created before raising stays.\<close>

definition ignore_file_exists :: "(py_exc + unit) \<times> fs \<Rightarrow> (py_exc + unit) \<times> fs" where
  "ignore_file_exists r = (case r of (Inl (FileExistsError _), fs) \<Rightarrow> (Inr (), fs) | _ \<Rightarrow> r)"

text \<open>The result is paired with the file system, also on an error: the parents created
  before a failing \<open>mkdir\<close> are not removed.\<close>

function os_makedirs :: "fs \<Rightarrow> string \<Rightarrow> (py_exc + unit) \<times> fs" where
  "os_makedirs fs name =
     (let (head, tail) = makedirs_parts name;
          descend = (head \<noteq> [] \<and> tail \<noteq> [] \<and> \<not> os_path_exists fs head)
      in (case (if descend then ignore_file_exists (os_makedirs fs head) else (Inr (), fs)) of
            (Inl e, fs1) \<Rightarrow> (Inl e, fs1)
          | (Inr _, fs1) \<Rightarrow>
              (if descend \<and> tail = ''.'' then (Inr (), fs1)
               else (case os_mkdir fs1 name of
                       Inr fs2 \<Rightarrow> (Inr (), fs2)
                     | Inl e \<Rightarrow> (if os_path_isdir fs1 name then (Inr (), fs1) else (Inl e, fs1))))))"
  by pat_completeness auto
termination
  by (relation "measure (\<lambda>(fs, name). length name)") (auto dest: sym [THEN makedirs_parts_less])

declare os_makedirs.simps [simp del]

subsection \<open>Well-formedness\<close>

definition valid_name :: "string \<Rightarrow> bool" where
  "valid_name c \<longleftrightarrow> c \<noteq> [] \<and> c \<noteq> ''.'' \<and> c \<noteq> ''..'' \<and> sep \<notin> set c"

definition fs_wf :: "fs \<Rightarrow> bool" where
  "fs_wf fs \<longleftrightarrow> distinct (map fst fs) \<and>
     list_all (\<lambda>p. p \<noteq> [] \<and> lookup fs (butlast p) = Some Dir \<and> list_all valid_name p) (map fst fs)"

subsection \<open>Lookups after an update\<close>

lemma split_sep_no_sep: "c \<in> set (split_sep p) \<Longrightarrow> sep \<notin> set c"
  by (induction p arbitrary: c rule: split_sep.induct) (auto split: if_splits list.splits)

lemma fs_wf_parent:
  "fs_wf fs \<Longrightarrow> lookup fs q = Some n \<Longrightarrow> q \<noteq> [] \<Longrightarrow> lookup fs (butlast q) = Some Dir"
  by (force simp: fs_wf_def lookup_def list_all_iff dest!: map_of_SomeD)

lemma fs_wf_names:
  "fs_wf fs \<Longrightarrow> lookup fs q = Some n \<Longrightarrow> list_all valid_name q"
  by (cases "q = []") (force simp: fs_wf_def lookup_def list_all_iff dest!: map_of_SomeD)+

text \<open>Every proper ancestor of an existing entry is a directory.\<close>

lemma fs_wf_ancestor:
  "fs_wf fs \<Longrightarrow> lookup fs (p @ r) = Some n \<Longrightarrow> r \<noteq> [] \<Longrightarrow> lookup fs p = Some Dir"
proof (induction r arbitrary: n rule: rev_induct)
  case (snoc x r)
  have "butlast (p @ r @ [x]) = p @ r"
    by (simp add: butlast_append)
  then have "lookup fs (p @ r) = Some Dir"
    using fs_wf_parent [OF snoc.prems(1,2)] by simp
  then show ?case
    using snoc by (cases "r = []") auto
qed simp

text \<open>Every directory the walk passes through exists; the walk ends at an existing
  node or at a new proper name inside an existing directory.\<close>

lemma walk_dir_steps:
  "walk fs cur cs = Inr q \<Longrightarrow> lookup fs cur = Some Dir \<Longrightarrow> fs_wf fs \<Longrightarrow>
   \<forall>c \<in> set cs. sep \<notin> set c \<Longrightarrow>
   lookup fs q \<noteq> None \<or> (q \<noteq> [] \<and> lookup fs (butlast q) = Some Dir \<and> valid_name (last q))"
proof (induction fs cur cs rule: walk.induct)
  case (1 fs cur)
  then show ?case by simp
next
  case (2 fs cur c)
  show ?case
  proof (cases "c = [] \<or> c = ''.'' \<or> c = ''..''")
    case True
    then show ?thesis
      using "2.prems" fs_wf_parent [of fs cur Dir]
      by (cases "cur = []") (auto simp: comp_step_def lookup_def)
  next
    case False
    then show ?thesis
      using "2.prems" by (auto simp: comp_step_def valid_name_def)
  qed
next
  case (3 fs cur c c' cs)
  then show ?case
    by (auto simp: Let_def split: option.splits node.splits)
qed

lemma lookup_filter:
  "lookup (filter (\<lambda>(p, n). P p) fs) r = (if r = [] \<or> P r then lookup fs r else None)"
  by (auto simp: lookup_def map_of_filter_keep map_of_filter_other)

lemma lookup_append_new:
  "q \<noteq> [] \<Longrightarrow> lookup fs q = None \<Longrightarrow> lookup (fs @ [(q, n)]) r = (if r = q then Some n else lookup fs r)"
  by (auto simp: lookup_def map_add_def split: option.splits)

lemma map_of_map_update:
  "map_of (map (\<lambda>(p, m). (p, if p = q then n else m)) fs) r =
   (if r = q then map_option (\<lambda>_. n) (map_of fs r) else map_of fs r)"
  by (induction fs) auto

lemma lookup_fs_put:
  assumes "q \<noteq> []"
  shows "lookup (fs_put fs q n) r = (if r = q then Some n else lookup fs r)"
proof (cases "q \<in> set (map fst fs)")
  case True
  then obtain m where "map_of fs q = Some m"
    by (auto dest: weak_map_of_SomeI)
  then show ?thesis
    using assms True by (simp add: fs_put_def lookup_def map_of_map_update)
next
  case False
  then have "map_of fs q = None"
    by (simp add: map_of_eq_None_iff)
  then show ?thesis
    using assms False by (simp add: fs_put_def lookup_def map_add_def split: option.split)
qed

lemma map_fst_fs_put:
  "map fst (fs_put fs q n) = (if q \<in> set (map fst fs) then map fst fs else map fst fs @ [q])"
  by (induction fs) (auto simp: fs_put_def)

lemma fs_wf_filter:
  assumes "fs_wf fs"
    and "\<And>p. p \<in> set (map fst fs) \<Longrightarrow> P p \<Longrightarrow> butlast p = [] \<or> P (butlast p)"
  shows "fs_wf (filter (\<lambda>(p, n). P p) fs)"
proof -
  let ?fs' = "filter (\<lambda>(p, n). P p) fs"
  have "distinct (map fst ?fs')"
    using assms(1) by (simp add: fs_wf_def distinct_map_fst_filter)
  moreover have "p \<noteq> [] \<and> lookup ?fs' (butlast p) = Some Dir \<and> list_all valid_name p"
    if "p \<in> set (map fst ?fs')" for p
  proof -
    from that have mem: "p \<in> set (map fst fs)" and P: "P p" by auto
    then have "p \<noteq> [] \<and> lookup fs (butlast p) = Some Dir \<and> list_all valid_name p"
      using assms(1) by (auto simp: fs_wf_def list_all_iff)
    moreover have "butlast p = [] \<or> P (butlast p)"
      using assms(2) [OF mem P] .
    ultimately show ?thesis
      by (auto simp: lookup_filter)
  qed
  ultimately show ?thesis
    by (simp add: fs_wf_def list_all_iff)
qed

lemma fs_wf_add:
  assumes "fs_wf fs" and "q \<noteq> []" and "lookup fs q = None" and "lookup fs (butlast q) = Some Dir"
    and "valid_name (last q)"
  shows "fs_wf (fs @ [(q, n)])"
proof -
  have names: "list_all valid_name q"
  proof -
    have "list_all valid_name (butlast q)"
      using assms(1,4) by (cases "butlast q = []") (auto dest: fs_wf_names)
    moreover have "q = butlast q @ [last q]"
      using assms(2) by simp
    ultimately show ?thesis
      using assms(5) by (metis list.pred_inject list_all_append)
  qed
  have "q \<notin> set (map fst fs)"
    using assms(2,3) by (simp add: lookup_def map_of_eq_None_iff)
  moreover have "lookup fs (butlast q) = Some Dir" by (rule assms(4))
  moreover have "p \<noteq> [] \<and> lookup (fs @ [(q, n)]) (butlast p) = Some Dir \<and> list_all valid_name p"
    if "p \<in> set (map fst fs)" for p
  proof -
    have old: "p \<noteq> [] \<and> lookup fs (butlast p) = Some Dir \<and> list_all valid_name p"
      using assms(1) that by (auto simp: fs_wf_def list_all_iff)
    then have "butlast p \<noteq> q"
      using assms(3) by auto
    with old show ?thesis
      using assms(2,3) by (simp add: lookup_append_new)
  qed
  moreover have "butlast q \<noteq> q"
    using assms(3,4) by auto
  then have "lookup (fs @ [(q, n)]) (butlast q) = Some Dir"
    using assms(2,3,4) by (simp add: lookup_append_new)
  ultimately show ?thesis
    using assms(1,2) names by (auto simp: fs_wf_def list_all_iff)
qed

subsection \<open>Every operation keeps the file system well formed\<close>

lemma resolve_target:
  assumes "fs_wf fs" and "resolve fs p = Inr q"
  shows "lookup fs q \<noteq> None \<or> (q \<noteq> [] \<and> lookup fs (butlast q) = Some Dir \<and> valid_name (last q))"
  using walk_dir_steps [of fs "[]" "split_sep p" q] assms split_sep_no_sep
  by (auto simp: resolve_def lookup_def)

lemma fs_wf_replace_file:
  assumes "fs_wf fs" and "lookup fs q = Some (File b)"
  shows "fs_wf (fs_put fs q (File bs))"
proof -
  have q: "q \<noteq> []" and key: "q \<in> set (map fst fs)"
    using assms(2) by (auto simp: lookup_def split: if_splits dest: map_of_SomeD intro: rev_image_eqI)
  have keys: "map fst (fs_put fs q (File bs)) = map fst fs"
    using key by (simp add: map_fst_fs_put)
  have "lookup (fs_put fs q (File bs)) (butlast p) = Some Dir"
    if "p \<in> set (map fst fs)" for p
  proof -
    have "lookup fs (butlast p) = Some Dir"
      using assms(1) that by (auto simp: fs_wf_def list_all_iff)
    moreover then have "butlast p \<noteq> q"
      using assms(2) by auto
    ultimately show ?thesis
      using q by (simp add: lookup_fs_put)
  qed
  then show ?thesis
    using assms(1) keys by (auto simp: fs_wf_def list_all_iff)
qed

lemma os_mkdir_wf [wf_preserve]:
  assumes "fs_wf fs" and "os_mkdir fs p = Inr fs'"
  shows "fs_wf fs'"
proof -
  obtain q where r: "resolve fs p = Inr q" and new: "lookup fs q = None" and fs': "fs' = fs @ [(q, Dir)]"
    using assms(2) by (auto simp: os_mkdir_def split: sum.splits if_splits)
  then have "q \<noteq> [] \<and> lookup fs (butlast q) = Some Dir \<and> valid_name (last q)"
    using resolve_target [OF assms(1) r] by simp
  then show ?thesis
    using fs_wf_add [OF assms(1) _ new] fs' by simp
qed

lemma os_write_file_wf [wf_preserve]:
  assumes "fs_wf fs" and "os_write_file fs p bs = Inr fs'"
  shows "fs_wf fs'"
proof -
  obtain q where r: "resolve fs p = Inr q" and nd: "lookup fs q \<noteq> Some Dir"
      and fs': "fs' = fs_put fs q (File bs)"
    using assms(2) by (auto simp: os_write_file_def split: sum.splits option.splits node.splits)
  show ?thesis
  proof (cases "lookup fs q")
    case None
    then have "q \<noteq> [] \<and> lookup fs (butlast q) = Some Dir \<and> valid_name (last q)"
      using resolve_target [OF assms(1) r] by simp
    moreover have "q \<notin> set (map fst fs)"
      using None by (auto simp: lookup_def map_of_eq_None_iff split: if_splits)
    ultimately show ?thesis
      using fs_wf_add [OF assms(1) _ None] fs' by (simp add: fs_put_def)
  next
    case (Some n)
    with nd obtain b where "lookup fs q = Some (File b)"
      by (cases n) auto
    then show ?thesis
      using fs_wf_replace_file [OF assms(1)] fs' by simp
  qed
qed

lemma os_remove_wf [wf_preserve]:
  assumes "fs_wf fs" and "os_remove fs p = Inr fs'"
  shows "fs_wf fs'"
proof -
  obtain q b where f: "lookup fs q = Some (File b)" and fs': "fs' = filter (\<lambda>(r, n). r \<noteq> q) fs"
    using assms(2) by (auto simp: os_remove_def split: sum.splits option.splits node.splits)
  have "butlast r = [] \<or> butlast r \<noteq> q" if "r \<in> set (map fst fs)" for r
  proof -
    have "r \<noteq> [] \<and> lookup fs (butlast r) = Some Dir"
      using assms(1) that by (auto simp: fs_wf_def list_all_iff)
    then show ?thesis using f by auto
  qed
  then show ?thesis
    using fs_wf_filter [OF assms(1), of "\<lambda>r. r \<noteq> q"] fs' by auto
qed

lemma shutil_rmtree_wf [wf_preserve]:
  assumes "fs_wf fs" and "shutil_rmtree fs p = Inr fs'"
  shows "fs_wf fs'"
proof -
  obtain q where fs': "fs' = fs_del_tree fs q"
    using assms(2) by (auto simp: shutil_rmtree_def split: sum.splits option.splits node.splits)
  have "butlast r = [] \<or> \<not> prefix q (butlast r)" if "\<not> prefix q r" for r
    using that prefix_order.trans [OF _ prefixeq_butlast [of r]] by blast
  then show ?thesis
    using fs_wf_filter [OF assms(1), of "\<lambda>r. \<not> prefix q r"] fs' by (auto simp: fs_del_tree_def)
qed

lemma ignore_file_exists_wf:
  "(\<And>r' fs1. r = (r', fs1) \<Longrightarrow> fs_wf fs1) \<Longrightarrow> ignore_file_exists r = (r'', fs') \<Longrightarrow> fs_wf fs'"
  by (auto simp: ignore_file_exists_def split: prod.splits sum.splits py_exc.splits)

lemma os_makedirs_wf [wf_preserve]:
  "fs_wf fs \<Longrightarrow> os_makedirs fs name = (r, fs') \<Longrightarrow> fs_wf fs'"
proof (induction fs name arbitrary: r fs' rule: os_makedirs.induct)
  case (1 fs name)
  obtain head tail where parts: "makedirs_parts name = (head, tail)"
    by fastforce
  define descend where "descend = (head \<noteq> [] \<and> tail \<noteq> [] \<and> \<not> os_path_exists fs head)"
  define first where "first = (if descend then ignore_file_exists (os_makedirs fs head) else (Inr (), fs))"
  have first_wf: "fs_wf fs1" if "first = (r1, fs1)" for r1 fs1
  proof (cases descend)
    case True
    have IH: "fs_wf fs2" if "os_makedirs fs head = (r2, fs2)" for r2 fs2
      using "1.IH" [OF parts [symmetric] refl refl] True "1.prems"(1) that
      unfolding descend_def by blast
    show ?thesis
      using ignore_file_exists_wf [of "os_makedirs fs head", OF IH] that True
      by (simp add: first_def)
  next
    case False
    then show ?thesis using that "1.prems"(1) by (simp add: first_def)
  qed
  have eq: "os_makedirs fs name =
      (case first of (Inl e, fs1) \<Rightarrow> (Inl e, fs1)
       | (Inr _, fs1) \<Rightarrow> (if descend \<and> tail = ''.'' then (Inr (), fs1)
                    else (case os_mkdir fs1 name of Inr fs2 \<Rightarrow> (Inr (), fs2)
                          | Inl e \<Rightarrow> (if os_path_isdir fs1 name then (Inr (), fs1) else (Inl e, fs1)))))"
    by (simp only: os_makedirs.simps [of fs name] parts prod.case Let_def
        descend_def [symmetric] first_def [symmetric])
  show ?case
    using "1.prems"(2) first_wf os_mkdir_wf
    by (auto simp: eq split: prod.splits sum.splits if_splits)
qed

subsection \<open>Reading what was written\<close>

lemma walk_keeps_dirs:
  "(\<And>r. lookup fs r = Some Dir \<Longrightarrow> lookup fs' r = Some Dir) \<Longrightarrow>
   walk fs cur cs = Inr q \<Longrightarrow> walk fs' cur cs = Inr q"
proof (induction fs cur cs rule: walk.induct)
  case (3 fs cur c c' cs)
  then have d: "lookup fs (comp_step cur c) = Some Dir"
    by (auto simp: Let_def split: option.splits node.splits)
  with 3 have "walk fs' (comp_step cur c) (c' # cs) = Inr q"
    by (simp add: Let_def)
  with d "3.prems"(1) [OF d] show ?case
    by (simp add: Let_def)
qed auto

lemma os_write_file_result:
  assumes "os_write_file fs p bs = Inr fs'"
  shows "\<exists>q. resolve fs p = Inr q \<and> q \<noteq> [] \<and> lookup fs q \<noteq> Some Dir \<and> fs' = fs_put fs q (File bs)"
proof -
  obtain q where r: "resolve fs p = Inr q"
    using assms by (cases "resolve fs p") (auto simp: os_write_file_def)
  then have nd: "lookup fs q \<noteq> Some Dir" and fs': "fs' = fs_put fs q (File bs)"
    using assms by (auto simp: os_write_file_def split: option.splits node.splits)
  moreover have "q \<noteq> []"
    using nd by (auto simp: lookup_def)
  ultimately show ?thesis using r by blast
qed

lemma os_read_write_file:
  assumes "os_write_file fs p bs = Inr fs'"
  shows "os_read_file fs' p = Inr bs"
proof -
  obtain q where r: "resolve fs p = Inr q" and q: "q \<noteq> []" and nd: "lookup fs q \<noteq> Some Dir"
      and fs': "fs' = fs_put fs q (File bs)"
    using os_write_file_result [OF assms] by blast
  have "lookup fs' r' = Some Dir" if "lookup fs r' = Some Dir" for r'
    using that nd q fs' by (auto simp: lookup_fs_put)
  then have "resolve fs' p = Inr q"
    using r walk_keeps_dirs [of fs fs'] by (simp add: resolve_def)
  then show ?thesis
    using q fs' by (simp add: os_read_file_def lookup_fs_put)
qed

lemma lookup_fs_del_tree:
  "lookup (fs_del_tree fs q) r = (if r \<noteq> [] \<and> prefix q r then None else lookup fs r)"
  by (auto simp: fs_del_tree_def lookup_filter)

subsection \<open>A plain name inside an existing directory\<close>

text \<open>The handler's paths are a directory it created joined with one plain name; these
  lemmas resolve such a path and evaluate \<open>makedirs\<close> on it.\<close>

lemma split_sep_nonempty: "split_sep p \<noteq> []"
  by (induction p rule: split_sep.induct) (auto split: list.splits)

lemma split_sep_append:
  "sep \<notin> set n \<Longrightarrow> split_sep (d @ sep # n) = split_sep d @ [n]"
proof (induction d rule: split_sep.induct)
  case 1
  have "split_sep n = [n]" using 1
    by (induction n rule: split_sep.induct) (auto split: list.splits)
  then show ?case by simp
next
  case (2 c cs)
  then show ?case
    using split_sep_nonempty [of cs] by (auto split: list.splits simp: neq_Nil_conv)
qed

lemma walk_snoc:
  "walk fs cur cs = Inr q \<Longrightarrow> cs \<noteq> [] \<Longrightarrow> lookup fs q = Some Dir \<Longrightarrow>
   walk fs cur (cs @ [n]) = Inr (comp_step q n)"
proof (induction fs cur cs rule: walk.induct)
  case (3 fs cur c c' cs)
  then show ?case by (auto simp: Let_def split: option.splits node.splits)
qed (auto simp: Let_def)

lemma resolve_child:
  "resolve fs d = Inr q \<Longrightarrow> lookup fs q = Some Dir \<Longrightarrow> valid_name n \<Longrightarrow>
   resolve fs (d @ sep # n) = Inr (q @ [n])"
  using walk_snoc [of fs "[]" "split_sep d" q n] split_sep_nonempty [of d]
  by (simp add: resolve_def split_sep_append valid_name_def comp_step_def)

text \<open>A path that goes on below a component that is not a directory does not resolve.\<close>

lemma split_sep_append_gen: "split_sep (d @ sep # x) = split_sep d @ split_sep x"
proof (induction d rule: split_sep.induct)
  case 1
  then show ?case by simp
next
  case (2 c cs)
  then show ?case
    using split_sep_nonempty [of cs] by (auto split: list.splits simp: neq_Nil_conv)
qed

lemma walk_append:
  "walk fs cur cs = Inr q \<Longrightarrow> cs \<noteq> [] \<Longrightarrow> lookup fs q = Some Dir \<Longrightarrow>
   walk fs cur (cs @ ds) = walk fs q ds"
proof (induction fs cur cs rule: walk.induct)
  case (2 fs cur c)
  then show ?case by (cases ds) (auto simp: Let_def)
next
  case (3 fs cur c c' cs)
  then show ?case by (auto simp: Let_def split: option.splits node.splits)
qed simp

lemma split_sep_plain: "sep \<notin> set n \<Longrightarrow> split_sep n = [n]"
  by (induction n rule: split_sep.induct) (auto split: list.splits)

lemma resolve_below_missing:
  assumes "resolve fs d = Inr q" and "lookup fs q = Some Dir" and "valid_name n"
    and "lookup fs (q @ [n]) \<noteq> Some Dir"
  shows "\<exists>e. resolve fs (d @ sep # n @ sep # rest) = Inl e"
proof -
  obtain c cs where r: "split_sep rest = c # cs"
    using split_sep_nonempty [of rest] by (cases "split_sep rest") auto
  have "split_sep (d @ sep # n @ sep # rest) = split_sep d @ n # c # cs"
    using assms(3) r by (simp add: split_sep_append_gen split_sep_plain valid_name_def)
  moreover have "walk fs [] (split_sep d @ n # c # cs) = walk fs q (n # c # cs)"
    using walk_append [of fs "[]" "split_sep d" q] assms(1,2) split_sep_nonempty [of d]
    by (simp add: resolve_def)
  moreover have "comp_step q n = q @ [n]"
    using assms(3) by (simp add: comp_step_def valid_name_def)
  ultimately show ?thesis
    using assms(4) by (auto simp: resolve_def Let_def split: option.split node.split)
qed

lemma path_join_child:
  "d \<noteq> [] \<Longrightarrow> last d \<noteq> sep \<Longrightarrow> valid_name n \<Longrightarrow> path_join d [n] = d @ sep # n"
  by (cases n) (auto simp: valid_name_def)

lemma path_split_join:
  "sep \<notin> set b \<Longrightarrow> a \<noteq> [] \<Longrightarrow> last a \<noteq> sep \<Longrightarrow> path_split (a @ sep # b) = (a, b)"
  using dirname_join [of b a] basename_join [of b a]
  by (simp add: path_split_def dirname_def basename_def Let_def)

lemma makedirs_parts_child:
  "valid_name b \<Longrightarrow> a \<noteq> [] \<Longrightarrow> last a \<noteq> sep \<Longrightarrow> makedirs_parts (a @ sep # b) = (a, b)"
  by (simp add: makedirs_parts_def path_split_join valid_name_def)

lemma os_makedirs_child:
  assumes "resolve fs d = Inr q" and "lookup fs q = Some Dir"
    and "d \<noteq> []" and "last d \<noteq> sep" and "valid_name n"
  shows "os_makedirs fs (d @ sep # n) =
    (case lookup fs (q @ [n]) of
       None \<Rightarrow> (Inr (), fs @ [(q @ [n], Dir)])
     | Some Dir \<Rightarrow> (Inr (), fs)
     | Some (File _) \<Rightarrow> (Inl (FileExistsError (d @ sep # n)), fs))"
proof -
  have ex: "os_path_exists fs d"
    using assms(1,2) by (simp add: os_path_exists_def)
  have r: "resolve fs (d @ sep # n) = Inr (q @ [n])"
    using resolve_child [OF assms(1,2,5)] .
  show ?thesis
    by (subst os_makedirs.simps)
       (simp add: makedirs_parts_child [OF assms(5,3,4)] ex os_mkdir_def os_path_isdir_def r
        split: option.split node.split)
qed

lemma os_makedirs_child_isdir:
  assumes "resolve fs d = Inr q" and "lookup fs q = Some Dir"
    and "d \<noteq> []" and "last d \<noteq> sep" and "valid_name n"
    and "os_makedirs fs (d @ sep # n) = (Inr (), fs')"
  shows "resolve fs' (d @ sep # n) = Inr (q @ [n]) \<and> lookup fs' (q @ [n]) = Some Dir"
proof (cases "lookup fs (q @ [n])")
  case None
  then have fs': "fs' = fs @ [(q @ [n], Dir)]"
    using assms(6) by (simp add: os_makedirs_child [OF assms(1-5)])
  have "lookup fs' r = Some Dir" if "lookup fs r = Some Dir" for r
    using that None fs' by (auto simp: lookup_append_new)
  then show ?thesis
    using resolve_child [OF assms(1,2,5)] walk_keeps_dirs [of fs fs'] None fs'
    by (simp add: resolve_def lookup_append_new)
next
  case (Some m)
  then show ?thesis
    using assms(6) resolve_child [OF assms(1,2,5)]
    by (cases m) (simp_all add: os_makedirs_child [OF assms(1-5)])
qed

lemma os_write_file_ok:
  "resolve fs p = Inr q \<Longrightarrow> \<not> os_path_isdir fs p \<Longrightarrow> os_write_file fs p bs = Inr (fs_put fs q (File bs))"
  by (auto simp: os_write_file_def os_path_isdir_def split: option.split node.split)

lemma isdir_resolve: "os_path_isdir fs p \<Longrightarrow> \<exists>q. resolve fs p = Inr q \<and> lookup fs q = Some Dir"
  by (auto simp: os_path_isdir_def split: sum.splits)

lemma valid_name_last: "valid_name n \<Longrightarrow> last n \<noteq> sep"
  by (metis last_in_set valid_name_def)

subsection \<open>Entries below a missing path\<close>

lemma fs_wf_below_missing:
  assumes "fs_wf fs" and "lookup fs p \<noteq> None" and "prefix r p" and "r \<noteq> []"
  shows "lookup fs r \<noteq> None"
  using assms(2,3)
proof (induction p rule: rev_induct)
  case Nil
  then show ?case using assms(4) by simp
next
  case (snoc a p)
  show ?case
  proof (cases "r = p @ [a]")
    case True
    then show ?thesis using snoc.prems by simp
  next
    case False
    then have "prefix r p"
      using snoc.prems(2) by (simp add: prefix_snoc)
    moreover have "lookup fs p = Some Dir"
      using fs_wf_parent [OF assms(1)] snoc.prems(1) by fastforce
    ultimately show ?thesis
      using snoc.IH by simp
  qed
qed

lemma fs_del_tree_missing:
  assumes "fs_wf fs" and "lookup fs r = None" and "r \<noteq> []"
  shows "fs_del_tree fs r = fs"
proof -
  have "\<not> prefix r p" if "(p, n) \<in> set fs" for p n
  proof
    assume pre: "prefix r p"
    have "p \<noteq> []" using pre assms(3) by auto
    then have "lookup fs p \<noteq> None"
      using that assms(1) by (auto simp: lookup_def fs_wf_def dest: weak_map_of_SomeI)
    then show False
      using fs_wf_below_missing [OF assms(1) _ pre assms(3)] assms(2) by simp
  qed
  then show ?thesis
    by (auto simp: fs_del_tree_def filter_id_conv)
qed

lemma lookup_append:
  "lookup (fs @ ys) r = (if r \<noteq> [] \<and> lookup fs r = None then map_of ys r else lookup fs r)"
  by (auto simp: lookup_def map_add_def split: option.split)

lemma missing_below:
  "fs_wf fs \<Longrightarrow> lookup fs r = None \<Longrightarrow> r \<noteq> [] \<Longrightarrow> lookup fs (r @ ys) = None"
  using fs_wf_below_missing [of fs "r @ ys" r] by (cases "lookup fs (r @ ys)") auto

text \<open>The file system after a job whose tool wrote the documented layout: the input
  file, the output directory, and below it the model directory, the stem directory and
  the result file.\<close>

lemma job_layout_wf:
  assumes wf: "fs_wf fs" and q: "lookup fs q = Some Dir"
    and a: "lookup fs (q @ [a]) = None" and od: "lookup fs (q @ [od]) = None" and ao: "a \<noteq> od"
    and v: "valid_name a" "valid_name od" "valid_name m" "valid_name s" "valid_name x"
  shows "fs_wf (fs @ [(q @ [a], File b), (q @ [od], Dir), (q @ [od, m], Dir), (q @ [od, m, s], Dir),
                      (q @ [od, m, s, x], File r)])"
proof -
  have om: "lookup fs (q @ [od, m]) = None" and oms: "lookup fs (q @ [od, m, s]) = None"
    and omsx: "lookup fs (q @ [od, m, s, x]) = None"
    using missing_below [OF wf od] by (simp_all add: missing_below [OF wf od, of "[m]", simplified]
      missing_below [OF wf od, of "[m, s]", simplified] missing_below [OF wf od, of "[m, s, x]", simplified])
  have 1: "fs_wf (fs @ [(q @ [a], File b)])"
    using fs_wf_add [OF wf _ a] q v(1) by simp
  have 2: "fs_wf ((fs @ [(q @ [a], File b)]) @ [(q @ [od], Dir)])"
    using fs_wf_add [OF 1, of "q @ [od]"] q od ao v(2) by (simp add: lookup_append butlast_append)
  have 3: "fs_wf ((fs @ [(q @ [a], File b), (q @ [od], Dir)]) @ [(q @ [od, m], Dir)])"
    using fs_wf_add [OF 2 [simplified], of "q @ [od, m]"] q od ao not_sym [OF ao] om v(3) by (simp add: lookup_append butlast_append)
  have 4: "fs_wf ((fs @ [(q @ [a], File b), (q @ [od], Dir), (q @ [od, m], Dir)]) @ [(q @ [od, m, s], Dir)])"
    using fs_wf_add [OF 3 [simplified], of "q @ [od, m, s]"] q od ao not_sym [OF ao] om oms v(4) by (simp add: lookup_append butlast_append)
  show ?thesis
    using fs_wf_add [OF 4 [simplified], of "q @ [od, m, s, x]"] q od ao not_sym [OF ao] om oms omsx v(5) by (simp add: lookup_append butlast_append)
qed

lemma lookup_keeps_dir: "lookup fs r = Some Dir \<Longrightarrow> lookup (fs @ ys) r = Some Dir"
  by (simp add: lookup_append)

lemma resolve_append:
  "resolve fs p = Inr q \<Longrightarrow> lookup fs q = Some Dir \<Longrightarrow> resolve (fs @ ys) p = Inr q"
  using walk_keeps_dirs [of fs "fs @ ys"] lookup_keeps_dir by (simp add: resolve_def)

lemma fs_children_append: "fs_children (fs @ ys) q = fs_children fs q @ fs_children ys q"
  by (simp add: fs_children_def)

lemma fs_children_missing:
  "fs_wf fs \<Longrightarrow> lookup fs r = None \<Longrightarrow> r \<noteq> [] \<Longrightarrow> fs_children fs (r @ ys) = []"
proof -
  assume wf: "fs_wf fs" and r: "lookup fs r = None" "r \<noteq> []"
  have "\<not> (p \<noteq> [] \<and> butlast p = r @ ys)" if "(p, n) \<in> set fs" for p n
  proof
    assume "p \<noteq> [] \<and> butlast p = r @ ys"
    then have "p = r @ ys @ [last p]" by (metis append.assoc append_butlast_last_id)
    then have "lookup fs p = None" using missing_below [OF wf r] by metis
    moreover have "lookup fs p \<noteq> None"
      using that \<open>p \<noteq> [] \<and> butlast p = r @ ys\<close> wf
      by (auto simp: lookup_def fs_wf_def dest: weak_map_of_SomeI)
    ultimately show False by simp
  qed
  then show ?thesis
    by (auto simp: fs_children_def)
qed

text \<open>Lookups and listings in the layout a successful job leaves, and the resolution
  of the result file's path.\<close>

lemma job_layout_lookups:
  fixes b r :: bytes and m s x :: string
  assumes wf: "fs_wf fs" and a: "lookup fs (q @ [a]) = None" and od: "lookup fs (q @ [od]) = None"
    and ao: "a \<noteq> od"
  defines "L \<equiv> fs @ [(q @ [a], File b), (q @ [od], Dir), (q @ [od, m], Dir), (q @ [od, m, s], Dir),
                    (q @ [od, m, s, x], File r)]"
  shows "lookup L (q @ [od]) = Some Dir" "lookup L (q @ [od, m]) = Some Dir"
    "lookup L (q @ [od, m, s]) = Some Dir" "lookup L (q @ [od, m, s, x]) = Some (File r)"
    "fs_children L (q @ [od, m, s]) = [(x, File r)]"
    "lookup fs p = Some Dir \<Longrightarrow> lookup L p = Some Dir"
proof -
  have ne: "q @ [od] \<noteq> []" by simp
  have below: "lookup fs (q @ [od] @ ys) = None" for ys
    using missing_below [OF wf od ne] by simp
  show "lookup L (q @ [od]) = Some Dir" "lookup L (q @ [od, m]) = Some Dir"
    "lookup L (q @ [od, m, s]) = Some Dir" "lookup L (q @ [od, m, s, x]) = Some (File r)"
    using od ao below [of "[m]"] below [of "[m, s]"] below [of "[m, s, x]"]
    by (simp_all add: L_def lookup_append)
  have "fs_children fs (q @ [od] @ [m, s]) = []"
    using fs_children_missing [OF wf od ne, of "[m, s]"] by simp
  then show "fs_children L (q @ [od, m, s]) = [(x, File r)]"
    by (simp add: L_def fs_children_append fs_children_def butlast_append)
  show "lookup fs p = Some Dir \<Longrightarrow> lookup L p = Some Dir"
    by (simp add: L_def lookup_keeps_dir)
qed

lemma resolve_descend:
  assumes "resolve fs d = Inr q" and "lookup fs q = Some Dir"
    and "lookup fs (q @ [a]) = Some Dir" and "lookup fs (q @ [a, b]) = Some Dir"
    and "lookup fs (q @ [a, b, c]) = Some Dir"
    and "valid_name a" "valid_name b" "valid_name c" "valid_name x"
  shows "resolve fs (d @ sep # a @ sep # b @ sep # c @ sep # x) = Inr (q @ [a, b, c, x])"
proof -
  have "resolve fs (d @ sep # a) = Inr (q @ [a])"
    using resolve_child [OF assms(1,2,6)] .
  then have "resolve fs ((d @ sep # a) @ sep # b) = Inr (q @ [a, b])"
    using resolve_child [where d = "d @ sep # a", OF _ assms(3,7)] by simp
  then have "resolve fs (((d @ sep # a) @ sep # b) @ sep # c) = Inr (q @ [a, b, c])"
    using resolve_child [where d = "(d @ sep # a) @ sep # b", OF _ assms(4,8)] by simp
  then show ?thesis
    using resolve_child [where d = "((d @ sep # a) @ sep # b) @ sep # c", OF _ assms(5,9)] by simp
qed

subsection \<open>Removal only shrinks\<close>

lemma resolve_filter:
  "resolve (filter (\<lambda>(r, n). P r) fs) p = Inr q \<Longrightarrow> resolve fs p = Inr q"
proof -
  have "lookup fs r = Some Dir" if "lookup (filter (\<lambda>(r, n). P r) fs) r = Some Dir" for r
    using that by (simp add: lookup_filter split: if_splits)
  moreover assume "resolve (filter (\<lambda>(r, n). P r) fs) p = Inr q"
  ultimately show ?thesis
    using walk_keeps_dirs [of "filter (\<lambda>(r, n). P r) fs" fs] by (simp add: resolve_def)
qed

lemma exists_filter:
  "os_path_exists (filter (\<lambda>(r, n). P r) fs) p \<Longrightarrow> os_path_exists fs p"
  by (auto simp: os_path_exists_def lookup_filter dest: resolve_filter split: sum.splits if_splits)

lemma ex_filter_id: "\<exists>P. fs = filter (\<lambda>(r, n). P r) fs"
  by (rule exI [of _ "\<lambda>_. True"]) simp

subsection \<open>What a sequence of operations adds\<close>

text \<open>\<open>new_within fs fs' R\<close>: every entry of \<open>fs'\<close> already existed in \<open>fs\<close> or
  satisfies \<open>R\<close>.\<close>

definition new_within :: "fs \<Rightarrow> fs \<Rightarrow> (fpath \<Rightarrow> bool) \<Rightarrow> bool" where
  "new_within fs fs' R \<longleftrightarrow> (\<forall>(p, n) \<in> set fs'. lookup fs p \<noteq> None \<or> R p)"

lemma new_within_iff:
  "new_within fs fs' R \<longleftrightarrow> (\<forall>p. lookup fs' p \<noteq> None \<longrightarrow> lookup fs p \<noteq> None \<or> R p)"
proof
  assume h: "new_within fs fs' R"
  show "\<forall>p. lookup fs' p \<noteq> None \<longrightarrow> lookup fs p \<noteq> None \<or> R p"
  proof (intro allI impI)
    fix p assume "lookup fs' p \<noteq> None"
    then show "lookup fs p \<noteq> None \<or> R p"
      using h by (cases "p = []") (auto simp: new_within_def lookup_def dest!: map_of_SomeD)
  qed
next
  assume h: "\<forall>p. lookup fs' p \<noteq> None \<longrightarrow> lookup fs p \<noteq> None \<or> R p"
  have "lookup fs' p \<noteq> None" if "(p, n) \<in> set fs'" for p n
    using that by (cases "p = []") (auto simp: lookup_def dest: weak_map_of_SomeI)
  then show "new_within fs fs' R"
    using h unfolding new_within_def by blast
qed

lemma new_within_refl: "new_within fs fs R"
  by (simp add: new_within_iff)

lemma new_within_filter: "new_within fs fs' R \<Longrightarrow> new_within fs (filter (\<lambda>(p, n). P p) fs') R"
  by (simp add: new_within_def)

lemma new_within_trans:
  "new_within fs1 fs2 R \<Longrightarrow> new_within fs2 fs3 R \<Longrightarrow> new_within fs1 fs3 R"
  unfolding new_within_iff by blast

lemma new_within_mono:
  "new_within fs fs' R \<Longrightarrow> (\<And>p. R p \<Longrightarrow> R' p) \<Longrightarrow> new_within fs fs' R'"
  by (auto simp: new_within_iff)

subsection \<open>Resolution read backwards\<close>

lemma walk_snoc_inv:
  "walk fs cur (cs @ [n]) = Inr r \<Longrightarrow> cs \<noteq> [] \<Longrightarrow>
   \<exists>q. walk fs cur cs = Inr q \<and> lookup fs q = Some Dir \<and> r = comp_step q n"
proof (induction fs cur cs rule: walk.induct)
  case (2 fs cur c)
  then show ?case by (auto simp: Let_def split: option.splits node.splits)
next
  case (3 fs cur c c' cs)
  then show ?case by (auto simp: Let_def split: option.splits node.splits)
qed simp

lemma resolve_child_inv:
  assumes "resolve fs (d @ sep # n) = Inr r" and "valid_name n"
  shows "\<exists>q. resolve fs d = Inr q \<and> lookup fs q = Some Dir \<and> r = q @ [n]"
proof -
  have "sep \<notin> set n" and "n \<noteq> []" "n \<noteq> ''.''" "n \<noteq> ''..''"
    using assms(2) by (auto simp: valid_name_def)
  then show ?thesis
    using walk_snoc_inv [of fs "[]" "split_sep d" n r] assms(1) split_sep_nonempty [of d]
    by (simp add: resolve_def split_sep_append comp_step_def)
qed

end
