(* ===== verification/DateTime.thy ===== *)
theory DateTime
  imports PyValue
begin

text \<open>
  The handler reads the clock with \<open>datetime.now()\<close> to name its scratch files
  (\<open>strftime('%Y%m%d_%H%M%S')\<close>), to time the job (\<open>(now - start).total_seconds()\<close>)
  and to stamp the response (\<open>isoformat()\<close>).  A reading is modelled as the naive
  local time in microseconds since 1970-01-01 00:00; the calendar fields come from
  the proleptic Gregorian civil-from-days computation, which gives the same dates
  as \<open>datetime\<close>'s ordinal conversion.  Elapsed time is kept in microseconds
  (\<open>total_seconds()\<close> is that number divided by \<open>10^6\<close>; the rounding to a float
  is not modelled).
\<close>

type_synonym timestamp = int

definition civil_from_days :: "int \<Rightarrow> int \<times> int \<times> int" where
  "civil_from_days days =
     (let z = days + 719468;
          era = z div 146097;
          doe = z - era * 146097;
          yoe = (doe - doe div 1460 + doe div 36524 - doe div 146096) div 365;
          doy = doe - (365 * yoe + yoe div 4 - yoe div 100);
          mp = (5 * doy + 2) div 153;
          d = doy - (153 * mp + 2) div 5 + 1;
          m = (if mp < 10 then mp + 3 else mp - 9);
          y = yoe + era * 400 + (if m \<le> 2 then 1 else 0)
      in (y, m, d))"

record dt_fields =
  dt_year :: int
  dt_month :: int
  dt_day :: int
  dt_hour :: int
  dt_minute :: int
  dt_second :: int
  dt_micro :: int

definition dt_of_secs :: "int \<Rightarrow> int \<Rightarrow> dt_fields" where
  "dt_of_secs secs micro =
     (let sod = secs mod 86400; (y, m, d) = civil_from_days (secs div 86400)
      in \<lparr>dt_year = y, dt_month = m, dt_day = d, dt_hour = sod div 3600,
          dt_minute = sod mod 3600 div 60, dt_second = sod mod 60, dt_micro = micro\<rparr>)"

definition dt_of :: "timestamp \<Rightarrow> dt_fields" where
  "dt_of t = dt_of_secs (t div 1000000) (t mod 1000000)"

text \<open>\<open>'%0Nd' % i\<close> for a non-negative \<open>i\<close>.\<close>

definition zpad :: "nat \<Rightarrow> int \<Rightarrow> string" where
  "zpad n i = (let s = int_str i in replicate (n - length s) CHR ''0'' @ s)"

text \<open>\<open>strftime('%Y%m%d_%H%M%S')\<close>.\<close>

definition strftime_compact :: "timestamp \<Rightarrow> string" where
  "strftime_compact t =
     (let f = dt_of t
      in zpad 4 (dt_year f) @ zpad 2 (dt_month f) @ zpad 2 (dt_day f) @ ''_'' @
         zpad 2 (dt_hour f) @ zpad 2 (dt_minute f) @ zpad 2 (dt_second f))"

text \<open>\<open>isoformat()\<close>: the microseconds are printed only when they are not zero.\<close>

definition isoformat :: "timestamp \<Rightarrow> string" where
  "isoformat t =
     (let f = dt_of t
      in zpad 4 (dt_year f) @ ''-'' @ zpad 2 (dt_month f) @ ''-'' @ zpad 2 (dt_day f) @ ''T'' @
         zpad 2 (dt_hour f) @ '':'' @ zpad 2 (dt_minute f) @ '':'' @ zpad 2 (dt_second f) @
         (if dt_micro f = 0 then [] else ''.'' @ zpad 6 (dt_micro f)))"

text \<open>\<open>(b - a).total_seconds()\<close>, in microseconds.\<close>

definition elapsed_us :: "timestamp \<Rightarrow> timestamp \<Rightarrow> int" where
  "elapsed_us a b = b - a"

subsection \<open>Facts\<close>

text \<open>The file-name stamp only sees the second: two readings within the same second
  give the same stamp.\<close>

lemma strftime_compact_second:
  "t1 div 1000000 = t2 div 1000000 \<Longrightarrow> strftime_compact t1 = strftime_compact t2"
proof -
  have fields: "dt_of_secs s m = (dt_of_secs s 0)\<lparr>dt_micro := m\<rparr>" for s m
    by (simp add: dt_of_secs_def Let_def case_prod_beta)
  assume "t1 div 1000000 = t2 div 1000000"
  then show ?thesis
    by (simp add: strftime_compact_def dt_of_def fields [of _ "t1 mod 1000000"]
        fields [of _ "t2 mod 1000000"] del: dt_fields.update_convs)
qed

text \<open>A stamp is made of digits, \<open>-\<close> and \<open>_\<close>: it has no path separator, so a file name
  built from it is one component, and no glob wildcard.\<close>

lemma strftime_compact_chars: "set (strftime_compact t) \<subseteq> set ''-0123456789_''"
proof -
  have z: "set (zpad n i) \<subseteq> set ''-0123456789_''" for n i
  proof -
    have "set (int_str i) \<subseteq> set ''-0123456789_''"
      by (rule subset_trans [OF int_str_chars]) simp
    moreover have "set (replicate k CHR ''0'') \<subseteq> set ''-0123456789_''" for k
      by (simp add: set_replicate_conv_if)
    ultimately show ?thesis
      by (simp only: zpad_def Let_def set_append Un_subset_iff)
  qed
  show ?thesis
    unfolding strftime_compact_def Let_def
    by (simp only: set_append Un_subset_iff z) simp
qed

lemma strftime_compact_no_slash: "CHR ''/'' \<notin> set (strftime_compact t)"
  using strftime_compact_chars [of t] by auto

end
