(* ===== verification/World.thy ===== *)
theory World
  imports FileSystem DateTime
begin

text \<open>
  The state the pipeline of src/handler.py works on, shared by its components.  The
  worker's state is the \<open>world\<close>: the file system, the clock that
  \<open>datetime.now()\<close> reads (one reading per call, in order), and the log of the
  commands handed to \<open>subprocess.run\<close>.  The separation tool is a parameter
  \<open>tool\<close>: given the command line and the file system it either completes with an
  exit status, its output and the file system it leaves, runs past the timeout (the
  child is killed, whatever it wrote stays), or cannot be started.  Every method of
  the pipeline returns its result or the exception it raises together with the world
  at that point (an \<open>outcome\<close>): an exception does not undo what happened before it.
\<close>

subsection \<open>The processor and the world\<close>

record processor =
  temp_dir :: string
  device :: string

datatype run_result =
    Completed int string string fs
  | Timed_out fs
  | Launch_failed errno

type_synonym tool = "string list \<Rightarrow> fs \<Rightarrow> run_result"

record world =
  wfs :: fs
  clock :: "nat \<Rightarrow> timestamp"
  ticks :: nat
  runs :: "string list list"

type_synonym 'a outcome = "(py_exc + 'a) \<times> world"

definition now :: "world \<Rightarrow> timestamp \<times> world" where
  "now w = (clock w (ticks w), w\<lparr>ticks := Suc (ticks w)\<rparr>)"

text \<open>\<open>subprocess.run(command, capture_output=True, text=True, timeout=300)\<close>.\<close>

definition subprocess_run :: "tool \<Rightarrow> string list \<Rightarrow> nat \<Rightarrow> world \<Rightarrow> (int \<times> string \<times> string) outcome" where
  "subprocess_run tool cmd timeout w =
     (let w1 = w\<lparr>runs := runs w @ [cmd]\<rparr> in
      case tool cmd (wfs w) of
        Completed rc out err fs' \<Rightarrow> (Inr (rc, out, err), w1\<lparr>wfs := fs'\<rparr>)
      | Timed_out fs' \<Rightarrow> (Inl (TimeoutExpired cmd timeout), w1\<lparr>wfs := fs'\<rparr>)
      | Launch_failed e \<Rightarrow> (Inl (os_error e (case cmd of [] \<Rightarrow> [] | c # _ \<Rightarrow> c)), w1))"

subsection \<open>Frames\<close>

text \<open>The contract the separation tool is assumed to keep: started on a well-formed file
  system, it leaves one.  A \<open>frame\<close> step leaves the clock alone and only moves its
  reading forward; \<open>keeps_wf\<close> steps keep the file system well formed.\<close>

definition tool_keeps_wf :: "tool \<Rightarrow> bool" where
  "tool_keeps_wf tool \<longleftrightarrow> (\<forall>c fs. fs_wf fs \<longrightarrow>
     (case tool c fs of Completed _ _ _ fs' \<Rightarrow> fs_wf fs' | Timed_out fs' \<Rightarrow> fs_wf fs' | Launch_failed _ \<Rightarrow> True))"

text \<open>The second contract of the tool: Demucs writes only below the directory it is
  given after \<open>-o\<close> (items 8 and 9 of the command line): every path that is not
  strictly below that directory looks the same afterwards.\<close>

definition agree_outside :: "fpath \<Rightarrow> fs \<Rightarrow> fs \<Rightarrow> bool" where
  "agree_outside qo fs fs' \<longleftrightarrow> (\<forall>p. \<not> strict_prefix qo p \<longrightarrow> lookup fs' p = lookup fs p)"

definition tool_confined :: "tool \<Rightarrow> bool" where
  "tool_confined tool \<longleftrightarrow> (\<forall>c fs d qo. take 2 (drop 7 c) = [''-o'', d] \<longrightarrow> resolve fs d = Inr qo \<longrightarrow>
     lookup fs qo = Some Dir \<longrightarrow>
     (case tool c fs of Completed _ _ _ fs' \<Rightarrow> agree_outside qo fs fs' | Timed_out fs' \<Rightarrow> agree_outside qo fs fs'
      | Launch_failed _ \<Rightarrow> True))"

definition frame :: "world \<Rightarrow> world \<Rightarrow> bool" where
  "frame w w' \<longleftrightarrow> clock w' = clock w \<and> ticks w \<le> ticks w'"

definition keeps_wf :: "world \<Rightarrow> world \<Rightarrow> bool" where
  "keeps_wf w w' \<longleftrightarrow> (fs_wf (wfs w) \<longrightarrow> fs_wf (wfs w'))"

subsection \<open>The scratch root\<close>

text \<open>The processor's scratch root is an existing directory, found at \<open>q\<close>, and its
  name is a path that ends in a proper component: the situation of every job after the
  processor has been constructed.\<close>

definition scratch_at :: "fs \<Rightarrow> processor \<Rightarrow> fpath \<Rightarrow> bool" where
  "scratch_at fs proc q \<longleftrightarrow> resolve fs (temp_dir proc) = Inr q \<and> lookup fs q = Some Dir \<and>
     temp_dir proc \<noteq> [] \<and> last (temp_dir proc) \<noteq> sep"

lemma scratch_at_keep:
  "scratch_at fs proc q \<Longrightarrow> (\<And>r. lookup fs r = Some Dir \<Longrightarrow> lookup fs' r = Some Dir) \<Longrightarrow>
   scratch_at fs' proc q"
  using walk_keeps_dirs [of fs fs'] by (auto simp: scratch_at_def resolve_def)

subsection \<open>Frame lemmas\<close>

lemma frame_refl [intro]: "frame w w"
  by (simp add: frame_def)

lemma frame_trans: "frame w1 w2 \<Longrightarrow> frame w2 w3 \<Longrightarrow> frame w1 w3"
  by (auto simp: frame_def)

lemma keeps_wf_refl [intro]: "keeps_wf w w"
  by (simp add: keeps_wf_def)

lemma keeps_wf_trans: "keeps_wf w1 w2 \<Longrightarrow> keeps_wf w2 w3 \<Longrightarrow> keeps_wf w1 w3"
  by (auto simp: keeps_wf_def)

lemma frame_now: "now w = (t, w') \<Longrightarrow> frame w w' \<and> keeps_wf w w' \<and> t = clock w (ticks w) \<and> ticks w' = Suc (ticks w)"
  by (auto simp: now_def frame_def keeps_wf_def)

lemma frame_tick: "frame w w1 \<Longrightarrow> frame w (w1\<lparr>ticks := Suc (ticks w1)\<rparr>)"
  by (auto simp: frame_def)

lemma keeps_wf_tick: "keeps_wf w w1 \<Longrightarrow> keeps_wf w (w1\<lparr>ticks := n\<rparr>)"
  by (auto simp: keeps_wf_def)

lemma subprocess_run_frame:
  "subprocess_run tool cmd n w = (r, w') \<Longrightarrow> frame w w'"
  by (cases "tool cmd (wfs w)") (auto simp: subprocess_run_def frame_def Let_def)

lemma subprocess_run_wf:
  assumes keep: "tool_keeps_wf tool" and run: "subprocess_run tool cmd n w = (r, w')"
  shows "keeps_wf w w'"
proof -
  have k: "fs_wf (wfs w) \<Longrightarrow> (case tool cmd (wfs w) of Completed _ _ _ fs' \<Rightarrow> fs_wf fs'
             | Timed_out fs' \<Rightarrow> fs_wf fs' | Launch_failed _ \<Rightarrow> True)"
    using keep unfolding tool_keeps_wf_def by blast
  show ?thesis
    using run k by (cases "tool cmd (wfs w)") (auto simp: subprocess_run_def keeps_wf_def Let_def)
qed

end
