(* ===== verification/Base64.thy ===== *)
theory Base64
  imports PyValue
begin

text \<open>
  The payload codec's transport encoding: Python's \<open>base64.b64encode\<close> and
  \<open>base64.b64decode\<close>, which \<open>encode_audio_file\<close> and \<open>decode_audio_file\<close>
  (src/handler.py) call.  Encoding is CPython's \<open>binascii.b2a_base64\<close> with
  \<open>newline=False\<close>, three bytes to four characters with \<open>=\<close> padding.  Decoding
  is \<open>binascii.a2b_base64\<close> in its non-strict mode (\<open>validate=False\<close>, the
  default): a state machine over the input characters that keeps the position in the
  current quad, the pending bits and the number of pad characters, skips every
  character outside the alphabet, and stops at the first complete pad sequence.
  The main results are the round trip (decoding an encoding gives the bytes back),
  the shape of an encoding, and that characters outside the alphabet are ignored.
\<close>

unbundle bit_operations_syntax

subsection \<open>The alphabet\<close>

definition b64_alphabet :: string where
  "b64_alphabet = ''ABCDEFGHIJKLMNOPQRSTUVWXYZabcdefghijklmnopqrstuvwxyz0123456789+/''"

text \<open>\<open>table_b2a_base64[v & 0x3f]\<close>.\<close>

definition b64_char :: "byte \<Rightarrow> char" where
  "b64_char v = b64_alphabet ! unat (v AND 63)"

text \<open>\<open>table_a2b_base64\<close>: the six-bit value of an alphabet character, \<open>None\<close> for
  the entries that hold the invalid marker.\<close>

definition b64_val :: "char \<Rightarrow> byte option" where
  "b64_val c =
     (let n = of_char c :: nat in
      if 65 \<le> n \<and> n \<le> 90 then Some (of_nat (n - 65))
      else if 97 \<le> n \<and> n \<le> 122 then Some (of_nat (n - 71))
      else if 48 \<le> n \<and> n \<le> 57 then Some (of_nat (n + 4))
      else if n = 43 then Some 62
      else if n = 47 then Some 63
      else None)"

definition b64_pad :: char where
  "b64_pad = CHR ''=''"

subsection \<open>Encoding\<close>

fun b2a_base64 :: "bytes \<Rightarrow> string" where
  "b2a_base64 (a # b # c # rest) =
     [b64_char (drop_bit 2 a), b64_char (push_bit 4 (a AND 3) OR drop_bit 4 b),
      b64_char (push_bit 2 (b AND 15) OR drop_bit 6 c), b64_char c] @ b2a_base64 rest"
| "b2a_base64 [a, b] =
     [b64_char (drop_bit 2 a), b64_char (push_bit 4 (a AND 3) OR drop_bit 4 b),
      b64_char (push_bit 2 (b AND 15)), b64_pad]"
| "b2a_base64 [a] =
     [b64_char (drop_bit 2 a), b64_char (push_bit 4 (a AND 3)), b64_pad, b64_pad]"
| "b2a_base64 [] = []"

text \<open>\<open>base64.b64encode(s)\<close>; the handler then applies \<open>.decode('utf-8')\<close>, which is
  the identity on the ASCII result.\<close>

definition b64encode :: "bytes \<Rightarrow> string" where
  "b64encode bs = b2a_base64 bs"

subsection \<open>Decoding\<close>

record a2b_state =
  quad_pos :: nat
  leftchar :: byte
  pads :: nat
  decoded :: bytes

definition a2b_init :: a2b_state where
  "a2b_init = \<lparr>quad_pos = 0, leftchar = 0, pads = 0, decoded = []\<rparr>"

text \<open>One data character of value \<open>v\<close>: the \<open>switch (quad_pos)\<close> of \<open>a2b_base64\<close>,
  after \<open>pads = 0\<close>.\<close>

definition a2b_data :: "a2b_state \<Rightarrow> byte \<Rightarrow> a2b_state" where
  "a2b_data st v =
     (case quad_pos st of
        0 \<Rightarrow> st\<lparr>quad_pos := 1, leftchar := v, pads := 0\<rparr>
      | Suc 0 \<Rightarrow> st\<lparr>quad_pos := 2, leftchar := v AND 15, pads := 0,
                   decoded := decoded st @ [push_bit 2 (leftchar st) OR drop_bit 4 v]\<rparr>
      | Suc (Suc 0) \<Rightarrow> st\<lparr>quad_pos := 3, leftchar := v AND 3, pads := 0,
                   decoded := decoded st @ [push_bit 4 (leftchar st) OR drop_bit 2 v]\<rparr>
      | _ \<Rightarrow> st\<lparr>quad_pos := 0, leftchar := 0, pads := 0,
                   decoded := decoded st @ [push_bit 6 (leftchar st) OR v]\<rparr>)"

text \<open>
  The loop over the input.  A pad character counts only once two data characters of
  the quad are in (\<open>quad_pos >= 2 && quad_pos + ++pads >= 4\<close>, with C's
  short-circuit); once the quad is complete it ends the loop (\<open>goto done\<close>),
  which the second component \<open>True\<close> records.  Other characters outside the
  alphabet are skipped.
\<close>

fun a2b_loop :: "a2b_state \<Rightarrow> string \<Rightarrow> a2b_state \<times> bool" where
  "a2b_loop st [] = (st, False)"
| "a2b_loop st (c # cs) =
     (if c = b64_pad then
        (if 2 \<le> quad_pos st \<and> 4 \<le> quad_pos st + Suc (pads st)
         then (st\<lparr>pads := Suc (pads st)\<rparr>, True)
         else a2b_loop (if 2 \<le> quad_pos st then st\<lparr>pads := Suc (pads st)\<rparr> else st) cs)
      else (case b64_val c of
              None \<Rightarrow> a2b_loop st cs
            | Some v \<Rightarrow> a2b_loop (a2b_data st v) cs))"

definition a2b_base64 :: "string \<Rightarrow> py_exc + bytes" where
  "a2b_base64 s =
     (case a2b_loop a2b_init s of
        (st, True) \<Rightarrow> Inr (decoded st)
      | (st, False) \<Rightarrow>
          (if quad_pos st = 0 then Inr (decoded st)
           else if quad_pos st = 1 then
             Inl (BinasciiError (''Invalid base64-encoded string: number of data characters ('' @
                    nat_str (length (decoded st) div 3 * 4 + 1) @
                    '') cannot be 1 more than a multiple of 4''))
           else Inl (BinasciiError ''Incorrect padding'')))"

text \<open>\<open>base64.b64decode(s)\<close>: \<open>_bytes_from_decode_data\<close> turns a \<open>str\<close> into ASCII
  bytes (\<open>ValueError\<close> if it is not ASCII) and refuses any other type
  (\<open>TypeError\<close>), then \<open>binascii.a2b_base64(s, strict_mode=False)\<close>.\<close>

definition ascii_only :: "string \<Rightarrow> bool" where
  "ascii_only s \<longleftrightarrow> (\<forall>c \<in> set s. of_char c < (128::nat))"

fun b64decode :: "json \<Rightarrow> py_exc + bytes" where
  "b64decode (JStr s) =
     (if ascii_only s then a2b_base64 s
      else Inl (ValueError ''string argument should contain only ASCII characters''))"
| "b64decode v =
     Inl (TypeError (''argument should be a bytes-like object or ASCII string, not '' @
                     [squote] @ py_type_name v @ [squote]))"

subsection \<open>The tables\<close>

lemma b64_val_alphabet_map: "map b64_val b64_alphabet = map (\<lambda>n. Some (of_nat n)) [0..<64]"
  by code_simp

lemma b64_alphabet_ascii: "list_all (\<lambda>c. of_char c < (128::nat) \<and> c \<noteq> b64_pad) b64_alphabet"
  by (simp add: b64_alphabet_def b64_pad_def)

lemma length_b64_alphabet: "length b64_alphabet = 64"
  by (simp add: b64_alphabet_def)

lemma b64_alphabet_facts:
  assumes "n < 64"
  shows "b64_val (b64_alphabet ! n) = Some (of_nat n) \<and>
         of_char (b64_alphabet ! n) < (128::nat) \<and> b64_alphabet ! n \<noteq> b64_pad"
proof -
  have "map b64_val b64_alphabet ! n = Some (of_nat n)"
    using assms by (simp only: b64_val_alphabet_map) simp
  then have "b64_val (b64_alphabet ! n) = Some (of_nat n)"
    using assms by (simp add: length_b64_alphabet)
  moreover have "b64_alphabet ! n \<in> set b64_alphabet"
    using assms by (simp add: length_b64_alphabet)
  ultimately show ?thesis
    using b64_alphabet_ascii by (simp add: list_all_iff)
qed

lemma b64_val_char [simp]: "b64_val (b64_char v) = Some (v AND 63)"
  using b64_alphabet_facts [OF unat_and_63_less [of v]] by (simp add: b64_char_def)

lemma b64_char_not_pad [simp]: "b64_char v \<noteq> b64_pad"
  using b64_alphabet_facts [OF unat_and_63_less [of v]] by (simp add: b64_char_def)

lemma b64_char_ascii: "of_char (b64_char v) < (128::nat)"
  using b64_alphabet_facts [OF unat_and_63_less [of v]] by (simp add: b64_char_def)

lemma b64_pad_val [simp]: "b64_val b64_pad = None"
  by (simp add: b64_pad_def b64_val_def)

subsection \<open>Decoding an encoding\<close>

text \<open>Each decoded byte joins the bits the encoder spread over two characters.\<close>

lemma dec_byte1:
  "push_bit 2 (drop_bit 2 a AND 63) OR drop_bit 4 ((push_bit 4 (a AND 3) OR drop_bit 4 b) AND 63) = (a::byte)"
  by (rule byte_eqI) (auto simp: bit_simps Suc_small)

lemma dec_byte1_tail:
  "push_bit 2 (drop_bit 2 a AND 63) OR drop_bit 4 (push_bit 4 (a AND 3) AND 63) = (a::byte)"
  by (rule byte_eqI) (auto simp: bit_simps Suc_small)

lemma dec_byte2:
  "push_bit 4 (((push_bit 4 (a AND 3) OR drop_bit 4 b) AND 63) AND 15) OR
   drop_bit 2 ((push_bit 2 (b AND 15) OR drop_bit 6 c) AND 63) = (b::byte)"
  by (rule byte_eqI) (auto simp: bit_simps Suc_small)

lemma dec_byte2_tail:
  "push_bit 4 (((push_bit 4 (a AND 3) OR drop_bit 4 b) AND 63) AND 15) OR
   drop_bit 2 (push_bit 2 (b AND 15) AND 63) = (b::byte)"
  by (rule byte_eqI) (auto simp: bit_simps Suc_small)

lemma dec_byte3:
  "push_bit 6 (((push_bit 2 (b AND 15) OR drop_bit 6 c) AND 63) AND 3) OR (c AND 63) = (c::byte)"
  by (rule byte_eqI) (auto simp: bit_simps Suc_small)

lemmas dec_bytes = dec_byte1 dec_byte1_tail dec_byte2 dec_byte2_tail dec_byte3

lemma a2b_loop_quad:
  assumes "quad_pos st = 0"
  shows "a2b_loop st (b64_char x1 # b64_char x2 # b64_char x3 # b64_char x4 # rest) =
   a2b_loop (st\<lparr>quad_pos := 0, leftchar := 0, pads := 0, decoded := decoded st @
       [push_bit 2 (x1 AND 63) OR drop_bit 4 (x2 AND 63),
        push_bit 4 ((x2 AND 63) AND 15) OR drop_bit 2 (x3 AND 63),
        push_bit 6 ((x3 AND 63) AND 3) OR (x4 AND 63)]\<rparr>) rest"
  using assms by (simp add: a2b_data_def)

lemma a2b_loop_triple:
  assumes "quad_pos st = 0"
  shows "\<exists>st'. a2b_loop st [b64_char x1, b64_char x2, b64_char x3, b64_pad] = (st', True) \<and>
     decoded st' = decoded st @
       [push_bit 2 (x1 AND 63) OR drop_bit 4 (x2 AND 63),
        push_bit 4 ((x2 AND 63) AND 15) OR drop_bit 2 (x3 AND 63)]"
  using assms by (simp add: a2b_data_def)

lemma a2b_loop_pair:
  assumes "quad_pos st = 0"
  shows "\<exists>st'. a2b_loop st [b64_char x1, b64_char x2, b64_pad, b64_pad] = (st', True) \<and>
     decoded st' = decoded st @ [push_bit 2 (x1 AND 63) OR drop_bit 4 (x2 AND 63)]"
  using assms by (simp add: a2b_data_def)

lemma a2b_loop_b2a:
  "quad_pos st = 0 \<Longrightarrow>
   \<exists>st' stop. a2b_loop st (b2a_base64 bs) = (st', stop) \<and> decoded st' = decoded st @ bs \<and>
              (stop \<or> quad_pos st' = 0)"
proof (induction bs arbitrary: st rule: b2a_base64.induct)
  case (1 a b c rest)
  let ?st1 = "st\<lparr>quad_pos := 0, leftchar := 0, pads := 0, decoded := decoded st @ [a, b, c]\<rparr>"
  have step: "a2b_loop st (b2a_base64 (a # b # c # rest)) = a2b_loop ?st1 (b2a_base64 rest)"
    using a2b_loop_quad [OF "1.prems", of "drop_bit 2 a" "push_bit 4 (a AND 3) OR drop_bit 4 b"
        "push_bit 2 (b AND 15) OR drop_bit 6 c" c "b2a_base64 rest", unfolded dec_bytes]
    by (simp only: b2a_base64.simps append_Cons append_Nil)
  have "quad_pos ?st1 = 0" by simp
  then obtain st' stop where run: "a2b_loop ?st1 (b2a_base64 rest) = (st', stop)"
      and dec: "decoded st' = decoded ?st1 @ rest" and fin: "stop \<or> quad_pos st' = 0"
    using "1.IH" by blast
  have "decoded st' = decoded st @ a # b # c # rest"
    using dec by simp
  with step run fin show ?case by auto
next
  case (2 a b)
  obtain st' where "a2b_loop st (b2a_base64 [a, b]) = (st', True)" "decoded st' = decoded st @ [a, b]"
    using a2b_loop_triple [OF "2.prems", of "drop_bit 2 a" "push_bit 4 (a AND 3) OR drop_bit 4 b"
        "push_bit 2 (b AND 15)", unfolded dec_bytes]
    unfolding b2a_base64.simps by blast
  then show ?case by blast
next
  case (3 a)
  obtain st' where "a2b_loop st (b2a_base64 [a]) = (st', True)" "decoded st' = decoded st @ [a]"
    using a2b_loop_pair [OF "3.prems", of "drop_bit 2 a" "push_bit 4 (a AND 3)", unfolded dec_bytes]
    unfolding b2a_base64.simps by blast
  then show ?case by blast
next
  case 4
  then show ?case by auto
qed

subsection \<open>Shape of an encoding\<close>

lemma ascii_b2a: "ascii_only (b2a_base64 bs)"
  by (induction bs rule: b2a_base64.induct) (auto simp: ascii_only_def b64_char_ascii b64_pad_def)

lemma a2b_loop_skip:
  assumes "b64_val c = None" and "c \<noteq> b64_pad"
  shows "a2b_loop st (xs @ c # ys) = a2b_loop st (xs @ ys)"
  using assms by (induction st xs rule: a2b_loop.induct) (auto split: option.splits)

lemma a2b_loop_junk:
  "\<forall>c \<in> set s. b64_val c = None \<and> c \<noteq> b64_pad \<Longrightarrow> a2b_loop st s = (st, False)"
  by (induction s) auto

lemma length_b2a_base64: "length (b2a_base64 bs) = 4 * ((length bs + 2) div 3)"
  by (induction bs rule: b2a_base64.induct) (auto, presburger)

lemma set_b2a_base64: "set (b2a_base64 bs) \<subseteq> insert b64_pad (set b64_alphabet)"
  by (induction bs rule: b2a_base64.induct) (auto simp: b64_char_def length_b64_alphabet unat_and_63_less)

lemma a2b_base64_b2a: "a2b_base64 (b2a_base64 bs) = Inr bs"
proof -
  obtain st' stop where run: "a2b_loop a2b_init (b2a_base64 bs) = (st', stop)"
      and dec: "decoded st' = bs" and fin: "stop \<or> quad_pos st' = 0"
    using a2b_loop_b2a [of a2b_init bs] by (auto simp: a2b_init_def)
  then show ?thesis by (cases stop) (auto simp: a2b_base64_def)
qed

lemma ascii_only_skip:
  "of_char c < (128::nat) \<Longrightarrow> ascii_only (xs @ c # ys) = ascii_only (xs @ ys)"
  by (auto simp: ascii_only_def)

subsection \<open>Round trip and leniency\<close>

text \<open>Decoding the text \<open>b64encode\<close> produces gives back the encoded bytes.\<close>

lemma b64decode_b64encode: "b64decode (JStr (b64encode bs)) = Inr bs"
  by (simp add: b64encode_def ascii_b2a a2b_base64_b2a)

lemma b64encode_nonempty: "bs \<noteq> [] \<Longrightarrow> b64encode bs \<noteq> []"
proof -
  assume "bs \<noteq> []"
  then have "3 div 3 \<le> (length bs + 2) div 3"
    by (intro div_le_mono) (cases bs, simp_all)
  then show ?thesis
    using length_b2a_base64 [of bs] by (auto simp: b64encode_def)
qed

text \<open>C15: \<open>base64.b64decode\<close> (non-strict, as the handler calls it) skips every ASCII
  character outside the alphabet and the pad: inserting one anywhere does not change
  the result.  So a payload that is not base64 at all, such as \<open>"!"\<close>, decodes to the
  empty byte string instead of failing.\<close>

theorem b64decode_ignores_junk:
  assumes "b64_val c = None" and "c \<noteq> b64_pad" and "of_char c < (128::nat)"
  shows "b64decode (JStr (xs @ c # ys)) = b64decode (JStr (xs @ ys))"
  using assms by (simp add: ascii_only_skip a2b_base64_def a2b_loop_skip)

theorem b64decode_ignores_junk_witness:
  "b64decode (JStr ''!'') = Inr []"
proof -
  have "b64_val CHR ''!'' = None" "CHR ''!'' \<noteq> b64_pad" "of_char CHR ''!'' < (128::nat)"
    by code_simp+
  then show ?thesis
    using b64decode_ignores_junk [of "CHR ''!''" "[]" "[]"]
    by (simp add: a2b_base64_def a2b_init_def ascii_only_def)
qed

end
