(* ===== verification/Codec.thy ===== *)
theory Codec
  imports World Base64
begin

text \<open>
  The payload codec of src/handler.py: \<open>decode_audio_file\<close> turns the job's base64
  text into a scratch file named from the clock and the job's file name, and
  \<open>encode_audio_file\<close> turns a file back into base64 text.
\<close>

subsection \<open>Payload codec\<close>

text \<open>\<open>os.path.join(self.temp_dir, f"input_{datetime.now().strftime('%Y%m%d_%H%M%S')}_{filename}")\<close>.\<close>

definition input_name :: "timestamp \<Rightarrow> json \<Rightarrow> string" where
  "input_name t filename = ''input_'' @ strftime_compact t @ ''_'' @ py_str filename"

definition input_file_path :: "processor \<Rightarrow> timestamp \<Rightarrow> json \<Rightarrow> string" where
  "input_file_path proc t filename = path_join (temp_dir proc) [input_name t filename]"

definition decode_audio_file :: "processor \<Rightarrow> json \<Rightarrow> json \<Rightarrow> world \<Rightarrow> string outcome" where
  "decode_audio_file proc audio_base64 filename w =
     (let (t, w1) = now w;
          file_path = input_file_path proc t filename
      in case b64decode audio_base64 of
           Inl e \<Rightarrow> (Inl e, w1)
         | Inr audio_data \<Rightarrow>
             (case os_write_file (wfs w1) file_path audio_data of
                Inl e \<Rightarrow> (Inl e, w1)
              | Inr fs' \<Rightarrow> (Inr file_path, w1\<lparr>wfs := fs'\<rparr>)))"

definition encode_audio_file :: "string \<Rightarrow> world \<Rightarrow> string outcome" where
  "encode_audio_file file_path w =
     (case os_read_file (wfs w) file_path of
        Inl e \<Rightarrow> (Inl e, w)
      | Inr audio_data \<Rightarrow> (Inr (b64encode audio_data), w))"

subsection \<open>Facts\<close>

lemma input_name_valid: "sep \<notin> set name \<Longrightarrow> valid_name (input_name t (JStr name))"
  by (auto simp: input_name_def valid_name_def sep_def strftime_compact_no_slash)

lemma input_file_path_child:
  "temp_dir proc \<noteq> [] \<Longrightarrow> last (temp_dir proc) \<noteq> sep \<Longrightarrow> sep \<notin> set name \<Longrightarrow>
   input_file_path proc t (JStr name) = temp_dir proc @ sep # input_name t (JStr name)"
  by (simp add: input_file_path_def path_join_child input_name_valid del: path_join.simps)

text \<open>\<open>decode_audio_file\<close> with a plain file name in an existing scratch root: the
  base64 error, or the decoded bytes stored at \<open>input_<stamp>_<name>\<close>.\<close>

lemma decode_audio_file_child:
  assumes "scratch_at (wfs w) proc q" and "sep \<notin> set name"
    and "lookup (wfs w) (q @ [input_name (clock w (ticks w)) (JStr name)]) \<noteq> Some Dir"
  shows "decode_audio_file proc a (JStr name) w =
    (case b64decode a of
       Inl e \<Rightarrow> (Inl e, w\<lparr>ticks := Suc (ticks w)\<rparr>)
     | Inr bs \<Rightarrow> (Inr (input_file_path proc (clock w (ticks w)) (JStr name)),
                 w\<lparr>ticks := Suc (ticks w),
                   wfs := fs_put (wfs w) (q @ [input_name (clock w (ticks w)) (JStr name)]) (File bs)\<rparr>))"
proof -
  let ?n = "input_name (clock w (ticks w)) (JStr name)"
  have v: "valid_name ?n" using assms(2) by (rule input_name_valid)
  have p: "input_file_path proc (clock w (ticks w)) (JStr name) = temp_dir proc @ sep # ?n"
    using assms(1,2) by (simp add: scratch_at_def input_file_path_child)
  have "resolve (wfs w) (input_file_path proc (clock w (ticks w)) (JStr name)) = Inr (q @ [?n])"
    using assms(1) resolve_child [OF _ _ v] p by (simp add: scratch_at_def)
  then have "os_write_file (wfs w) (input_file_path proc (clock w (ticks w)) (JStr name)) bs =
      Inr (fs_put (wfs w) (q @ [?n]) (File bs))" for bs
    using assms(3) by (simp add: os_write_file_def split: option.split node.split)
  then show ?thesis
    by (simp add: decode_audio_file_def now_def split: sum.split)
qed

lemma input_name_split:
  "input_name t (JStr (n1 @ sep # rest)) = input_name t (JStr n1) @ sep # rest"
  by (simp add: input_name_def)

subsection \<open>Frames of the codec\<close>

lemma decode_audio_file_world:
  "decode_audio_file proc a fn w = (r, w') \<Longrightarrow>
   w' = w\<lparr>ticks := Suc (ticks w)\<rparr> \<or>
   (\<exists>p bs fs'. os_write_file (wfs w) p bs = Inr fs' \<and> w' = w\<lparr>ticks := Suc (ticks w), wfs := fs'\<rparr>)"
  by (auto simp: decode_audio_file_def now_def Let_def split: sum.splits)

lemma decode_audio_file_frame:
  "decode_audio_file proc a fn w = (r, w') \<Longrightarrow> frame w w' \<and> keeps_wf w w'"
proof -
  assume "decode_audio_file proc a fn w = (r, w')"
  then consider "w' = w\<lparr>ticks := Suc (ticks w)\<rparr>"
    | p bs fs' where "os_write_file (wfs w) p bs = Inr fs'" "w' = w\<lparr>ticks := Suc (ticks w), wfs := fs'\<rparr>"
    using decode_audio_file_world by blast
  then show ?thesis
  proof cases
    case 1
    then show ?thesis by (simp add: frame_def keeps_wf_def)
  next
    case (2 p bs fs')
    then show ?thesis using os_write_file_wf [OF _ 2(1)] by (simp add: frame_def keeps_wf_def)
  qed
qed

lemma encode_audio_file_frame:
  "encode_audio_file p w = (r, w') \<Longrightarrow> w' = w"
  by (cases "os_read_file (wfs w) p") (simp_all add: encode_audio_file_def)

text \<open>C4: when the scratch directory exists and the job's file name is a plain name, the
  payload is written to \<open>input_<stamp>_<name>\<close> in the scratch directory, and
  \<open>encode_audio_file\<close> on that path returns exactly the base64 text of the payload:
  the codec round trip of the handler.\<close>

theorem decode_encode_roundtrip:
  assumes dir: "os_path_isdir (wfs w) (temp_dir proc)"
    and tmp: "temp_dir proc \<noteq> []" "last (temp_dir proc) \<noteq> sep"
    and name: "sep \<notin> set name"
    and free: "\<not> os_path_isdir (wfs w) (input_file_path proc (clock w (ticks w)) (JStr name))"
  shows "\<exists>w'. decode_audio_file proc (JStr (b64encode bs)) (JStr name) w =
               (Inr (input_file_path proc (clock w (ticks w)) (JStr name)), w') \<and>
             encode_audio_file (input_file_path proc (clock w (ticks w)) (JStr name)) w' =
               (Inr (b64encode bs), w')"
proof -
  let ?t = "clock w (ticks w)"
  let ?p = "input_file_path proc ?t (JStr name)"
  obtain q where q: "resolve (wfs w) (temp_dir proc) = Inr q" "lookup (wfs w) q = Some Dir"
    using isdir_resolve [OF dir] by blast
  have "resolve (wfs w) ?p = Inr (q @ [input_name ?t (JStr name)])"
    using resolve_child [OF q input_name_valid [OF name]] input_file_path_child [OF tmp name] by simp
  then have wr: "os_write_file (wfs w) ?p bs = Inr (fs_put (wfs w) (q @ [input_name ?t (JStr name)]) (File bs))"
    using os_write_file_ok free by blast
  show ?thesis
    using os_read_write_file [OF wr] wr
    by (simp add: decode_audio_file_def now_def b64decode_b64encode encode_audio_file_def Let_def del: b64decode.simps)
qed

theorem decode_encode_roundtrip_witness:
  "\<exists>w'. decode_audio_file \<lparr>temp_dir = ''/tmp/vocal_removal'', device = ''cpu''\<rparr>
          (JStr (b64encode [1, 2, 3])) (JStr ''song.wav'')
          \<lparr>wfs = [([''tmp''], Dir), ([''tmp'', ''vocal_removal''], Dir)], clock = (\<lambda>_. 0), ticks = 0, runs = []\<rparr> =
        (Inr (input_file_path \<lparr>temp_dir = ''/tmp/vocal_removal'', device = ''cpu''\<rparr> 0 (JStr ''song.wav'')), w') \<and>
        encode_audio_file (input_file_path \<lparr>temp_dir = ''/tmp/vocal_removal'', device = ''cpu''\<rparr> 0 (JStr ''song.wav'')) w' =
          (Inr (b64encode [1, 2, 3]), w')"
proof -
  have free: "\<not> os_path_isdir [([''tmp''], Dir), ([''tmp'', ''vocal_removal''], Dir)]
      (input_file_path \<lparr>temp_dir = ''/tmp/vocal_removal'', device = ''cpu''\<rparr> 0 (JStr ''song.wav''))"
    by code_simp
  have dir: "os_path_isdir [([''tmp''], Dir), ([''tmp'', ''vocal_removal''], Dir)] ''/tmp/vocal_removal''"
    by code_simp
  show ?thesis
    using decode_encode_roundtrip [of "\<lparr>wfs = [([''tmp''], Dir), ([''tmp'', ''vocal_removal''], Dir)], clock = (\<lambda>_. 0), ticks = 0, runs = []\<rparr>"
      "\<lparr>temp_dir = ''/tmp/vocal_removal'', device = ''cpu''\<rparr>" "''song.wav''" "[1, 2, 3]"] free dir
    by (simp add: sep_def)
qed

subsection \<open>File names with a separator\<close>

text \<open>C7: the file name is pasted into the scratch path unchecked, but a name with a
  separator cannot make \<open>decode_audio_file\<close> write outside the scratch root: the path
  then goes on below \<open>input_<stamp>_<first part>\<close>, and unless that names an existing
  directory, the call raises and leaves the file system as it was.\<close>

theorem decode_audio_file_confined:
  assumes sc: "scratch_at (wfs w) proc q" and name: "name = n1 @ sep # rest" and n1: "sep \<notin> set n1"
    and nd: "lookup (wfs w) (q @ [input_name (clock w (ticks w)) (JStr n1)]) \<noteq> Some Dir"
  shows "\<exists>e. decode_audio_file proc a (JStr name) w = (Inl e, w\<lparr>ticks := Suc (ticks w)\<rparr>)"
proof -
  let ?n = "input_name (clock w (ticks w)) (JStr n1)"
  let ?p = "input_file_path proc (clock w (ticks w)) (JStr name)"
  have tmp: "temp_dir proc \<noteq> []" "last (temp_dir proc) \<noteq> sep" "resolve (wfs w) (temp_dir proc) = Inr q"
      "lookup (wfs w) q = Some Dir"
    using sc by (simp_all add: scratch_at_def)
  have "take 1 (input_name (clock w (ticks w)) (JStr name)) \<noteq> [sep]"
    by (simp add: input_name_def sep_def)
  then have "?p = temp_dir proc @ sep # ?n @ sep # rest"
    using tmp(1,2) by (simp add: input_file_path_def name input_name_split)
  then obtain e where "resolve (wfs w) ?p = Inl e"
    using resolve_below_missing [OF tmp(3,4) input_name_valid [OF n1] nd] by auto
  then have "os_write_file (wfs w) ?p bs = Inl (os_error e ?p)" for bs
    by (simp add: os_write_file_def)
  then show ?thesis
    by (simp add: decode_audio_file_def now_def Let_def split: sum.split)
qed

theorem decode_audio_file_confined_witness:
  "\<exists>e. decode_audio_file \<lparr>temp_dir = ''/tmp/vocal_removal'', device = ''cpu''\<rparr> (JStr ''AAAA'')
     (JStr ''../../etc/cron.d/job'') \<lparr>wfs = [([''tmp''], Dir), ([''tmp'', ''vocal_removal''], Dir)], clock = (\<lambda>_. 0), ticks = 0, runs = []\<rparr> =
   (Inl e, \<lparr>wfs = [([''tmp''], Dir), ([''tmp'', ''vocal_removal''], Dir)], clock = (\<lambda>_. 0), ticks = 1, runs = []\<rparr>)"
proof -
  have h: "scratch_at [([''tmp''], Dir), ([''tmp'', ''vocal_removal''], Dir)] \<lparr>temp_dir = ''/tmp/vocal_removal'', device = ''cpu''\<rparr>
      [''tmp'', ''vocal_removal'']"
    "''../../etc/cron.d/job'' = ''..'' @ sep # ''../etc/cron.d/job''" "sep \<notin> set ''..''"
    "lookup [([''tmp''], Dir), ([''tmp'', ''vocal_removal''], Dir)] ([''tmp'', ''vocal_removal''] @ [input_name 0 (JStr ''..'')]) \<noteq> Some Dir"
    by code_simp+
  show ?thesis
    using decode_audio_file_confined [of "\<lparr>wfs = [([''tmp''], Dir), ([''tmp'', ''vocal_removal''], Dir)], clock = (\<lambda>_. 0), ticks = 0, runs = []\<rparr>"
        "\<lparr>temp_dir = ''/tmp/vocal_removal'', device = ''cpu''\<rparr>" "[''tmp'', ''vocal_removal'']" "''../../etc/cron.d/job''" "''..''"
        "''../etc/cron.d/job''" "JStr ''AAAA''"] h
    by simp
qed

end
