(* ===== verification/Glob.thy ===== *)
theory Glob
  imports FileSystem
begin

text \<open>
  Output discovery in \<open>remove_vocals_serverless\<close> (src/handler.py) calls
  \<open>glob.glob(pattern)\<close> and \<open>glob.glob(pattern, recursive=True)\<close>.  This theory
  transcribes CPython's \<open>glob._iglob\<close> with \<open>_glob0\<close>, \<open>_glob1\<close>, \<open>_glob2\<close>,
  \<open>_rlistdir\<close> and \<open>fnmatch\<close> (wildcards \<open>*\<close>, \<open>?\<close> and bracket classes with
  \<open>!\<close> negation and ranges) over the file-system model.  A directory listing returns
  entries in the store's order, which is the order the results come out in;
  hidden entries (names starting with a dot) are skipped unless the pattern
  itself starts with a dot.  Directory names are the ones the kernel resolves, so
  a name containing a wildcard character is matched as a pattern, not literally.
\<close>

subsection \<open>fnmatch\<close>

datatype pat_tok = PStar | PAny | PClass bool "(char \<times> char) list" | PLit char

text \<open>The items of a bracket class: \<open>a-z\<close> is a range when a character follows the
  hyphen, otherwise characters stand for themselves.  A reversed range matches no
  character (\<open>fnmatch.translate\<close> drops it).\<close>

fun class_items :: "string \<Rightarrow> (char \<times> char) list" where
  "class_items (a # h # b # rest) =
     (if h = CHR ''-'' then (a, b) # class_items rest else (a, a) # class_items (h # b # rest))"
| "class_items [a, h] = [(a, a), (h, h)]"
| "class_items [a] = [(a, a)]"
| "class_items [] = []"

definition in_class :: "(char \<times> char) list \<Rightarrow> char \<Rightarrow> bool" where
  "in_class items c \<longleftrightarrow> (\<exists>(lo, hi) \<in> set items. of_char lo \<le> (of_char c :: nat) \<and> of_char c \<le> (of_char hi :: nat))"

definition class_tok :: "string \<Rightarrow> pat_tok" where
  "class_tok stuff =
     (if stuff = ''!'' then PAny
      else if take 1 stuff = ''!'' then PClass True (class_items (drop 1 stuff))
      else PClass False (class_items stuff))"

text \<open>\<open>fnmatch.translate\<close>: after \<open>[\<close> an optional \<open>!\<close> and a first \<open>]\<close> belong to
  the class, which ends at the next \<open>]\<close>; without a closing bracket \<open>[\<close> is an
  ordinary character.  A class holding only \<open>!\<close> matches any character.\<close>

function translate :: "string \<Rightarrow> pat_tok list" where
  "translate [] = []"
| "translate (c # cs) =
     (if c = CHR ''*'' then PStar # translate cs
      else if c = CHR ''?'' then PAny # translate cs
      else if c = CHR ''['' then
        (let k1 = (if take 1 cs = ''!'' then 1 else 0);
             k2 = k1 + (if take 1 (drop k1 cs) = '']'' then 1 else 0);
             j = k2 + length (takeWhile (\<lambda>x. x \<noteq> CHR '']'') (drop k2 cs))
         in if length cs \<le> j then PLit c # translate cs
            else class_tok (take j cs) # translate (drop (Suc j) cs))
      else PLit c # translate cs)"
  by pat_completeness auto
termination
  by (relation "measure length") auto

text \<open>The compiled pattern must match the whole name; \<open>.\<close> matches any character.\<close>

fun tok_match :: "pat_tok list \<Rightarrow> string \<Rightarrow> bool" where
  "tok_match [] s = (s = [])"
| "tok_match (PStar # ts) s =
     (tok_match ts s \<or> (case s of [] \<Rightarrow> False | _ # s' \<Rightarrow> tok_match (PStar # ts) s'))"
| "tok_match (PAny # ts) s = (case s of [] \<Rightarrow> False | _ # s' \<Rightarrow> tok_match ts s')"
| "tok_match (PClass neg items # ts) s =
     (case s of [] \<Rightarrow> False | c # s' \<Rightarrow> in_class items c \<noteq> neg \<and> tok_match ts s')"
| "tok_match (PLit a # ts) s = (case s of [] \<Rightarrow> False | c # s' \<Rightarrow> a = c \<and> tok_match ts s')"

definition fnmatch :: "string \<Rightarrow> string \<Rightarrow> bool" where
  "fnmatch name pat = tok_match (translate pat) name"

subsection \<open>Directory walks\<close>

definition is_hidden :: "string \<Rightarrow> bool" where
  "is_hidden x \<longleftrightarrow> take 1 x = ''.''"

definition has_magic :: "string \<Rightarrow> bool" where
  "has_magic s \<longleftrightarrow> (\<exists>c \<in> set s. c = CHR ''*'' \<or> c = CHR ''?'' \<or> c = CHR ''['')"

text \<open>\<open>glob._join\<close>: plain concatenation through \<open>os.path.join\<close>, except that an
  empty side gives the other.\<close>

definition glob_join :: "string \<Rightarrow> string \<Rightarrow> string" where
  "glob_join d b = (if d = [] \<or> b = [] then (if d = [] then b else d) else path_join d [b])"

text \<open>The names a listing of directory \<open>q\<close> yields (only directories when
  \<open>dironly\<close>); nothing when \<open>q\<close> is not a directory, as \<open>_iterdir\<close> swallows the
  \<open>OSError\<close> of \<open>os.scandir\<close>.\<close>

definition child_names :: "fs \<Rightarrow> bool \<Rightarrow> fpath \<Rightarrow> string list" where
  "child_names fs dironly q =
     (if lookup fs q = Some Dir then [x. (x, n) \<leftarrow> fs_children fs q, \<not> dironly \<or> n = Dir] else [])"

text \<open>\<open>_listdir(dirname)\<close>; the empty name lists the working directory, which the
  model takes to be the root.\<close>

definition listdir_names :: "fs \<Rightarrow> string \<Rightarrow> bool \<Rightarrow> string list" where
  "listdir_names fs dname dironly =
     (case resolve fs (if dname = [] then ''.'' else dname) of
        Inl _ \<Rightarrow> []
      | Inr q \<Rightarrow> child_names fs dironly q)"

definition fs_depth :: "fs \<Rightarrow> nat" where
  "fs_depth fs = fold max (map (\<lambda>(p, n). length p) fs) 0"

text \<open>\<open>_rlistdir\<close>: every entry below a directory, each directory's listing followed
  by the entries below it, as paths relative to the start; hidden entries and what
  is below them are skipped.  The path \<open>_join(dirname, x)\<close> of a listed name
  resolves to the directory's path extended by that name, so the walk is written over
  resolved paths; it goes one level deeper in each call and stops below the deepest
  entry.\<close>

function rlist :: "fs \<Rightarrow> bool \<Rightarrow> fpath \<Rightarrow> string list" where
  "rlist fs dironly q =
     concat (map (\<lambda>x. x # map (glob_join x) (rlist fs dironly (q @ [x])))
                 (filter (\<lambda>x. \<not> is_hidden x) (child_names fs dironly q)))"
  by pat_completeness auto
termination
proof (relation "measure (\<lambda>(fs, dironly, q). Suc (fs_depth fs) - length q)")
  fix fs dironly q x
  assume "x \<in> set (filter (\<lambda>x. \<not> is_hidden x) (child_names fs dironly q))"
  then obtain p n where "(p, n) \<in> set fs" "p \<noteq> []" "butlast p = q" "x = last p"
    by (auto simp: child_names_def fs_children_def split: if_splits)
  then have "q @ [x] = p" and "length p \<le> fs_depth fs"
    by (auto simp: fs_depth_def intro!: fold_max_ge)
  then show "((fs, dironly, q @ [x]), fs, dironly, q) \<in> measure (\<lambda>(fs, dironly, q). Suc (fs_depth fs) - length q)"
    by auto
qed simp

declare rlist.simps [simp del]

definition rlistdir :: "fs \<Rightarrow> string \<Rightarrow> bool \<Rightarrow> string list" where
  "rlistdir fs dname dironly =
     (case resolve fs (if dname = [] then ''.'' else dname) of
        Inl _ \<Rightarrow> []
      | Inr q \<Rightarrow> rlist fs dironly q)"

definition glob0 :: "fs \<Rightarrow> string \<Rightarrow> string \<Rightarrow> bool \<Rightarrow> string list" where
  "glob0 fs dname bname dironly =
     (if bname \<noteq> [] then (if os_path_exists fs (glob_join dname bname) then [bname] else [])
      else (if os_path_isdir fs dname then [bname] else []))"

definition glob1 :: "fs \<Rightarrow> string \<Rightarrow> string \<Rightarrow> bool \<Rightarrow> string list" where
  "glob1 fs dname pattern dironly =
     (let names = listdir_names fs dname dironly;
          visible = (if is_hidden pattern then names else filter (\<lambda>x. \<not> is_hidden x) names)
      in filter (\<lambda>x. fnmatch x pattern) visible)"

definition glob2 :: "fs \<Rightarrow> string \<Rightarrow> string \<Rightarrow> bool \<Rightarrow> string list" where
  "glob2 fs dname pattern dironly =
     (if dname = [] \<or> os_path_isdir fs dname then [[]] else []) @ rlistdir fs dname dironly"

text \<open>The relative path \<open>_rlistdir\<close> yields for a chain of names below a directory.\<close>

fun rel_path :: "string list \<Rightarrow> string" where
  "rel_path [] = []"
| "rel_path [c] = c"
| "rel_path (c # c' # cs) = c @ sep # rel_path (c' # cs)"

lemma rstrip_sep_prefix: "prefix (rstrip_sep s) s"
proof -
  have "s = rev (dropWhile (\<lambda>x. x = sep) (rev s)) @ rev (takeWhile (\<lambda>x. x = sep) (rev s))"
    by (metis rev_append rev_rev_ident takeWhile_dropWhile_id)
  then show ?thesis
    unfolding rstrip_sep_def by (metis prefixI)
qed

lemma path_split_prefix: "prefix (fst (path_split p)) p"
  using rstrip_sep_prefix [of "take (rfind_end sep p) p"] take_is_prefix [of "rfind_end sep p" p]
  by (auto simp: path_split_def Let_def intro: prefix_order.trans)

lemma path_split_shorter: "fst (path_split p) \<noteq> p \<Longrightarrow> length (fst (path_split p)) < length p"
  using path_split_prefix [of p] by (auto intro: prefix_length_less)

lemma path_split_shorter_eq: "(d, b) = path_split p \<Longrightarrow> d \<noteq> p \<Longrightarrow> length d < length p"
  using path_split_shorter [of p] by (simp add: prod_eq_iff)

text \<open>\<open>glob._iglob(pathname, recursive, dironly)\<close>: a pattern without wildcards is
  looked up; otherwise the directory part is globbed first (only directories), and
  each of its matches is searched for the last component, by \<open>_glob2\<close> for a
  recursive \<open>**\<close>, by \<open>_glob1\<close> for another pattern, by \<open>_glob0\<close> for a plain
  name.\<close>

function iglob :: "fs \<Rightarrow> string \<Rightarrow> bool \<Rightarrow> bool \<Rightarrow> string list" where
  "iglob fs pathname recursive dironly =
     (let (dname, bname) = path_split pathname in
      if \<not> has_magic pathname then
        (if bname \<noteq> [] then (if os_path_exists fs pathname then [pathname] else [])
         else (if os_path_isdir fs dname then [pathname] else []))
      else if dname = [] then
        (if recursive \<and> bname = ''**'' then glob2 fs [] bname dironly else glob1 fs [] bname dironly)
      else
        (let dirs = (if dname \<noteq> pathname \<and> has_magic dname then iglob fs dname recursive True
                     else [dname]);
             in_dir = (\<lambda>d. if has_magic bname
                            then (if recursive \<and> bname = ''**'' then glob2 fs d bname dironly
                                  else glob1 fs d bname dironly)
                            else glob0 fs d bname dironly)
         in concat (map (\<lambda>d. map (\<lambda>name. path_join d [name]) (in_dir d)) dirs)))"
  by pat_completeness auto
termination
  by (relation "measure (\<lambda>(fs, pathname, recursive, dironly). length pathname)")
     (auto dest: path_split_shorter_eq)

declare iglob.simps [simp del]

text \<open>\<open>glob.glob(pathname, recursive=...)\<close>: the list of \<open>iglob\<close>, whose first
  result is dropped when it is empty and the pattern is empty or starts with a
  recursive \<open>**\<close>.\<close>

definition glob :: "fs \<Rightarrow> string \<Rightarrow> bool \<Rightarrow> string list" where
  "glob fs pathname recursive =
     (let it = iglob fs pathname recursive False
      in if pathname = [] \<or> (recursive \<and> take 2 pathname = ''**'')
         then (case it of [] \<Rightarrow> [] | s # rest \<Rightarrow> if s = [] then rest else it)
         else it)"

subsection \<open>Patterns over a plain directory\<close>

lemma has_magic_append: "has_magic (xs @ ys) \<longleftrightarrow> has_magic xs \<or> has_magic ys"
  by (auto simp: has_magic_def)

text \<open>A pattern made of a plain directory and a last component with wildcards lists
  that directory once: the result is the directory joined with each visible matching
  name, in listing order.\<close>

lemma glob_plain_dir:
  assumes "resolve fs d = Inr qd" and "d \<noteq> []" and "last d \<noteq> sep" and "\<not> has_magic d"
    and "sep \<notin> set pat" and "has_magic pat" and "\<not> is_hidden pat"
  shows "glob fs (d @ sep # pat) False =
    map (\<lambda>x. path_join d [x]) (filter (\<lambda>x. fnmatch x pat) (filter (\<lambda>x. \<not> is_hidden x) (child_names fs False qd)))"
proof -
  have split: "path_split (d @ sep # pat) = (d, pat)"
    using path_split_join [OF assms(5,2,3)] .
  have magic: "has_magic (d @ sep # pat)"
    using assms(6) by (auto simp: has_magic_def)
  have ne: "d \<noteq> d @ sep # pat" by simp
  have "iglob fs (d @ sep # pat) False False =
      map (\<lambda>x. path_join d [x]) (glob1 fs d pat False)"
    using split magic ne assms(2,4,6) by (subst iglob.simps) (simp add: Let_def)
  moreover have "glob1 fs d pat False =
      filter (\<lambda>x. fnmatch x pat) (filter (\<lambda>x. \<not> is_hidden x) (child_names fs False qd))"
    using assms(1,2,7) by (simp add: glob1_def listdir_names_def)
  ultimately show ?thesis
    by (simp add: glob_def Let_def)
qed


lemma has_magic_sep_Cons: "has_magic (sep # x) \<longleftrightarrow> has_magic x"
  by (auto simp: has_magic_def sep_def)

lemma child_names_valid:
  "fs_wf fs \<Longrightarrow> x \<in> set (child_names fs dironly q) \<Longrightarrow> valid_name x"
  by (auto simp: child_names_def fs_children_def fs_wf_def list_all_iff split: if_splits)

subsection \<open>Patterns that match nothing\<close>

lemma glob1_no_match:
  "\<forall>(p, n) \<in> set fs. p \<noteq> [] \<longrightarrow> \<not> fnmatch (last p) pat \<Longrightarrow> glob1 fs d pat dironly = []"
  by (fastforce simp: glob1_def listdir_names_def child_names_def fs_children_def Let_def
      filter_empty_conv split: sum.splits)

lemma has_magic_drop: "has_magic (drop i s) \<Longrightarrow> has_magic s"
  by (auto simp: has_magic_def dest: in_set_dropD)

text \<open>A pattern whose last component has wildcards: every result comes from a
  \<open>_glob1\<close> listing, so when no listing matches there is no result.\<close>

lemma iglob_magic_base_empty:
  assumes "path_split pathname = (dname, bname)" and "has_magic bname" and "dname \<noteq> []"
    and "\<not> (recursive \<and> bname = ''**'')" and "\<And>d. glob1 fs d bname dironly = []"
  shows "iglob fs pathname recursive dironly = []"
proof -
  have "has_magic pathname"
    using assms(1,2) path_split_snd [of pathname] has_magic_drop by (metis snd_conv)
  then show ?thesis
    using assms by (subst iglob.simps) (cases recursive; simp add: Let_def)
qed

lemma glob_base_no_match:
  assumes "p \<noteq> []" and "sep \<notin> set b" and "take 1 b \<noteq> [sep]" and "has_magic b"
    and "\<not> (recursive \<and> b = ''**'')"
    and "\<forall>(q, n) \<in> set fs. q \<noteq> [] \<longrightarrow> \<not> fnmatch (last q) b"
  shows "glob fs (path_join p [b]) recursive = []"
proof -
  obtain x where j: "path_join p [b] = x @ sep # b"
    using path_join_last [OF assms(1,3)] by blast
  let ?d = "fst (path_split (x @ sep # b))"
  have "path_split (x @ sep # b) = (?d, b)"
    using path_split_sep_base [OF assms(2)] .
  moreover have "?d \<noteq> []"
    by (rule path_split_fst_nonempty) simp
  ultimately have "iglob fs (x @ sep # b) recursive False = []"
    using iglob_magic_base_empty assms(4,5) glob1_no_match [OF assms(6)] by blast
  then show ?thesis
    unfolding j glob_def Let_def by (cases recursive) simp_all
qed

lemma has_magic_subset: "set a \<subseteq> set b \<Longrightarrow> has_magic a \<Longrightarrow> has_magic b"
  by (auto simp: has_magic_def)

subsection \<open>The recursive search finds every visible entry\<close>

lemma rel_path_Cons: "rel \<noteq> [] \<Longrightarrow> rel_path (c # rel) = c @ sep # rel_path rel"
  by (cases rel) auto

lemma rel_path_nonempty: "list_all valid_name rel \<Longrightarrow> rel \<noteq> [] \<Longrightarrow> rel_path rel \<noteq> []"
  by (induction rel rule: rel_path.induct) (auto simp: valid_name_def)

lemma rel_path_hd: "list_all valid_name rel \<Longrightarrow> take 1 (rel_path rel) \<noteq> [sep]"
  by (induction rel rule: rel_path.induct) (auto simp: valid_name_def take_Suc_conv_app_nth neq_Nil_conv)

lemma resolve_rel_path:
  assumes wf: "fs_wf fs" and "resolve fs d = Inr q" and "lookup fs q = Some Dir"
    and "lookup fs (q @ rel) = Some n" and "rel \<noteq> []"
  shows "resolve fs (d @ sep # rel_path rel) = Inr (q @ rel)"
  using assms(2-)
proof (induction rel arbitrary: d q)
  case (Cons c rel)
  have vc: "valid_name c"
    using fs_wf_names [OF wf Cons.prems(3)] by simp
  have rc: "resolve fs (d @ sep # c) = Inr (q @ [c])"
    using resolve_child [OF Cons.prems(1,2) vc] .
  show ?case
  proof (cases "rel = []")
    case True
    then show ?thesis using rc by simp
  next
    case False
    have "lookup fs (q @ [c]) = Some Dir"
      using fs_wf_ancestor [OF wf, of "q @ [c]" rel n] Cons.prems(3) False by simp
    then have "resolve fs ((d @ sep # c) @ sep # rel_path rel) = Inr ((q @ [c]) @ rel)"
      using Cons.IH [OF rc] Cons.prems(3) False by simp
    then show ?thesis
      using False by (simp add: rel_path_Cons)
  qed
qed simp

lemma child_names_dir:
  "lookup fs q = Some Dir \<Longrightarrow> lookup fs (q @ [c]) = Some Dir \<Longrightarrow> c \<in> set (child_names fs True q)"
  by (force simp: child_names_def fs_children_def lookup_def dest: map_of_SomeD)

lemma child_names_file:
  "lookup fs q = Some Dir \<Longrightarrow> lookup fs (q @ [c]) = Some n \<Longrightarrow> c \<in> set (child_names fs False q)"
  by (force simp: child_names_def fs_children_def lookup_def dest: map_of_SomeD)

lemma glob_join_rel_path:
  "valid_name c \<Longrightarrow> list_all valid_name rel \<Longrightarrow> rel \<noteq> [] \<Longrightarrow> glob_join c (rel_path rel) = rel_path (c # rel)"
  using rel_path_nonempty [of rel] rel_path_hd [of rel] valid_name_last [of c]
  by (auto simp: glob_join_def rel_path_Cons valid_name_def)

lemma rlist_complete:
  assumes wf: "fs_wf fs" and "lookup fs q = Some Dir" and "lookup fs (q @ rel) = Some Dir"
    and "rel \<noteq> []" and "list_all (\<lambda>c. \<not> is_hidden c) rel"
  shows "rel_path rel \<in> set (rlist fs True q)"
  using assms(2-)
proof (induction rel arbitrary: q)
  case (Cons c rel)
  have names: "valid_name c" "list_all valid_name rel"
    using fs_wf_names [OF wf Cons.prems(2)] by simp_all
  have dc: "lookup fs (q @ [c]) = Some Dir"
    using Cons.prems(2) fs_wf_ancestor [OF wf, of "q @ [c]" rel Dir] by (cases "rel = []") simp_all
  have "c \<in> set (filter (\<lambda>x. \<not> is_hidden x) (child_names fs True q))"
    using child_names_dir [OF Cons.prems(1) dc] Cons.prems(4) by simp
  moreover have "rel_path (c # rel) \<in> set (c # map (glob_join c) (rlist fs True (q @ [c])))"
  proof (cases "rel = []")
    case False
    then have "rel_path rel \<in> set (rlist fs True (q @ [c]))"
      using Cons.IH [OF dc] Cons.prems(2,4) by simp
    then show ?thesis
      using glob_join_rel_path [OF names False] by force
  qed simp
  ultimately show ?case
    by (subst rlist.simps) auto
qed simp

lemma concat_map_nonempty:
  "a \<in> set xs \<Longrightarrow> y \<in> set (f a) \<Longrightarrow> concat (map (\<lambda>d. map (g d) (f d)) xs) \<noteq> []"
  by (auto intro!: bexI [of _ a])

lemma iglob_star_star:
  assumes ro: "resolve fs od = Inr qo" and qo: "lookup fs qo = Some Dir"
    and od: "od \<noteq> []" "last od \<noteq> sep" "\<not> has_magic od"
  shows "iglob fs (od @ sep # ''**'') True True = map (\<lambda>n. path_join od [n]) ([] # rlist fs True qo)"
proof -
  have sp: "path_split (od @ sep # ''**'') = (od, ''**'')"
    using path_split_join [OF _ od(1,2)] by (simp add: sep_def)
  have "has_magic (od @ sep # ''**'')"
    by (simp add: has_magic_def)
  moreover have "os_path_isdir fs od"
    using ro qo by (simp add: os_path_isdir_def)
  ultimately show ?thesis
    using sp od ro by (subst iglob.simps) (simp add: Let_def glob2_def rlistdir_def has_magic_def)
qed

lemma iglob_fallback:
  assumes "od \<noteq> []" "last od \<noteq> sep"
  shows "iglob fs ((od @ sep # ''**'') @ sep # ''no_vocals.*'') True False =
    concat (map (\<lambda>d. map (\<lambda>n. path_join d [n]) (glob1 fs d ''no_vocals.*'' False))
                (iglob fs (od @ sep # ''**'') True True))"
proof -
  have sp: "path_split ((od @ sep # ''**'') @ sep # ''no_vocals.*'') = (od @ sep # ''**'', ''no_vocals.*'')"
    using path_split_join [of "''no_vocals.*''" "od @ sep # ''**''"] by (simp add: sep_def)
  show ?thesis
    by (subst iglob.simps) (simp only: sp prod.case, simp add: Let_def has_magic_def del: path_join.simps)
qed

subsection \<open>The shape of what the searches return\<close>

lemma rel_path_snoc: "rel \<noteq> [] \<Longrightarrow> rel_path (rel @ [c]) = rel_path rel @ sep # c"
  by (induction rel rule: rel_path.induct) auto

lemma resolve_rel_path_inv:
  assumes "resolve fs (d @ sep # rel_path rel) = Inr r" and "rel \<noteq> []" and "list_all valid_name rel"
  shows "\<exists>q. resolve fs d = Inr q \<and> r = q @ rel"
  using assms
proof (induction rel arbitrary: r rule: rev_induct)
  case (snoc c rel)
  show ?case
  proof (cases "rel = []")
    case True
    then show ?thesis using resolve_child_inv [of fs d c r] snoc.prems by auto
  next
    case False
    then have "resolve fs ((d @ sep # rel_path rel) @ sep # c) = Inr r"
      using snoc.prems(1) rel_path_snoc [OF False, of c] by simp
    then obtain q' where "resolve fs (d @ sep # rel_path rel) = Inr q'" "r = q' @ [c]"
      using resolve_child_inv snoc.prems(3) by fastforce
    then show ?thesis
      using snoc.IH [of q'] False snoc.prems(3) by auto
  qed
qed simp

lemma rlist_shape:
  "fs_wf fs \<Longrightarrow> nn \<in> set (rlist fs dironly q) \<Longrightarrow>
   \<exists>rel. rel \<noteq> [] \<and> list_all valid_name rel \<and> nn = rel_path rel"
proof (induction fs dironly q arbitrary: nn rule: rlist.induct)
  case (1 fs dironly q)
  obtain x where x: "x \<in> set (filter (\<lambda>x. \<not> is_hidden x) (child_names fs dironly q))"
    and nn: "nn = x \<or> nn \<in> set (map (glob_join x) (rlist fs dironly (q @ [x])))"
    using "1.prems"(2) by (subst (asm) rlist.simps) auto
  have vx: "valid_name x"
    using x child_names_valid [OF "1.prems"(1)] by auto
  show ?case
  proof (cases "nn = x")
    case True
    then show ?thesis using vx by (intro exI [of _ "[x]"]) simp
  next
    case False
    then obtain y where "y \<in> set (rlist fs dironly (q @ [x]))" and ny: "nn = glob_join x y"
      using nn by auto
    then obtain rel where "rel \<noteq> []" "list_all valid_name rel" "y = rel_path rel"
      using "1.IH" [OF x] "1.prems"(1) by blast
    then show ?thesis
      using ny glob_join_rel_path [of x rel] vx by (intro exI [of _ "x # rel"]) simp
  qed
qed

lemma glob_dir_glob1:
  assumes "d \<noteq> []" and "last d \<noteq> sep" and "\<not> has_magic d" and "sep \<notin> set pat" and "has_magic pat"
  shows "glob fs (d @ sep # pat) False = map (\<lambda>x. path_join d [x]) (glob1 fs d pat False)"
proof -
  have split: "path_split (d @ sep # pat) = (d, pat)"
    using path_split_join [OF assms(4,1,2)] .
  have magic: "has_magic (d @ sep # pat)"
    using assms(5) by (auto simp: has_magic_def)
  have "iglob fs (d @ sep # pat) False False = map (\<lambda>x. path_join d [x]) (glob1 fs d pat False)"
    using split magic assms(1,3,5) by (subst iglob.simps) (simp add: Let_def)
  then show ?thesis
    by (simp add: glob_def Let_def)
qed

lemma glob1_child:
  "x \<in> set (glob1 fs d pat dironly) \<Longrightarrow> d \<noteq> [] \<Longrightarrow>
   \<exists>qd. resolve fs d = Inr qd \<and> x \<in> set (child_names fs dironly qd)"
  by (auto simp: glob1_def listdir_names_def Let_def split: sum.splits if_splits)

lemma rel_path_last: "list_all valid_name rel \<Longrightarrow> rel \<noteq> [] \<Longrightarrow> last (rel_path rel) \<noteq> sep"
  by (induction rel rule: rel_path.induct) (auto simp: valid_name_last rel_path_nonempty)

end
