(* ===== verification/Invoker.thy ===== *)
theory Invoker
  imports World Glob
begin

text \<open>
  The separation invoker of src/handler.py, \<open>remove_vocals_serverless\<close>: a fresh
  output directory named from the clock, the fixed Demucs command line, the run with
  its 300-second bound, the exit-status check, and output discovery by the
  documented layout with a recursive search as fallback.
\<close>

subsection \<open>Separation invoker\<close>

definition demucs_command :: "processor \<Rightarrow> json \<Rightarrow> string \<Rightarrow> string \<Rightarrow> json list" where
  "demucs_command proc model output_dir input_path =
     [JStr ''python'', JStr ''-m'', JStr ''demucs'', JStr ''--mp3'', JStr ''--two-stems=vocals'',
      JStr ''-n'', model, JStr ''-o'', JStr output_dir, JStr ''--device'', JStr (device proc),
      JStr ''--shifts'', JStr ''1'', JStr ''--overlap'', JStr ''0.25'', JStr ''--jobs'', JStr ''1'',
      JStr input_path]"

text \<open>\<open>' '.join(command)\<close> in the log line before the run: it needs every item to be
  a string and raises \<open>TypeError\<close> at the first that is not.\<close>

fun str_items :: "nat \<Rightarrow> json list \<Rightarrow> py_exc + string list" where
  "str_items i [] = Inr []"
| "str_items i (JStr s # xs) = (case str_items (Suc i) xs of Inl e \<Rightarrow> Inl e | Inr ss \<Rightarrow> Inr (s # ss))"
| "str_items i (v # xs) =
     Inl (TypeError (''sequence item '' @ nat_str i @ '': expected str instance, '' @
                     py_type_name v @ '' found''))"

text \<open>The documented layout \<open><output_dir>/<model>/<input stem>/no_vocals.*\<close> first, a
  recursive search for \<open>no_vocals.*\<close> below the output directory second.\<close>

definition find_output :: "fs \<Rightarrow> string \<Rightarrow> string \<Rightarrow> string \<Rightarrow> string list" where
  "find_output fs output_dir model input_path =
     (let input_filename = fst (splitext (basename input_path));
          matching = glob fs (path_join output_dir [model, input_filename, ''no_vocals.*'']) False
      in if matching \<noteq> [] then matching
         else glob fs (path_join output_dir [''**'', ''no_vocals.*'']) True)"

text \<open>\<open>os.path.join(self.temp_dir, f"demucs_output_{datetime.now().strftime('%Y%m%d_%H%M%S')}")\<close>.\<close>

definition output_dir_name :: "timestamp \<Rightarrow> string" where
  "output_dir_name t = ''demucs_output_'' @ strftime_compact t"

definition output_dir_path :: "processor \<Rightarrow> timestamp \<Rightarrow> string" where
  "output_dir_path proc t = path_join (temp_dir proc) [output_dir_name t]"

definition remove_vocals_serverless :: "processor \<Rightarrow> tool \<Rightarrow> string \<Rightarrow> json \<Rightarrow> world \<Rightarrow> string outcome" where
  "remove_vocals_serverless proc tool input_path model w =
     (let (t, w1) = now w;
          output_dir = output_dir_path proc t
      in case os_makedirs (wfs w1) output_dir of
           (Inl e, fs1) \<Rightarrow> (Inl e, w1\<lparr>wfs := fs1\<rparr>)
         | (Inr _, fs1) \<Rightarrow>
             (let w2 = w1\<lparr>wfs := fs1\<rparr> in
              case str_items 0 (demucs_command proc model output_dir input_path) of
                Inl e \<Rightarrow> (Inl e, w2)
              | Inr command \<Rightarrow>
                  (case subprocess_run tool command 300 w2 of
                     (Inl e, w3) \<Rightarrow> (Inl e, w3)
                   | (Inr (rc, out, err), w3) \<Rightarrow>
                       (if rc \<noteq> 0 then (Inl (RuntimeError (''Demucs processing failed: '' @ err)), w3)
                        else (case find_output (wfs w3) output_dir (py_str model) input_path of
                                [] \<Rightarrow> (Inl (RuntimeError ''Could not find Demucs output file''), w3)
                              | p # _ \<Rightarrow> (Inr p, w3))))))"

subsection \<open>Facts\<close>

lemma output_dir_name_valid: "valid_name (output_dir_name t)"
  by (auto simp: output_dir_name_def valid_name_def sep_def strftime_compact_no_slash)

lemma output_dir_makedirs:
  assumes "scratch_at fs proc q"
  shows "os_makedirs fs (output_dir_path proc t) =
    (case lookup fs (q @ [output_dir_name t]) of
       None \<Rightarrow> (Inr (), fs @ [(q @ [output_dir_name t], Dir)])
     | Some Dir \<Rightarrow> (Inr (), fs)
     | Some (File _) \<Rightarrow> (Inl (FileExistsError (output_dir_path proc t)), fs))"
proof -
  have p: "output_dir_path proc t = temp_dir proc @ sep # output_dir_name t"
    using assms output_dir_name_valid [of t]
    by (simp add: scratch_at_def output_dir_path_def path_join_child del: path_join.simps)
  show ?thesis
    using assms os_makedirs_child [of fs "temp_dir proc" q "output_dir_name t"] output_dir_name_valid [of t]
    by (simp only: p scratch_at_def) simp
qed

lemma str_items_demucs_command:
  "str_items 0 (demucs_command proc (JStr m) od ip) = Inr (map py_str (demucs_command proc (JStr m) od ip))"
  by (simp add: demucs_command_def)

lemma str_items_map: "str_items i xs = Inr c \<Longrightarrow> c = map py_str xs"
  by (induction i xs arbitrary: c rule: str_items.induct) (auto split: sum.splits)

lemma remove_vocals_ran:
  assumes "os_makedirs (wfs w) (output_dir_path proc (clock w (ticks w))) = (Inr (), fs1)"
    and "cmd = map py_str (demucs_command proc (JStr m) (output_dir_path proc (clock w (ticks w))) ip)"
  shows "remove_vocals_serverless proc tool ip (JStr m) w =
    (let w2 = w\<lparr>ticks := Suc (ticks w), wfs := fs1, runs := runs w @ [cmd]\<rparr> in
     case tool cmd fs1 of
       Completed rc out err fs2 \<Rightarrow>
         (if rc \<noteq> 0 then (Inl (RuntimeError (''Demucs processing failed: '' @ err)), w2\<lparr>wfs := fs2\<rparr>)
          else (case find_output fs2 (output_dir_path proc (clock w (ticks w))) m ip of
                  [] \<Rightarrow> (Inl (RuntimeError ''Could not find Demucs output file''), w2\<lparr>wfs := fs2\<rparr>)
                | p # _ \<Rightarrow> (Inr p, w2\<lparr>wfs := fs2\<rparr>)))
     | Timed_out fs2 \<Rightarrow> (Inl (TimeoutExpired cmd 300), w2\<lparr>wfs := fs2\<rparr>)
     | Launch_failed e \<Rightarrow> (Inl (os_error e ''python''), w2))"
  using assms
  by (simp add: remove_vocals_serverless_def now_def str_items_demucs_command subprocess_run_def
      Let_def demucs_command_def split: run_result.split list.split)

text \<open>Both patterns of \<open>find_output\<close> end in the component \<open>no_vocals.*\<close>, so they
  find nothing when no entry of the file system has a name matching it.\<close>

lemma find_output_no_match:
  assumes "od \<noteq> []" and "\<forall>(q, n) \<in> set fs. q \<noteq> [] \<longrightarrow> \<not> fnmatch (last q) ''no_vocals.*''"
  shows "find_output fs od m ip = []"
proof -
  have b: "sep \<notin> set ''no_vocals.*''" "take 1 ''no_vocals.*'' \<noteq> [sep]" "has_magic ''no_vocals.*''"
    by (simp_all add: sep_def has_magic_def)
  have "glob fs (path_join (path_join od [m, fst (splitext (basename ip))]) [''no_vocals.*'']) False = []"
    using glob_base_no_match [OF path_join_nonempty [OF assms(1)] b] assms(2) by (simp del: path_join.simps)
  moreover have "glob fs (path_join (path_join od [''**'']) [''no_vocals.*'']) True = []"
    using glob_base_no_match [OF path_join_nonempty [OF assms(1)] b] assms(2) by (simp del: path_join.simps)
  ultimately show ?thesis
    by (simp add: find_output_def Let_def path_join_snoc [symmetric] del: path_join.simps)
qed

lemma strftime_compact_no_magic: "\<not> has_magic (strftime_compact t)"
  using strftime_compact_chars [of t] by (auto simp: has_magic_def)

lemma output_dir_name_no_magic: "\<not> has_magic (output_dir_name t)"
  using strftime_compact_no_magic [of t] by (simp add: output_dir_name_def has_magic_append)
    (simp add: has_magic_def)

text \<open>The tool left its output in the documented layout
  \<open><output_dir>/<model>/<input stem>/\<close>: the first visible name there that matches
  \<open>no_vocals.*\<close> is the result.\<close>

text \<open>The fallback search \<open><output_dir>/**/no_vocals.*\<close> finds a visible result
  file anywhere below the output directory, so the output search then succeeds.\<close>

lemma find_output_finds_below:
  assumes wf: "fs_wf fs" and ro: "resolve fs od = Inr qo" and qo: "lookup fs qo = Some Dir"
    and od: "od \<noteq> []" "last od \<noteq> sep" "\<not> has_magic od"
    and fx: "lookup fs (qo @ rel @ [x]) = Some (File b)"
    and vis: "list_all (\<lambda>c. \<not> is_hidden c) rel" "\<not> is_hidden x" and x: "fnmatch x ''no_vocals.*''"
  shows "find_output fs od m ip \<noteq> []"
proof -
  have dir: "lookup fs (qo @ rel) = Some Dir"
    using fs_wf_ancestor [OF wf, of "qo @ rel" "[x]"] fx by simp
  obtain d where d: "d \<in> set ([] # rlist fs True qo)" and rd: "resolve fs (path_join od [d]) = Inr (qo @ rel)"
  proof (cases "rel = []")
    case True
    have "split_sep (od @ [sep]) = split_sep od @ [[]]"
      using split_sep_append_gen [of od "[]"] by simp
    then have "resolve fs (od @ [sep]) = Inr qo"
      using walk_append [of fs "[]" "split_sep od" qo "[[]]"] ro qo split_sep_nonempty [of od]
      by (simp add: resolve_def comp_step_def)
    then show ?thesis
      using that [of "[]"] od True by simp
  next
    case False
    have "list_all valid_name rel"
      using fs_wf_names [OF wf dir] by simp
    then have "path_join od [rel_path rel] = od @ sep # rel_path rel"
      using od rel_path_hd [of rel] by simp
    then show ?thesis
      using that [of "rel_path rel"] rlist_complete [OF wf qo dir False vis(1)]
        resolve_rel_path [OF wf ro qo dir False] by simp
  qed
  have xin: "x \<in> set (glob1 fs (path_join od [d]) ''no_vocals.*'' False)"
    using rd child_names_file [OF dir, of x] fx vis(2) x path_join_nonempty [OF od(1), of "[d]"]
    by (simp add: glob1_def listdir_names_def is_hidden_def Let_def)
  have din: "path_join od [d] \<in> set (iglob fs (od @ sep # ''**'') True True)"
    using iglob_star_star [OF ro qo od] d by (auto simp del: path_join.simps)
  have "iglob fs ((od @ sep # ''**'') @ sep # ''no_vocals.*'') True False \<noteq> []"
    unfolding iglob_fallback [OF od(1,2), of fs]
    by (rule concat_map_nonempty [where g = "\<lambda>d n. path_join d [n]" and f = "\<lambda>d. glob1 fs d ''no_vocals.*'' False", OF din xin])
  moreover have "take 2 ((od @ sep # ''**'') @ sep # ''no_vocals.*'') \<noteq> ''**''"
    using od(1,3) by (cases od) (auto simp: has_magic_def)
  moreover have "path_join od [''**'', ''no_vocals.*''] = (od @ sep # ''**'') @ sep # ''no_vocals.*''"
    using od(1,2) by (simp add: sep_def)
  ultimately show ?thesis
    by (auto simp: find_output_def glob_def Let_def simp del: path_join.simps)
qed

text \<open>Every path the output search returns lies in a directory inside the output
  directory: its \<open>dirname\<close> resolves below it, so the cleanup of
  \<open>dirname(output_path)\<close> never reaches the scratch root.\<close>

lemma find_output_below:
  assumes wf: "fs_wf fs" and ro: "resolve fs od = Inr qo" and qo: "lookup fs qo = Some Dir"
    and od: "od \<noteq> []" "last od \<noteq> sep" "\<not> has_magic od"
    and m: "valid_name m" "\<not> has_magic m" and st: "valid_name st" "\<not> has_magic st"
    and stem: "fst (splitext (basename ip)) = st"
    and op: "op \<in> set (find_output fs od m ip)" and rd: "resolve fs (dirname op) = Inr r"
  shows "prefix qo r"
proof -
  let ?nv = "''no_vocals.*''"
  let ?d1 = "od @ sep # rel_path [m, st]"
  have nv: "sep \<notin> set ?nv" "has_magic ?nv" by (simp_all add: sep_def has_magic_def)
  have d1: "?d1 \<noteq> []" "last ?d1 \<noteq> sep" "\<not> has_magic ?d1"
    using od(3) m(2) st(2) valid_name_last [OF st(1)] st(1) by (simp_all add: has_magic_append has_magic_sep_Cons valid_name_def)
  have p1: "path_join od [m, st, ?nv] = ?d1 @ sep # ?nv"
    using od(1,2) m(1) st(1) valid_name_last [OF m(1)] valid_name_last [OF st(1)]
    by (cases m; cases st) (auto simp: valid_name_def sep_def)
  have g1: "glob fs (path_join od [m, st, ?nv]) False = map (\<lambda>x. path_join ?d1 [x]) (glob1 fs ?d1 ?nv False)"
    using glob_dir_glob1 [OF d1 nv] p1 by simp
  have p2: "path_join od [''**'', ?nv] = (od @ sep # ''**'') @ sep # ?nv"
    using od(1,2) by (simp add: sep_def)
  have "take 2 ((od @ sep # ''**'') @ sep # ?nv) \<noteq> ''**''"
    using od(1,3) by (cases od) (auto simp: has_magic_def)
  then have g2: "glob fs (path_join od [''**'', ?nv]) True =
      concat (map (\<lambda>d. map (\<lambda>n. path_join d [n]) (glob1 fs d ?nv False))
        (map (\<lambda>n. path_join od [n]) ([] # rlist fs True qo)))"
    using p2 iglob_fallback [OF od(1,2), of fs] iglob_star_star [OF ro qo od]
    by (simp add: glob_def Let_def del: path_join.simps)
  have "\<exists>d x. op = path_join d [x] \<and> x \<in> set (glob1 fs d ?nv False) \<and>
      (d = ?d1 \<or> d = path_join od [[]] \<or> (\<exists>n \<in> set (rlist fs True qo). d = path_join od [n]))"
    using op g1 g2 stem by (auto simp: find_output_def Let_def simp del: path_join.simps split: if_splits)
  then obtain d x where opx: "op = path_join d [x]" and x: "x \<in> set (glob1 fs d ?nv False)"
    and d: "d = ?d1 \<or> d = path_join od [[]] \<or> (\<exists>n \<in> set (rlist fs True qo). d = path_join od [n])"
    by blast
  have dne: "d \<noteq> []"
    using d od(1) path_join_nonempty [OF od(1)] by (metis Nil_is_append_conv list.distinct(1))
  obtain qd where "resolve fs d = Inr qd" "x \<in> set (child_names fs False qd)"
    using glob1_child [OF x dne] by blast
  then have vx: "valid_name x" using child_names_valid [OF wf] by blast
  have below: "prefix qo r" if "dirname op = od @ sep # rel_path rel" "rel \<noteq> []" "list_all valid_name rel" for rel
    using resolve_rel_path_inv [of fs od rel r] rd that ro by auto
  consider "d = ?d1" | "d = path_join od [[]]" | n where "n \<in> set (rlist fs True qo)" "d = path_join od [n]"
    using d by blast
  then show ?thesis
  proof cases
    case 1
    then have "dirname op = ?d1"
      using opx d1 vx path_join_child [OF d1(1,2) vx] dirname_join [of x ?d1] by (simp add: valid_name_def del: path_join.simps)
    then show ?thesis using below [of "[m, st]"] m(1) st(1) by simp
  next
    case 2
    then have "op = od @ sep # x"
      using opx od(1,2) vx by (cases x) (auto simp: valid_name_def)
    then have "dirname op = od"
      using dirname_join [of x od] od(1,2) vx by (simp add: valid_name_def)
    then show ?thesis using rd ro by simp
  next
    case 3
    then obtain rel where rel: "rel \<noteq> []" "list_all valid_name rel" "n = rel_path rel"
      using rlist_shape [OF wf] by blast
    then have dd: "d = od @ sep # rel_path rel"
      using 3 od(1,2) rel_path_hd [OF rel(2)] rel_path_nonempty [OF rel(2,1)] rel(3)
      by (cases "rel_path rel") (auto simp: sep_def)
    then have "dirname op = d"
      using opx vx path_join_child [of d x] dirname_join [of x d] rel_path_last [OF rel(2,1)]
        rel_path_nonempty [OF rel(2,1)]
      by (simp add: valid_name_def del: path_join.simps)
    then show ?thesis using below [OF _ rel(1,2)] dd by simp
  qed
qed

lemma find_output_documented:
  assumes sc: "scratch_at fs proc q" and nm: "\<not> has_magic (temp_dir proc)"
    and m: "valid_name m" "\<not> has_magic m" and st: "valid_name st" "\<not> has_magic st"
    and stem: "fst (splitext (basename ip)) = st"
    and dirs: "lookup fs (q @ [output_dir_name t]) = Some Dir" "lookup fs (q @ [output_dir_name t, m]) = Some Dir"
    and wf: "fs_wf fs"
    and found: "filter (\<lambda>x. fnmatch x ''no_vocals.*'') (filter (\<lambda>x. \<not> is_hidden x)
                  (child_names fs False (q @ [output_dir_name t, m, st]))) = x # xs"
  shows "find_output fs (output_dir_path proc t) m ip =
           map (\<lambda>y. output_dir_path proc t @ sep # m @ sep # st @ sep # y) (x # xs)"
proof -
  let ?od = "output_dir_path proc t"
  let ?d = "?od @ sep # m @ sep # st"
  have st_ne: "st \<noteq> []" using st(1) by (simp add: valid_name_def)
  have od: "?od = temp_dir proc @ sep # output_dir_name t"
    using sc output_dir_name_valid [of t]
    by (simp add: scratch_at_def output_dir_path_def path_join_child del: path_join.simps)
  have od_ne: "?od \<noteq> []" "last ?od \<noteq> sep"
    using od valid_name_last [OF output_dir_name_valid [of t]] by (simp_all add: output_dir_name_def)
  have d: "path_join ?od [m, st] = ?d"
    using path_join_child [OF od_ne m(1)] path_join_child [of "?od @ sep # m" st] st(1)
      path_join_snoc [of ?od "[m]" st] valid_name_last [OF st(1)] valid_name_last [OF m(1)] m(1)
    by (simp add: valid_name_def del: path_join.simps)
  have pat: "path_join ?od [m, st, ''no_vocals.*''] = ?d @ sep # ''no_vocals.*''"
    using path_join_snoc [of ?od "[m, st]" "''no_vocals.*''"] d
      path_join_child [of ?d "''no_vocals.*''"] valid_name_last [OF st(1)] st(1)
    by (simp add: valid_name_def sep_def del: path_join.simps)
  have r: "resolve fs ?d = Inr (q @ [output_dir_name t, m, st])"
  proof -
    have "resolve fs (temp_dir proc) = Inr q" "lookup fs q = Some Dir"
      using sc by (simp_all add: scratch_at_def)
    then have "resolve fs ?od = Inr (q @ [output_dir_name t])"
      using od resolve_child output_dir_name_valid by simp
    then have "resolve fs (?od @ sep # m) = Inr (q @ [output_dir_name t, m])"
      using resolve_child [OF _ dirs(1) m(1)] by simp
    then show ?thesis
      using resolve_child [OF _ dirs(2) st(1)] by fastforce
  qed
  have magic: "\<not> has_magic ?d"
    using nm m(2) st(2) od output_dir_name_no_magic [of t]
    by (simp add: has_magic_append has_magic_sep_Cons)
  have g: "glob fs (?d @ sep # ''no_vocals.*'') False =
      map (\<lambda>y. path_join ?d [y]) (x # xs)"
  proof -
    have "?d \<noteq> []" "last ?d \<noteq> sep"
      using valid_name_last [OF st(1)] st_ne by simp_all
    moreover have "sep \<notin> set ''no_vocals.*''" "has_magic ''no_vocals.*''" "\<not> is_hidden ''no_vocals.*''"
      by (simp_all add: has_magic_def is_hidden_def sep_def)
    ultimately show ?thesis
      using glob_plain_dir [OF r _ _ magic, of "''no_vocals.*''"] found by (simp del: path_join.simps)
  qed
  have "path_join ?d [y] = ?d @ sep # y" if "y \<in> set (x # xs)" for y
  proof -
    have "y \<in> set (child_names fs False (q @ [output_dir_name t, m, st]))"
    proof -
      have "y \<in> set (filter (\<lambda>x. fnmatch x ''no_vocals.*'') (filter (\<lambda>x. \<not> is_hidden x)
                  (child_names fs False (q @ [output_dir_name t, m, st]))))"
        using that found by simp
      then show ?thesis by simp
    qed
    then have "valid_name y" by (rule child_names_valid [OF wf])
    then show ?thesis
      using path_join_child [of ?d y] valid_name_last [OF st(1)] st_ne by (simp del: path_join.simps)
  qed
  then have "map (\<lambda>y. path_join ?d [y]) (x # xs) = map (\<lambda>y. ?d @ sep # y) (x # xs)"
    by (rule map_cong [OF refl])
  then show ?thesis
    using g pat stem by (simp add: find_output_def Let_def del: path_join.simps)
qed

lemma remove_vocals_documented:
  assumes md: "os_makedirs (wfs w) (output_dir_path proc (clock w (ticks w))) = (Inr (), fs1)"
    and cmd: "cmd = map py_str (demucs_command proc (JStr m) (output_dir_path proc (clock w (ticks w))) ip)"
    and run: "tool cmd fs1 = Completed 0 out err fs2"
    and sc: "scratch_at fs2 proc q" and nm: "\<not> has_magic (temp_dir proc)"
    and m: "valid_name m" "\<not> has_magic m" and st: "valid_name st" "\<not> has_magic st"
    and stem: "fst (splitext (basename ip)) = st"
    and dirs: "lookup fs2 (q @ [output_dir_name (clock w (ticks w))]) = Some Dir"
              "lookup fs2 (q @ [output_dir_name (clock w (ticks w)), m]) = Some Dir"
    and wf: "fs_wf fs2"
    and found: "filter (\<lambda>x. fnmatch x ''no_vocals.*'') (filter (\<lambda>x. \<not> is_hidden x)
                  (child_names fs2 False (q @ [output_dir_name (clock w (ticks w)), m, st]))) = x # xs"
  shows "remove_vocals_serverless proc tool ip (JStr m) w =
    (Inr (output_dir_path proc (clock w (ticks w)) @ sep # m @ sep # st @ sep # x),
     w\<lparr>ticks := Suc (ticks w), wfs := fs2, runs := runs w @ [cmd]\<rparr>)"
  using remove_vocals_ran [OF md cmd, of tool] run
    find_output_documented [OF sc nm m st stem dirs wf found]
  by simp

subsection \<open>Frame of the invoker\<close>

lemma remove_vocals_world:
  assumes "remove_vocals_serverless proc tool ip m w = (r, w')"
  defines "w2 \<equiv> w\<lparr>ticks := Suc (ticks w),
                    wfs := snd (os_makedirs (wfs w) (output_dir_path proc (clock w (ticks w))))\<rparr>"
  shows "w' = w2 \<or> (\<exists>c x. subprocess_run tool c 300 w2 = (x, w'))"
proof -
  obtain r1 fs1 where md: "os_makedirs (wfs w) (output_dir_path proc (clock w (ticks w))) = (r1, fs1)"
    by fastforce
  have w2: "w2 = w\<lparr>ticks := Suc (ticks w), wfs := fs1\<rparr>" using md by (simp add: w2_def)
  show ?thesis
  proof (cases r1)
    case (Inl e)
    then show ?thesis
      using assms(1) md w2 by (simp add: remove_vocals_serverless_def now_def)
  next
    case (Inr u)
    show ?thesis
    proof (cases "str_items 0 (demucs_command proc m (output_dir_path proc (clock w (ticks w))) ip)")
      case (Inl e)
      then show ?thesis
        using assms(1) md w2 \<open>r1 = Inr u\<close> by (simp add: remove_vocals_serverless_def now_def)
    next
      case (Inr c)
      obtain x w3 where run: "subprocess_run tool c 300 w2 = (x, w3)" by fastforce
      have "w' = w3"
        using assms(1) md w2 \<open>r1 = Inr u\<close> Inr run
        by (simp add: remove_vocals_serverless_def now_def split: sum.splits prod.splits if_splits list.splits)
      then show ?thesis using run by blast
    qed
  qed
qed

lemma remove_vocals_frame:
  assumes rv: "remove_vocals_serverless proc tool ip m w = (r, w')"
  shows "frame w w' \<and> (tool_keeps_wf tool \<longrightarrow> keeps_wf w w')"
proof -
  obtain r1 fs1 where md: "os_makedirs (wfs w) (output_dir_path proc (clock w (ticks w))) = (r1, fs1)"
    by fastforce
  let ?w2 = "w\<lparr>ticks := Suc (ticks w), wfs := fs1\<rparr>"
  have f2: "frame w ?w2 \<and> keeps_wf w ?w2"
    using os_makedirs_wf [OF _ md] by (simp add: frame_def keeps_wf_def)
  have "w' = ?w2 \<or> (\<exists>c x. subprocess_run tool c 300 ?w2 = (x, w'))"
    using remove_vocals_world [OF rv] md by simp
  then show ?thesis
  proof
    assume "w' = ?w2"
    then show ?thesis using f2 by simp
  next
    assume "\<exists>c x. subprocess_run tool c 300 ?w2 = (x, w')"
    then obtain c x where run: "subprocess_run tool c 300 ?w2 = (x, w')" by blast
    then show ?thesis
      using f2 frame_trans [OF _ subprocess_run_frame [OF run]]
        keeps_wf_trans [OF _ subprocess_run_wf [OF _ run]] by blast
  qed
qed

text \<open>The scratch root used in the examples below, with the output directory of a job
  started at the epoch created in it.\<close>

lemma makedirs_at_epoch:
  "os_makedirs [([''tmp''], Dir), ([''tmp'', ''vocal_removal''], Dir)]
     (output_dir_path \<lparr>temp_dir = ''/tmp/vocal_removal'', device = ''cpu''\<rparr> 0) =
    (Inr (), [([''tmp''], Dir), ([''tmp'', ''vocal_removal''], Dir), ([''tmp'', ''vocal_removal'', output_dir_name 0], Dir)])"
  by code_simp

subsection \<open>The exits of the invoker\<close>

text \<open>C6: when the output directory could be made and the tool exits with a non-zero
  status, \<open>remove_vocals_serverless\<close> raises \<open>RuntimeError\<close> carrying the tool's
  standard error, after exactly one run of the fixed command line; no output search
  happens and whatever the tool left in the file system stays there.\<close>

theorem remove_vocals_nonzero_exit:
  assumes "os_makedirs (wfs w) (output_dir_path proc (clock w (ticks w))) = (Inr (), fs1)"
    and "cmd = map py_str (demucs_command proc (JStr m) (output_dir_path proc (clock w (ticks w))) ip)"
    and "tool cmd fs1 = Completed rc out err fs2" and "rc \<noteq> 0"
  shows "remove_vocals_serverless proc tool ip (JStr m) w =
    (Inl (RuntimeError (''Demucs processing failed: '' @ err)),
     w\<lparr>ticks := Suc (ticks w), wfs := fs2, runs := runs w @ [cmd]\<rparr>)"
  using remove_vocals_ran [OF assms(1,2), of tool] assms(3,4) by simp

theorem remove_vocals_nonzero_exit_witness:
  "remove_vocals_serverless \<lparr>temp_dir = ''/tmp/vocal_removal'', device = ''cpu''\<rparr>
     (\<lambda>cmd fs. Completed 1 [] ''boom'' fs) ''/tmp/vocal_removal/in.wav'' (JStr ''htdemucs_ft'')
     \<lparr>wfs = [([''tmp''], Dir), ([''tmp'', ''vocal_removal''], Dir)], clock = (\<lambda>_. 0), ticks = 0, runs = []\<rparr> =
   (Inl (RuntimeError ''Demucs processing failed: boom''),
    \<lparr>wfs = [([''tmp''], Dir), ([''tmp'', ''vocal_removal''], Dir),
            ([''tmp'', ''vocal_removal'', output_dir_name 0], Dir)],
     clock = (\<lambda>_. 0), ticks = 1,
     runs = [map py_str (demucs_command \<lparr>temp_dir = ''/tmp/vocal_removal'', device = ''cpu''\<rparr>
               (JStr ''htdemucs_ft'') (output_dir_path \<lparr>temp_dir = ''/tmp/vocal_removal'', device = ''cpu''\<rparr> 0)
               ''/tmp/vocal_removal/in.wav'')]\<rparr>)"
  using remove_vocals_nonzero_exit [of "\<lparr>wfs = [([''tmp''], Dir), ([''tmp'', ''vocal_removal''], Dir)], clock = (\<lambda>_. 0), ticks = 0, runs = []\<rparr>"
    "\<lparr>temp_dir = ''/tmp/vocal_removal'', device = ''cpu''\<rparr>" _ _ "''htdemucs_ft''" "''/tmp/vocal_removal/in.wav''"
    "\<lambda>cmd fs. Completed 1 [] ''boom'' fs"] makedirs_at_epoch
  by simp

text \<open>C13: when the tool runs past the 300-second bound, the invoker raises
  \<open>TimeoutExpired\<close> for that command line and that bound; the output directory and
  anything the tool wrote before it was killed stay.\<close>

theorem remove_vocals_timeout:
  assumes "os_makedirs (wfs w) (output_dir_path proc (clock w (ticks w))) = (Inr (), fs1)"
    and "cmd = map py_str (demucs_command proc (JStr m) (output_dir_path proc (clock w (ticks w))) ip)"
    and "tool cmd fs1 = Timed_out fs2"
  shows "remove_vocals_serverless proc tool ip (JStr m) w =
    (Inl (TimeoutExpired cmd 300), w\<lparr>ticks := Suc (ticks w), wfs := fs2, runs := runs w @ [cmd]\<rparr>)"
  using remove_vocals_ran [OF assms(1,2), of tool] assms(3) by simp

theorem remove_vocals_timeout_witness:
  "remove_vocals_serverless \<lparr>temp_dir = ''/tmp/vocal_removal'', device = ''cpu''\<rparr> (\<lambda>cmd fs. Timed_out fs) ''/tmp/vocal_removal/in.wav'' (JStr ''htdemucs_ft'')
     \<lparr>wfs = [([''tmp''], Dir), ([''tmp'', ''vocal_removal''], Dir)], clock = (\<lambda>_. 0), ticks = 0, runs = []\<rparr> =
   (Inl (TimeoutExpired (map py_str (demucs_command \<lparr>temp_dir = ''/tmp/vocal_removal'', device = ''cpu''\<rparr> (JStr ''htdemucs_ft'') (output_dir_path \<lparr>temp_dir = ''/tmp/vocal_removal'', device = ''cpu''\<rparr> 0)
            ''/tmp/vocal_removal/in.wav'')) 300),
    \<lparr>wfs = [([''tmp''], Dir), ([''tmp'', ''vocal_removal''], Dir), ([''tmp'', ''vocal_removal'', output_dir_name 0], Dir)], clock = (\<lambda>_. 0), ticks = 1,
     runs = [map py_str (demucs_command \<lparr>temp_dir = ''/tmp/vocal_removal'', device = ''cpu''\<rparr> (JStr ''htdemucs_ft'') (output_dir_path \<lparr>temp_dir = ''/tmp/vocal_removal'', device = ''cpu''\<rparr> 0)
               ''/tmp/vocal_removal/in.wav'')]\<rparr>)"
  using remove_vocals_timeout [of "\<lparr>wfs = [([''tmp''], Dir), ([''tmp'', ''vocal_removal''], Dir)], clock = (\<lambda>_. 0), ticks = 0, runs = []\<rparr>" "\<lparr>temp_dir = ''/tmp/vocal_removal'', device = ''cpu''\<rparr>" _ _ "''htdemucs_ft''" "''/tmp/vocal_removal/in.wav''"
    "\<lambda>cmd fs. Timed_out fs"] makedirs_at_epoch
  by simp

text \<open>C16: a \<open>method\<close> that is not a string fails only at the log line that joins
  the command: \<open>TypeError\<close> for item 6 of the command, raised after the output
  directory was created and before any command was run.\<close>

theorem remove_vocals_method_not_str:
  assumes "os_makedirs (wfs w) (output_dir_path proc (clock w (ticks w))) = (Inr (), fs1)"
  shows "remove_vocals_serverless proc tool ip (JInt i) w =
    (Inl (TypeError ''sequence item 6: expected str instance, int found''),
     w\<lparr>ticks := Suc (ticks w), wfs := fs1\<rparr>)"
proof -
  have "nat_str (Suc (Suc (Suc (Suc (Suc (Suc 0)))))) = ''6''"
    by code_simp
  then show ?thesis
    using assms by (simp add: remove_vocals_serverless_def now_def demucs_command_def)
qed

theorem remove_vocals_method_not_str_witness:
  "remove_vocals_serverless \<lparr>temp_dir = ''/tmp/vocal_removal'', device = ''cpu''\<rparr> (\<lambda>cmd fs. Timed_out fs) ''/tmp/vocal_removal/in.wav'' (JInt 4)
     \<lparr>wfs = [([''tmp''], Dir), ([''tmp'', ''vocal_removal''], Dir)], clock = (\<lambda>_. 0), ticks = 0, runs = []\<rparr> =
   (Inl (TypeError ''sequence item 6: expected str instance, int found''),
    \<lparr>wfs = [([''tmp''], Dir), ([''tmp'', ''vocal_removal''], Dir), ([''tmp'', ''vocal_removal'', output_dir_name 0], Dir)], clock = (\<lambda>_. 0), ticks = 1, runs = []\<rparr>)"
  using remove_vocals_method_not_str [of "\<lparr>wfs = [([''tmp''], Dir), ([''tmp'', ''vocal_removal''], Dir)], clock = (\<lambda>_. 0), ticks = 0, runs = []\<rparr>" "\<lparr>temp_dir = ''/tmp/vocal_removal'', device = ''cpu''\<rparr>" _ "\<lambda>cmd fs. Timed_out fs" "''/tmp/vocal_removal/in.wav''" 4] makedirs_at_epoch
  by simp

text \<open>C14: the tool exits with status 0 but no entry of the file system it leaves has a
  name matching \<open>no_vocals.*\<close>: neither the documented layout nor the recursive
  fallback finds anything, and the invoker raises \<open>RuntimeError\<close> with
  \<open>Could not find Demucs output file\<close>.\<close>

theorem remove_vocals_output_not_found:
  assumes "os_makedirs (wfs w) (output_dir_path proc (clock w (ticks w))) = (Inr (), fs1)"
    and "cmd = map py_str (demucs_command proc (JStr m) (output_dir_path proc (clock w (ticks w))) ip)"
    and "tool cmd fs1 = Completed 0 out err fs2" and "temp_dir proc \<noteq> []"
    and "\<forall>(q, n) \<in> set fs2. q \<noteq> [] \<longrightarrow> \<not> fnmatch (last q) ''no_vocals.*''"
  shows "remove_vocals_serverless proc tool ip (JStr m) w =
    (Inl (RuntimeError ''Could not find Demucs output file''),
     w\<lparr>ticks := Suc (ticks w), wfs := fs2, runs := runs w @ [cmd]\<rparr>)"
proof -
  have "output_dir_path proc (clock w (ticks w)) \<noteq> []"
    using path_join_nonempty [OF assms(4)] by (simp add: output_dir_path_def del: path_join.simps)
  then have "find_output fs2 (output_dir_path proc (clock w (ticks w))) m ip = []"
    using find_output_no_match assms(5) by blast
  then show ?thesis
    using remove_vocals_ran [OF assms(1,2), of tool] assms(3) by simp
qed

theorem remove_vocals_output_not_found_witness:
  "remove_vocals_serverless \<lparr>temp_dir = ''/tmp/vocal_removal'', device = ''cpu''\<rparr> (\<lambda>c fs. Completed 0 [] [] fs) ''/tmp/vocal_removal/in.wav'' (JStr ''htdemucs_ft'')
     \<lparr>wfs = [([''tmp''], Dir), ([''tmp'', ''vocal_removal''], Dir)], clock = (\<lambda>_. 0), ticks = 0, runs = []\<rparr> =
   (Inl (RuntimeError ''Could not find Demucs output file''),
    \<lparr>wfs = [([''tmp''], Dir), ([''tmp'', ''vocal_removal''], Dir), ([''tmp'', ''vocal_removal'', output_dir_name 0], Dir)], clock = (\<lambda>_. 0), ticks = 1, runs = [(map py_str (demucs_command \<lparr>temp_dir = ''/tmp/vocal_removal'', device = ''cpu''\<rparr> (JStr ''htdemucs_ft'') (output_dir_path \<lparr>temp_dir = ''/tmp/vocal_removal'', device = ''cpu''\<rparr> 0) ''/tmp/vocal_removal/in.wav''))]\<rparr>)"
proof -
  have none: "\<forall>(q, n) \<in> set [([''tmp''], Dir), ([''tmp'', ''vocal_removal''], Dir), ([''tmp'', ''vocal_removal'', output_dir_name 0], Dir)]. q \<noteq> [] \<longrightarrow> \<not> fnmatch (last q) ''no_vocals.*''"
    by code_simp
  show ?thesis
    using remove_vocals_output_not_found [of "\<lparr>wfs = [([''tmp''], Dir), ([''tmp'', ''vocal_removal''], Dir)], clock = (\<lambda>_. 0), ticks = 0, runs = []\<rparr>" "\<lparr>temp_dir = ''/tmp/vocal_removal'', device = ''cpu''\<rparr>" _ "(map py_str (demucs_command \<lparr>temp_dir = ''/tmp/vocal_removal'', device = ''cpu''\<rparr> (JStr ''htdemucs_ft'') (output_dir_path \<lparr>temp_dir = ''/tmp/vocal_removal'', device = ''cpu''\<rparr> 0) ''/tmp/vocal_removal/in.wav''))" "''htdemucs_ft''" "''/tmp/vocal_removal/in.wav''"
      "\<lambda>c fs. Completed 0 [] [] fs" "[]" "[]" "[([''tmp''], Dir), ([''tmp'', ''vocal_removal''], Dir), ([''tmp'', ''vocal_removal'', output_dir_name 0], Dir)]" ] makedirs_at_epoch none
    by simp
qed

subsection \<open>A result anywhere below the output directory\<close>

text \<open>C12: a tool that exits with status 0 after writing a \<open>no_vocals.*\<close> file anywhere
  below the output directory, through directories whose names do not start with a dot,
  never meets \<open>Could not find Demucs output file\<close>: if the documented location holds
  nothing, the recursive fallback pattern finds the file, and the method returns a
  path after its one run of the tool.\<close>

theorem remove_vocals_finds_output:
  assumes md: "os_makedirs (wfs w) (output_dir_path proc (clock w (ticks w))) = (Inr (), fs1)"
    and cmd: "cmd = map py_str (demucs_command proc (JStr m) (output_dir_path proc (clock w (ticks w))) ip)"
    and run: "tool cmd fs1 = Completed 0 out err fs2"
    and wf: "fs_wf fs2" and ro: "resolve fs2 (output_dir_path proc (clock w (ticks w))) = Inr qo"
    and qo: "lookup fs2 qo = Some Dir"
    and od: "output_dir_path proc (clock w (ticks w)) \<noteq> []" "last (output_dir_path proc (clock w (ticks w))) \<noteq> sep"
      "\<not> has_magic (output_dir_path proc (clock w (ticks w)))"
    and fx: "lookup fs2 (qo @ rel @ [x]) = Some (File b)"
    and vis: "list_all (\<lambda>c. \<not> is_hidden c) rel" "\<not> is_hidden x" and x: "fnmatch x ''no_vocals.*''"
  shows "\<exists>p. remove_vocals_serverless proc tool ip (JStr m) w =
           (Inr p, w\<lparr>ticks := Suc (ticks w), wfs := fs2, runs := runs w @ [cmd]\<rparr>)"
proof -
  obtain p ps where "find_output fs2 (output_dir_path proc (clock w (ticks w))) m ip = p # ps"
    using find_output_finds_below [OF wf ro qo od fx vis x] by (cases "find_output fs2 (output_dir_path proc (clock w (ticks w))) m ip") auto
  then show ?thesis
    using remove_vocals_ran [OF md cmd, of tool] run by simp
qed

theorem remove_vocals_finds_output_witness:
  "\<exists>p. remove_vocals_serverless \<lparr>temp_dir = ''/tmp/vocal_removal'', device = ''cpu''\<rparr> (\<lambda>c fs. Completed 0 [] [] (fs @ [([''tmp'', ''vocal_removal'', ''demucs_output_19700101_000000'', ''htdemucs''], Dir), ([''tmp'', ''vocal_removal'', ''demucs_output_19700101_000000'', ''htdemucs'', ''no_vocals.mp3''], File [1])])) ''/tmp/vocal_removal/in.wav'' (JStr ''htdemucs'') \<lparr>wfs = [([''tmp''], Dir), ([''tmp'', ''vocal_removal''], Dir)], clock = (\<lambda>_. 0), ticks = 0, runs = []\<rparr> =
     (Inr p, \<lparr>wfs = [([''tmp''], Dir), ([''tmp'', ''vocal_removal''], Dir)], clock = (\<lambda>_. 0), ticks = 0, runs = []\<rparr>\<lparr>ticks := Suc 0, wfs := [([''tmp''], Dir), ([''tmp'', ''vocal_removal''], Dir), ([''tmp'', ''vocal_removal'', ''demucs_output_19700101_000000''], Dir), ([''tmp'', ''vocal_removal'', ''demucs_output_19700101_000000'', ''htdemucs''], Dir), ([''tmp'', ''vocal_removal'', ''demucs_output_19700101_000000'', ''htdemucs'', ''no_vocals.mp3''], File [1])], runs := [map py_str (demucs_command \<lparr>temp_dir = ''/tmp/vocal_removal'', device = ''cpu''\<rparr> (JStr ''htdemucs'') ''/tmp/vocal_removal/demucs_output_19700101_000000'' ''/tmp/vocal_removal/in.wav'')]\<rparr>)"
proof -
  have od0: "output_dir_name 0 = ''demucs_output_19700101_000000''"
    by code_simp
  have op0: "output_dir_path \<lparr>temp_dir = ''/tmp/vocal_removal'', device = ''cpu''\<rparr> 0 = ''/tmp/vocal_removal/demucs_output_19700101_000000''"
    by (simp add: output_dir_path_def od0 sep_def)
  have md: "os_makedirs [([''tmp''], Dir), ([''tmp'', ''vocal_removal''], Dir)] ''/tmp/vocal_removal/demucs_output_19700101_000000'' = (Inr (), [([''tmp''], Dir), ([''tmp'', ''vocal_removal''], Dir), ([''tmp'', ''vocal_removal'', ''demucs_output_19700101_000000''], Dir)])"
    using makedirs_at_epoch by (simp only: op0 od0)
  have h: "fs_wf [([''tmp''], Dir), ([''tmp'', ''vocal_removal''], Dir), ([''tmp'', ''vocal_removal'', ''demucs_output_19700101_000000''], Dir), ([''tmp'', ''vocal_removal'', ''demucs_output_19700101_000000'', ''htdemucs''], Dir), ([''tmp'', ''vocal_removal'', ''demucs_output_19700101_000000'', ''htdemucs'', ''no_vocals.mp3''], File [1])]" "resolve [([''tmp''], Dir), ([''tmp'', ''vocal_removal''], Dir), ([''tmp'', ''vocal_removal'', ''demucs_output_19700101_000000''], Dir), ([''tmp'', ''vocal_removal'', ''demucs_output_19700101_000000'', ''htdemucs''], Dir), ([''tmp'', ''vocal_removal'', ''demucs_output_19700101_000000'', ''htdemucs'', ''no_vocals.mp3''], File [1])] ''/tmp/vocal_removal/demucs_output_19700101_000000'' = Inr [''tmp'', ''vocal_removal'', ''demucs_output_19700101_000000'']"
    "lookup [([''tmp''], Dir), ([''tmp'', ''vocal_removal''], Dir), ([''tmp'', ''vocal_removal'', ''demucs_output_19700101_000000''], Dir), ([''tmp'', ''vocal_removal'', ''demucs_output_19700101_000000'', ''htdemucs''], Dir), ([''tmp'', ''vocal_removal'', ''demucs_output_19700101_000000'', ''htdemucs'', ''no_vocals.mp3''], File [1])] [''tmp'', ''vocal_removal'', ''demucs_output_19700101_000000''] = Some Dir"
    "''/tmp/vocal_removal/demucs_output_19700101_000000'' \<noteq> []" "last ''/tmp/vocal_removal/demucs_output_19700101_000000'' \<noteq> sep" "\<not> has_magic ''/tmp/vocal_removal/demucs_output_19700101_000000''"
    "lookup [([''tmp''], Dir), ([''tmp'', ''vocal_removal''], Dir), ([''tmp'', ''vocal_removal'', ''demucs_output_19700101_000000''], Dir), ([''tmp'', ''vocal_removal'', ''demucs_output_19700101_000000'', ''htdemucs''], Dir), ([''tmp'', ''vocal_removal'', ''demucs_output_19700101_000000'', ''htdemucs'', ''no_vocals.mp3''], File [1])] ([''tmp'', ''vocal_removal'', ''demucs_output_19700101_000000''] @ [''htdemucs''] @ [''no_vocals.mp3'']) = Some (File [1])"
    "list_all (\<lambda>c. \<not> is_hidden c) [''htdemucs'']" "\<not> is_hidden ''no_vocals.mp3''" "fnmatch ''no_vocals.mp3'' ''no_vocals.*''"
    by code_simp+
  show ?thesis
    using remove_vocals_finds_output [of "\<lparr>wfs = [([''tmp''], Dir), ([''tmp'', ''vocal_removal''], Dir)], clock = (\<lambda>_. 0), ticks = 0, runs = []\<rparr>" "\<lparr>temp_dir = ''/tmp/vocal_removal'', device = ''cpu''\<rparr>" "[([''tmp''], Dir), ([''tmp'', ''vocal_removal''], Dir), ([''tmp'', ''vocal_removal'', ''demucs_output_19700101_000000''], Dir)]" "map py_str (demucs_command \<lparr>temp_dir = ''/tmp/vocal_removal'', device = ''cpu''\<rparr> (JStr ''htdemucs'') ''/tmp/vocal_removal/demucs_output_19700101_000000'' ''/tmp/vocal_removal/in.wav'')" "''htdemucs''" "''/tmp/vocal_removal/in.wav''"
        "(\<lambda>c fs. Completed 0 [] [] (fs @ [([''tmp'', ''vocal_removal'', ''demucs_output_19700101_000000'', ''htdemucs''], Dir), ([''tmp'', ''vocal_removal'', ''demucs_output_19700101_000000'', ''htdemucs'', ''no_vocals.mp3''], File [1])]))" "[]" "[]" "[([''tmp''], Dir), ([''tmp'', ''vocal_removal''], Dir), ([''tmp'', ''vocal_removal'', ''demucs_output_19700101_000000''], Dir), ([''tmp'', ''vocal_removal'', ''demucs_output_19700101_000000'', ''htdemucs''], Dir), ([''tmp'', ''vocal_removal'', ''demucs_output_19700101_000000'', ''htdemucs'', ''no_vocals.mp3''], File [1])]" "[''tmp'', ''vocal_removal'', ''demucs_output_19700101_000000'']" "[''htdemucs'']" "''no_vocals.mp3''" "[1]"]
      md h
    by (simp add: op0)
qed

end
