(* ===== verification/Workspace.thy ===== *)
theory Workspace
  imports World
begin

text \<open>
  The temp workspace of src/handler.py: \<open>cleanup_files\<close>, which removes files and
  directory trees and swallows every error.
\<close>

subsection \<open>Temp workspace cleanup\<close>

text \<open>One path of \<open>cleanup_files\<close>: a file is removed, a directory removed with all
  it holds, a missing path skipped; every error is swallowed.\<close>

definition cleanup_one :: "fs \<Rightarrow> string \<Rightarrow> fs" where
  "cleanup_one fs p =
     (if os_path_exists fs p then
        (if os_path_isfile fs p then (case os_remove fs p of Inl _ \<Rightarrow> fs | Inr fs' \<Rightarrow> fs')
         else if os_path_isdir fs p then (case shutil_rmtree fs p of Inl _ \<Rightarrow> fs | Inr fs' \<Rightarrow> fs')
         else fs)
      else fs)"

definition cleanup_files :: "string list \<Rightarrow> fs \<Rightarrow> fs" where
  "cleanup_files ps fs = fold (\<lambda>p fs. cleanup_one fs p) ps fs"

subsection \<open>What cleanup releases\<close>

lemma cleanup_one_removes:
  assumes "resolve fs p = Inr q" and "q \<noteq> []"
  shows "\<not> os_path_exists (cleanup_one fs p) p"
proof (cases "lookup fs q")
  case None
  then show ?thesis
    using assms by (simp add: cleanup_one_def os_path_exists_def)
next
  case (Some n)
  show ?thesis
  proof (cases n)
    case (File b)
    let ?fs' = "filter (\<lambda>(r, n). r \<noteq> q) fs"
    have "cleanup_one fs p = ?fs'"
      using assms Some File
      by (simp add: cleanup_one_def os_path_exists_def os_path_isfile_def os_remove_def)
    moreover have "lookup ?fs' q = None"
      using assms(2) by (simp add: lookup_filter)
    ultimately show ?thesis
      using resolve_filter [of "\<lambda>r. r \<noteq> q" fs p] assms(1)
      by (auto simp: os_path_exists_def split: sum.split)
  next
    case Dir
    let ?fs' = "filter (\<lambda>(r, n). \<not> prefix q r) fs"
    have "cleanup_one fs p = ?fs'"
      using assms Some Dir
      by (simp add: cleanup_one_def os_path_exists_def os_path_isfile_def os_path_isdir_def
          shutil_rmtree_def fs_del_tree_def)
    moreover have "lookup ?fs' q = None"
      using assms(2) by (simp add: lookup_filter)
    ultimately show ?thesis
      using resolve_filter [of "\<lambda>r. \<not> prefix q r" fs p] assms(1)
      by (auto simp: os_path_exists_def split: sum.split)
  qed
qed

lemma cleanup_one_filter: "\<exists>P. cleanup_one fs p = filter (\<lambda>(r, n). P r) fs"
proof (cases "resolve fs p")
  case (Inl e)
  then have "cleanup_one fs p = fs" by (simp add: cleanup_one_def os_path_exists_def)
  then show ?thesis using ex_filter_id by metis
next
  case (Inr q)
  show ?thesis
  proof (cases "lookup fs q")
    case None
    then have "cleanup_one fs p = fs" using Inr by (simp add: cleanup_one_def os_path_exists_def)
    then show ?thesis using ex_filter_id by metis
  next
    case (Some n)
    show ?thesis
    proof (cases n)
      case (File b)
      then have "cleanup_one fs p = filter (\<lambda>(r, n). r \<noteq> q) fs"
        using Inr Some by (simp add: cleanup_one_def os_path_exists_def os_path_isfile_def os_remove_def)
      then show ?thesis by (intro exI [of _ "\<lambda>r. r \<noteq> q"])
    next
      case Dir
      then have "cleanup_one fs p = filter (\<lambda>(r, n). \<not> prefix q r) fs"
        using Inr Some by (simp add: cleanup_one_def os_path_exists_def os_path_isfile_def
            os_path_isdir_def shutil_rmtree_def fs_del_tree_def)
      then show ?thesis by (intro exI [of _ "\<lambda>r. \<not> prefix q r"])
    qed
  qed
qed

lemma cleanup_files_filter: "\<exists>P. cleanup_files ps fs = filter (\<lambda>(r, n). P r) fs"
proof (induction ps arbitrary: fs)
  case Nil
  then show ?case using ex_filter_id by (simp add: cleanup_files_def)
next
  case (Cons p ps)
  obtain P where P: "cleanup_one fs p = filter (\<lambda>(r, n). P r) fs"
    using cleanup_one_filter by blast
  obtain Q where Q: "cleanup_files ps (cleanup_one fs p) = filter (\<lambda>(r, n). Q r) (cleanup_one fs p)"
    using Cons.IH by blast
  have "cleanup_files (p # ps) fs = filter (\<lambda>x. P (fst x) \<and> Q (fst x)) fs"
    using P Q by (simp add: cleanup_files_def case_prod_beta)
  moreover have "filter (\<lambda>x. P (fst x) \<and> Q (fst x)) fs = filter (\<lambda>(r, n). P r \<and> Q r) fs"
    by (simp add: split_def)
  ultimately show ?case
    by (intro exI [of _ "\<lambda>r. P r \<and> Q r"]) simp
qed

text \<open>C17: \<open>cleanup_files\<close> releases every path it is given, as the spec's
  \<open>release(*paths)\<close> promises: after it, none of the paths exists, whether it was a
  file, a directory tree or missing, and no error escapes.  The one exception is a
  path that names the root directory itself, which \<open>rmtree\<close> empties but cannot
  remove.\<close>

theorem cleanup_files_releases:
  assumes "\<forall>p \<in> set ps. resolve fs p \<noteq> Inr []"
  shows "\<forall>p \<in> set ps. \<not> os_path_exists (cleanup_files ps fs) p"
  using assms
proof (induction ps arbitrary: fs)
  case Nil
  then show ?case by simp
next
  case (Cons p ps)
  have step: "cleanup_files (p # ps) fs = cleanup_files ps (cleanup_one fs p)"
    by (simp add: cleanup_files_def)
  have gone: "\<not> os_path_exists (cleanup_one fs p) p"
  proof (cases "resolve fs p")
    case (Inl e)
    then show ?thesis by (simp add: cleanup_one_def os_path_exists_def)
  next
    case (Inr q)
    then show ?thesis using Cons.prems cleanup_one_removes by auto
  qed
  have "\<not> os_path_exists (cleanup_files ps (cleanup_one fs p)) p"
    using gone cleanup_files_filter [of ps "cleanup_one fs p"] exists_filter by metis
  moreover have "\<forall>p' \<in> set ps. resolve (cleanup_one fs p) p' \<noteq> Inr []"
    using Cons.prems cleanup_one_filter [of fs p] resolve_filter by (metis list.set_intros(2))
  ultimately show ?case
    using Cons.IH step by simp
qed

theorem cleanup_files_releases_witness:
  "\<not> os_path_exists (cleanup_files [''/tmp/a'', ''/tmp/d'', ''/tmp/missing''] [([''tmp''], Dir), ([''tmp'', ''a''], File [1]), ([''tmp'', ''d''], Dir), ([''tmp'', ''d'', ''f''], File [2])]) ''/tmp/a'' \<and>
   \<not> os_path_exists (cleanup_files [''/tmp/a'', ''/tmp/d'', ''/tmp/missing''] [([''tmp''], Dir), ([''tmp'', ''a''], File [1]), ([''tmp'', ''d''], Dir), ([''tmp'', ''d'', ''f''], File [2])]) ''/tmp/d'' \<and>
   \<not> os_path_exists (cleanup_files [''/tmp/a'', ''/tmp/d'', ''/tmp/missing''] [([''tmp''], Dir), ([''tmp'', ''a''], File [1]), ([''tmp'', ''d''], Dir), ([''tmp'', ''d'', ''f''], File [2])]) ''/tmp/missing''"
proof -
  have "\<forall>p \<in> set [''/tmp/a'', ''/tmp/d'', ''/tmp/missing'']. resolve [([''tmp''], Dir), ([''tmp'', ''a''], File [1]), ([''tmp'', ''d''], Dir), ([''tmp'', ''d'', ''f''], File [2])] p \<noteq> Inr []"
    by code_simp
  then show ?thesis
    using cleanup_files_releases [of "[''/tmp/a'', ''/tmp/d'', ''/tmp/missing'']" "[([''tmp''], Dir), ([''tmp'', ''a''], File [1]), ([''tmp'', ''d''], Dir), ([''tmp'', ''d'', ''f''], File [2])]"] by simp
qed

subsection \<open>Cleanup after a separation\<close>

text \<open>What \<open>cleanup_files(input_path, dirname(output_path))\<close> leaves of a job's files
  when the output is in the documented layout: the output directory and the model
  directory.\<close>

lemma cleanup_after_layout:
  assumes wf: "fs_wf fs" and r: "resolve fs d0 = Inr q" and q: "lookup fs q = Some Dir"
    and a: "lookup fs (q @ [a]) = None" and od: "lookup fs (q @ [od]) = None" and ao: "a \<noteq> od"
    and v: "valid_name a" "valid_name od" "valid_name m" "valid_name s"
  shows "cleanup_files [d0 @ sep # a, d0 @ sep # od @ sep # m @ sep # s]
           (fs @ [(q @ [a], File b), (q @ [od], Dir), (q @ [od, m], Dir), (q @ [od, m, s], Dir),
                  (q @ [od, m, s, x], File res)]) =
         fs @ [(q @ [od], Dir), (q @ [od, m], Dir)]"
proof -
  let ?F = "fs @ [(q @ [a], File b), (q @ [od], Dir), (q @ [od, m], Dir), (q @ [od, m, s], Dir),
                  (q @ [od, m, s, x], File res)]"
  let ?G = "fs @ [(q @ [od], Dir), (q @ [od, m], Dir), (q @ [od, m, s], Dir), (q @ [od, m, s, x], File res)]"
  have om: "lookup fs (q @ [od, m]) = None" "lookup fs (q @ [od, m, s]) = None"
    using missing_below [OF wf od, of "[m]"] missing_below [OF wf od, of "[m, s]"] by simp_all
  have ne: "q @ [a] \<noteq> []" "q @ [od] \<noteq> []" by simp_all
  have lF: "lookup ?F (q @ [a]) = Some (File b)" "lookup ?F (q @ [od]) = Some Dir"
      "lookup ?F (q @ [od, m]) = Some Dir" "lookup ?F (q @ [od, m, s]) = Some Dir"
    using a od om ao not_sym [OF ao] by (simp_all add: lookup_append)
  have lG: "lookup ?G (q @ [od]) = Some Dir" "lookup ?G (q @ [od, m]) = Some Dir"
      "lookup ?G (q @ [od, m, s]) = Some Dir"
    using od om by (simp_all add: lookup_append)
  have rF: "resolve ?F (d0 @ sep # a) = Inr (q @ [a])"
    using resolve_child [OF resolve_append [OF r q] lookup_keeps_dir [OF q] v(1)] by simp
  have rm: "os_remove ?F (d0 @ sep # a) = Inr ?G"
  proof -
    have "filter (\<lambda>(r, n). r \<noteq> q @ [a]) fs = fs"
      using a by (force simp: filter_id_conv lookup_def map_of_eq_None_iff)
    then show ?thesis
      using rF lF ao by (simp add: os_remove_def)
  qed
  have step1: "cleanup_one ?F (d0 @ sep # a) = ?G"
    using rF lF rm by (simp add: cleanup_one_def os_path_exists_def os_path_isfile_def)
  have rG: "resolve ?G (d0 @ sep # od @ sep # m @ sep # s) = Inr (q @ [od, m, s])"
  proof -
    have B: "resolve ?G (d0 @ sep # od) = Inr (q @ [od])"
      using resolve_child [OF resolve_append [OF r q] lookup_keeps_dir [OF q] v(2)] by simp
    have A: "resolve ?G ((d0 @ sep # od) @ sep # m) = Inr (q @ [od, m])"
      using resolve_child [OF B lG(1) v(3)] by simp
    have "resolve ?G (((d0 @ sep # od) @ sep # m) @ sep # s) = Inr (q @ [od, m, s])"
      using resolve_child [OF A lG(2) v(4)] by simp
    then show ?thesis
      by simp
  qed
  have del: "fs_del_tree ?G (q @ [od, m, s]) = fs @ [(q @ [od], Dir), (q @ [od, m], Dir)]"
  proof -
    have "fs_del_tree fs (q @ [od, m, s]) = fs"
      using fs_del_tree_missing [OF wf om(2)] by simp
    then show ?thesis
      by (simp add: fs_del_tree_def)
  qed
  have step2: "cleanup_one ?G (d0 @ sep # od @ sep # m @ sep # s) = fs @ [(q @ [od], Dir), (q @ [od, m], Dir)]"
    using rG lG(3) del
    by (simp add: cleanup_one_def os_path_exists_def os_path_isfile_def os_path_isdir_def shutil_rmtree_def)
  show ?thesis
    using step1 step2 by (simp add: cleanup_files_def)
qed

text \<open>Reading the result file of that layout, and the cleanup of the input file and the
  result's directory.\<close>

lemma layout_read_and_cleanup:
  fixes b r :: bytes
  assumes wf: "fs_wf fs" and rq: "resolve fs d0 = Inr q" and q: "lookup fs q = Some Dir"
    and a: "lookup fs (q @ [a]) = None" and od: "lookup fs (q @ [od]) = None" and ao: "a \<noteq> od"
    and v: "valid_name a" "valid_name od" "valid_name m" "valid_name s" "valid_name x"
  shows "os_read_file (fs @ [(q @ [a], File b), (q @ [od], Dir), (q @ [od, m], Dir), (q @ [od, m, s], Dir),
            (q @ [od, m, s, x], File r)]) (d0 @ sep # od @ sep # m @ sep # s @ sep # x) = Inr r"
    and "cleanup_files [d0 @ sep # a, dirname (d0 @ sep # od @ sep # m @ sep # s @ sep # x)]
          (fs @ [(q @ [a], File b), (q @ [od], Dir), (q @ [od, m], Dir), (q @ [od, m, s], Dir),
            (q @ [od, m, s, x], File r)]) = fs @ [(q @ [od], Dir), (q @ [od, m], Dir)]"
proof -
  note lay = job_layout_lookups [OF wf a od ao, where b = b and m = m and s = s and x = x and r = r]
  show "os_read_file (fs @ [(q @ [a], File b), (q @ [od], Dir), (q @ [od, m], Dir), (q @ [od, m, s], Dir),
            (q @ [od, m, s, x], File r)]) (d0 @ sep # od @ sep # m @ sep # s @ sep # x) = Inr r"
    using resolve_descend [OF resolve_append [OF rq q] lookup_keeps_dir [OF q] lay(1-3) v(2-5)] lay(4)
    by (simp add: os_read_file_def)
  have "dirname (d0 @ sep # od @ sep # m @ sep # s @ sep # x) = d0 @ sep # od @ sep # m @ sep # s"
    using dirname_join [of x "d0 @ sep # od @ sep # m @ sep # s"] v(4,5) valid_name_last [OF v(4)]
    by (simp add: valid_name_def)
  then show "cleanup_files [d0 @ sep # a, dirname (d0 @ sep # od @ sep # m @ sep # s @ sep # x)]
          (fs @ [(q @ [a], File b), (q @ [od], Dir), (q @ [od, m], Dir), (q @ [od, m, s], Dir),
            (q @ [od, m, s, x], File r)]) = fs @ [(q @ [od], Dir), (q @ [od, m], Dir)]"
    using cleanup_after_layout [OF wf rq q a od ao v(1-4), of b x r] by simp
qed

subsection \<open>Cleanup keeps the file system well formed\<close>

lemma cleanup_one_wf [wf_preserve]: "fs_wf fs \<Longrightarrow> fs_wf (cleanup_one fs p)"
proof -
  assume wf: "fs_wf fs"
  have "fs_wf (case os_remove fs p of Inl _ \<Rightarrow> fs | Inr fs' \<Rightarrow> fs')"
    using os_remove_wf [OF wf] wf by (cases "os_remove fs p") simp_all
  moreover have "fs_wf (case shutil_rmtree fs p of Inl _ \<Rightarrow> fs | Inr fs' \<Rightarrow> fs')"
    using shutil_rmtree_wf [OF wf] wf by (cases "shutil_rmtree fs p") simp_all
  ultimately show ?thesis
    using wf by (simp add: cleanup_one_def)
qed

lemma cleanup_files_wf [wf_preserve]: "fs_wf fs \<Longrightarrow> fs_wf (cleanup_files ps fs)"
  by (induction ps arbitrary: fs) (simp_all add: cleanup_files_def cleanup_one_wf)

lemma frame_cleanup:
  "frame w w1 \<Longrightarrow> frame w (w1\<lparr>ticks := Suc (Suc (ticks w1)), wfs := cleanup_files ps (wfs w1)\<rparr>)"
  by (auto simp: frame_def)

lemma keeps_wf_cleanup:
  "keeps_wf w w1 \<Longrightarrow> keeps_wf w (w1\<lparr>ticks := n, wfs := cleanup_files ps (wfs w1)\<rparr>)"
  by (auto simp: keeps_wf_def cleanup_files_wf)

text \<open>A directory survives a cleanup whose path resolves to nothing above or at it.\<close>

lemma cleanup_one_keeps_dir:
  assumes "lookup fs x = Some Dir" and "\<forall>r. resolve fs p = Inr r \<longrightarrow> \<not> prefix r x"
  shows "lookup (cleanup_one fs p) x = Some Dir"
proof (cases "resolve fs p")
  case (Inl e)
  then show ?thesis using assms(1) by (simp add: cleanup_one_def os_path_exists_def)
next
  case (Inr r)
  then have "r \<noteq> x" "\<not> prefix r x" using assms(2) by auto
  then show ?thesis
    using Inr assms(1)
    by (auto simp: cleanup_one_def os_remove_def shutil_rmtree_def fs_del_tree_def lookup_filter
        os_path_isfile_def split: option.splits node.splits)
qed

end
