(* ===== verification/Orchestrator.thy ===== *)
theory Orchestrator
  imports Codec Invoker Workspace
begin

text \<open>
  The job orchestrator, \<open>handler(job)\<close> of src/handler.py: field extraction, the
  early answer when there is no audio, the pipeline, the success response with
  cleanup, and the \<open>except\<close> block that turns every exception into a failure
  response.
\<close>

subsection \<open>Job orchestrator\<close>

datatype response =
    NoAudioResponse
  | SuccessResponse (processed_audio: string) (success_time: int) (method_used: json)
      (gpu_used: string) (output_filename: string) (success_stamp: string)
  | FailureResponse (error_msg: string) (failure_time: int) (failure_stamp: string)

text \<open>The keys of the dictionary each response is, in the source's order.\<close>

fun response_keys :: "response \<Rightarrow> string list" where
  "response_keys NoAudioResponse = [''error'']"
| "response_keys (SuccessResponse _ _ _ _ _ _) =
     [''success'', ''processed_audio'', ''processing_time'', ''method'', ''gpu_used'',
      ''output_filename'', ''timestamp'', ''serverless'']"
| "response_keys (FailureResponse _ _ _) =
     [''success'', ''error'', ''processing_time'', ''timestamp'', ''serverless'']"

text \<open>\<open>os.path.splitext(filename)[0]\<close>, which needs a string.\<close>

fun output_stem :: "json \<Rightarrow> py_exc + string" where
  "output_stem (JStr s) = Inr (fst (splitext s))"
| "output_stem v =
     Inl (TypeError (''expected str, bytes or os.PathLike object, not '' @ py_type_name v))"

text \<open>
  The \<open>try\<close> block of \<open>handler\<close>: it returns a response, or raises an exception; in
  the latter case it also reports whether \<open>input_path\<close> had been assigned, which the
  \<open>except\<close> block reads.  On success the response is built (its \<open>output_filename\<close>
  before its timestamp) and then \<open>cleanup_files(input_path, dirname(output_path))\<close>
  runs.
\<close>

definition handler_try :: "processor \<Rightarrow> tool \<Rightarrow> json \<Rightarrow> timestamp \<Rightarrow> world \<Rightarrow>
    ((py_exc \<times> string option) + response) \<times> world" where
  "handler_try proc tool job start w =
     (case py_get job ''input'' (JDict []) of Inl e \<Rightarrow> (Inl (e, None), w) | Inr job_input \<Rightarrow>
     (case py_get job_input ''audio_data'' JNone of Inl e \<Rightarrow> (Inl (e, None), w) | Inr audio_data \<Rightarrow>
     (case py_get job_input ''filename'' (JStr ''audio.mp3'') of Inl e \<Rightarrow> (Inl (e, None), w) | Inr filename \<Rightarrow>
     (case py_get job_input ''method'' (JStr ''htdemucs_ft'') of Inl e \<Rightarrow> (Inl (e, None), w) | Inr method \<Rightarrow>
     (if \<not> py_truthy audio_data then (Inr NoAudioResponse, w) else
     (case decode_audio_file proc audio_data filename w of
        (Inl e, w1) \<Rightarrow> (Inl (e, None), w1)
      | (Inr input_path, w1) \<Rightarrow>
     (case remove_vocals_serverless proc tool input_path method w1 of
        (Inl e, w2) \<Rightarrow> (Inl (e, Some input_path), w2)
      | (Inr output_path, w2) \<Rightarrow>
     (case encode_audio_file output_path w2 of
        (Inl e, w3) \<Rightarrow> (Inl (e, Some input_path), w3)
      | (Inr result_data, w3) \<Rightarrow>
     (let (t1, w4) = now w3 in
     (case output_stem filename of
        Inl e \<Rightarrow> (Inl (e, Some input_path), w4)
      | Inr stem \<Rightarrow>
     (let (t2, w5) = now w4;
          resp = SuccessResponse result_data (elapsed_us start t1) method (device proc)
                   (stem @ ''_no_vocals.wav'') (isoformat t2)
      in (Inr resp, w5\<lparr>wfs := cleanup_files [input_path, dirname output_path] (wfs w5)\<rparr>))))))))))))"

text \<open>The \<open>except\<close> block: remove the input file if it was written (ignoring any
  error), then report the exception with the elapsed time and a timestamp.\<close>

definition handler :: "processor \<Rightarrow> tool \<Rightarrow> json \<Rightarrow> world \<Rightarrow> response \<times> world" where
  "handler proc tool job w =
     (let (start, w0) = now w in
      case handler_try proc tool job start w0 of
        (Inr resp, w1) \<Rightarrow> (resp, w1)
      | (Inl (e, ip), w1) \<Rightarrow>
          (let w2 = (case ip of
                       Some p \<Rightarrow> (if p \<noteq> [] then
                                   w1\<lparr>wfs := (case os_remove (wfs w1) p of Inl _ \<Rightarrow> wfs w1 | Inr fs' \<Rightarrow> fs')\<rparr>
                                 else w1)
                     | None \<Rightarrow> w1);
               (t, w3) = now w2;
               (t', w4) = now w3
           in (FailureResponse (exc_str e) (elapsed_us start t) (isoformat t'), w4)))"

subsection \<open>Properties of the orchestrator\<close>

text \<open>C5: a job whose input has no (or a falsy) \<open>audio_data\<close> is answered at once with
  the \<open>No audio data provided\<close> response: no file is written, no command is run, and
  only the start-time clock reading is consumed.\<close>

theorem handler_no_audio:
  assumes "py_get job ''input'' (JDict []) = Inr (JDict ikvs)"
    and "\<not> py_truthy (case map_of ikvs ''audio_data'' of None \<Rightarrow> JNone | Some v \<Rightarrow> v)"
  shows "handler proc tool job w = (NoAudioResponse, w\<lparr>ticks := Suc (ticks w)\<rparr>)"
  using assms by (simp add: handler_def handler_try_def now_def)

theorem handler_no_audio_witness:
  "handler \<lparr>temp_dir = ''/tmp/vocal_removal'', device = ''cpu''\<rparr> (\<lambda>cmd fs. Timed_out fs)
     (JDict [(''input'', JDict [(''audio_data'', JStr [])])])
     \<lparr>wfs = [], clock = (\<lambda>n. int n), ticks = 0, runs = []\<rparr> =
   (NoAudioResponse, \<lparr>wfs = [], clock = (\<lambda>n. int n), ticks = 1, runs = []\<rparr>)"
  using handler_no_audio [of "JDict [(''input'', JDict [(''audio_data'', JStr [])])]"
      "[(''audio_data'', JStr [])]" "\<lparr>temp_dir = ''/tmp/vocal_removal'', device = ''cpu''\<rparr>"
      "\<lambda>cmd fs. Timed_out fs" "\<lparr>wfs = [], clock = (\<lambda>n. int n), ticks = 0, runs = []\<rparr>"]
  by simp

subsection \<open>Composition of the stages\<close>

lemma input_output_names_differ:
  "input_name t (JStr name) \<noteq> output_dir_name t'" "output_dir_name t' \<noteq> input_name t (JStr name)"
  by (simp_all add: input_name_def output_dir_name_def)

text \<open>The first two stages of a job with a plain name in a fresh scratch root.\<close>

lemma job_reaches_run:
  assumes sc: "scratch_at (wfs w) proc q" and name: "sep \<notin> set name"
    and fin: "lookup (wfs w) (q @ [input_name (clock w (Suc (ticks w))) (JStr name)]) = None"
    and fout: "lookup (wfs w) (q @ [output_dir_name (clock w (Suc (Suc (ticks w))))]) = None"
  shows "decode_audio_file proc (JStr (b64encode bs)) (JStr name) (w\<lparr>ticks := Suc (ticks w)\<rparr>) =
           (Inr (input_file_path proc (clock w (Suc (ticks w))) (JStr name)),
            w\<lparr>ticks := Suc (Suc (ticks w)),
              wfs := wfs w @ [(q @ [input_name (clock w (Suc (ticks w))) (JStr name)], File bs)]\<rparr>)
         \<and> os_makedirs (wfs w @ [(q @ [input_name (clock w (Suc (ticks w))) (JStr name)], File bs)])
             (output_dir_path proc (clock w (Suc (Suc (ticks w))))) =
           (Inr (), wfs w @ [(q @ [input_name (clock w (Suc (ticks w))) (JStr name)], File bs),
                             (q @ [output_dir_name (clock w (Suc (Suc (ticks w))))], Dir)])"
proof -
  let ?ni = "input_name (clock w (Suc (ticks w))) (JStr name)"
  let ?no = "output_dir_name (clock w (Suc (Suc (ticks w))))"
  let ?fsA = "wfs w @ [(q @ [?ni], File bs)]"
  have put: "fs_put (wfs w) (q @ [?ni]) (File bs) = ?fsA"
    using fin by (simp add: fs_put_def lookup_def map_of_eq_None_iff)
  have dec: "decode_audio_file proc (JStr (b64encode bs)) (JStr name) (w\<lparr>ticks := Suc (ticks w)\<rparr>) =
           (Inr (input_file_path proc (clock w (Suc (ticks w))) (JStr name)),
            w\<lparr>ticks := Suc (Suc (ticks w)), wfs := ?fsA\<rparr>)"
    using decode_audio_file_child [of "w\<lparr>ticks := Suc (ticks w)\<rparr>" proc q name "JStr (b64encode bs)"] sc name fin put
    by (simp add: b64decode_b64encode del: b64decode.simps)
  have new: "lookup ?fsA r = (if r = q @ [?ni] then Some (File bs) else lookup (wfs w) r)" for r
    using fin by (simp add: lookup_append_new)
  have "lookup ?fsA r = Some Dir" if "lookup (wfs w) r = Some Dir" for r
    using that fin new [of r] by auto
  then have scA: "scratch_at ?fsA proc q"
    by (rule scratch_at_keep [OF sc])
  have "lookup ?fsA (q @ [?no]) = None"
    using new fout input_output_names_differ by simp
  then show ?thesis
    using dec output_dir_makedirs [OF scA, of "clock w (Suc (Suc (ticks w)))"] by simp
qed


lemma handler_fails_in_separation:
  assumes "py_truthy a"
    and "decode_audio_file proc a fn (w\<lparr>ticks := Suc (ticks w)\<rparr>) = (Inr ip, w1)" and "ip \<noteq> []"
    and "remove_vocals_serverless proc tool ip m w1 = (Inl e, w2)"
  shows "handler proc tool (JDict [(''input'', JDict [(''audio_data'', a), (''filename'', fn), (''method'', m)])]) w =
    (FailureResponse (exc_str e) (elapsed_us (clock w (ticks w)) (clock w2 (ticks w2)))
       (isoformat (clock w2 (Suc (ticks w2)))),
     w2\<lparr>wfs := (case os_remove (wfs w2) ip of Inl _ \<Rightarrow> wfs w2 | Inr fs' \<Rightarrow> fs'),
        ticks := Suc (Suc (ticks w2))\<rparr>)"
  using assms by (simp add: handler_def handler_try_def now_def)

text \<open>A job whose run fails without touching the file system: the failure response, and
  the file system the job leaves is the one it found plus its output directory.\<close>

lemma job_fails_in_run:
  assumes sc: "scratch_at (wfs w) proc q" and name: "sep \<notin> set name"
    and fin: "lookup (wfs w) (q @ [input_name (clock w (Suc (ticks w))) (JStr name)]) = None"
    and fout: "lookup (wfs w) (q @ [output_dir_name (clock w (Suc (Suc (ticks w))))]) = None"
    and bs: "bs \<noteq> []"
    and cmd: "cmd = map py_str (demucs_command proc (JStr m) (output_dir_path proc (clock w (Suc (Suc (ticks w)))))
                      (input_file_path proc (clock w (Suc (ticks w))) (JStr name)))"
    and run: "\<And>fs1 w1. os_makedirs (wfs w1) (output_dir_path proc (clock w1 (ticks w1))) = (Inr (), fs1) \<Longrightarrow>
               clock w1 = clock w \<Longrightarrow> ticks w1 = Suc (Suc (ticks w)) \<Longrightarrow>
               remove_vocals_serverless proc tool (input_file_path proc (clock w (Suc (ticks w))) (JStr name)) (JStr m) w1 =
               (Inl e, w1\<lparr>ticks := Suc (ticks w1), wfs := fs1, runs := runs w1 @ [cmd]\<rparr>)"
  shows "handler proc tool
           (JDict [(''input'', JDict [(''audio_data'', JStr (b64encode bs)), (''filename'', JStr name), (''method'', JStr m)])]) w =
         (FailureResponse (exc_str e) (elapsed_us (clock w (ticks w)) (clock w (Suc (Suc (Suc (ticks w))))))
            (isoformat (clock w (Suc (Suc (Suc (Suc (ticks w))))))),
          w\<lparr>wfs := wfs w @ [(q @ [output_dir_name (clock w (Suc (Suc (ticks w))))], Dir)],
            ticks := Suc (Suc (Suc (Suc (Suc (ticks w))))), runs := runs w @ [cmd]\<rparr>)"
proof -
  let ?ni = "input_name (clock w (Suc (ticks w))) (JStr name)"
  let ?no = "output_dir_name (clock w (Suc (Suc (ticks w))))"
  let ?ip = "input_file_path proc (clock w (Suc (ticks w))) (JStr name)"
  let ?w1 = "w\<lparr>ticks := Suc (Suc (ticks w)), wfs := wfs w @ [(q @ [?ni], File bs)]\<rparr>"
  let ?fsB = "wfs w @ [(q @ [?ni], File bs), (q @ [?no], Dir)]"
  note stages = job_reaches_run [OF sc name fin fout, of bs]
  have rv: "remove_vocals_serverless proc tool ?ip (JStr m) ?w1 =
      (Inl e, ?w1\<lparr>ticks := Suc (ticks ?w1), wfs := ?fsB, runs := runs ?w1 @ [cmd]\<rparr>)"
    using run [of ?w1 ?fsB] stages by simp
  have ip: "?ip \<noteq> []"
    using sc name by (simp add: scratch_at_def input_file_path_child)
  have "resolve ?fsB ?ip = Inr (q @ [?ni])"
  proof -
    have "resolve (wfs w) ?ip = Inr (q @ [?ni])"
      using sc name resolve_child [of "wfs w" "temp_dir proc" q ?ni] input_name_valid [OF name]
      by (simp add: scratch_at_def input_file_path_child)
    moreover have "lookup ?fsB r = Some Dir" if "lookup (wfs w) r = Some Dir" for r
      using that by (cases "r = []") (auto simp: lookup_def map_add_def split: option.split)
    ultimately show ?thesis
      using walk_keeps_dirs [of "wfs w" ?fsB] by (simp add: resolve_def)
  qed
  moreover have "lookup ?fsB (q @ [?ni]) = Some (File bs)"
    using fin by (simp add: lookup_def map_add_def input_output_names_differ)
  moreover have "filter (\<lambda>(r, n). r \<noteq> q @ [?ni]) ?fsB = wfs w @ [(q @ [?no], Dir)]"
  proof -
    have "q @ [?ni] \<notin> fst ` set (wfs w)"
      using fin by (simp add: lookup_def map_of_eq_None_iff)
    then have "filter (\<lambda>(r, n). r \<noteq> q @ [?ni]) (wfs w) = wfs w"
      by (force simp: filter_id_conv)
    then show ?thesis
      by (simp add: input_output_names_differ)
  qed
  ultimately have rm: "os_remove ?fsB ?ip = Inr (wfs w @ [(q @ [?no], Dir)])"
    by (simp add: os_remove_def)
  show ?thesis
    using handler_fails_in_separation [OF _ stages [THEN conjunct1] ip rv] rm b64encode_nonempty [OF bs]
    by simp
qed

lemma input_stem_plain:
  assumes "sep \<notin> set name" and "\<not> has_magic name"
  shows "valid_name (fst (splitext (input_name t (JStr name)))) \<and>
         \<not> has_magic (fst (splitext (input_name t (JStr name))))"
proof -
  let ?n = "input_name t (JStr name)"
  let ?s = "fst (splitext ?n)"
  obtain k where k: "?s = take k ?n" "0 < k"
    using splitext_fst_take [of ?n] by (auto simp: input_name_def)
  have sub: "set ?s \<subseteq> set ?n"
    using k(1) by (simp add: set_take_subset)
  have hd: "take 1 ?s = ''i''"
    using k by (cases k) (simp_all add: input_name_def)
  have "sep \<notin> set ?n"
    using input_name_valid [OF assms(1)] by (simp add: valid_name_def)
  then have "sep \<notin> set ?s"
    using sub by blast
  moreover have "?s \<noteq> []" "?s \<noteq> ''.''" "?s \<noteq> ''..''"
    using hd by auto
  moreover have "\<not> has_magic ?n"
  proof -
    have "\<not> has_magic ''input_''" "\<not> has_magic ''_''"
      by (simp_all add: has_magic_def)
    then show ?thesis
      using assms(2) strftime_compact_no_magic [of t]
      by (simp only: input_name_def py_str.simps has_magic_append) simp
  qed
  then have "\<not> has_magic ?s"
    using has_magic_subset [OF sub] by blast
  ultimately show ?thesis
    by (simp add: valid_name_def)
qed

lemma handler_succeeds:
  assumes "py_truthy a"
    and "decode_audio_file proc a fn (w\<lparr>ticks := Suc (ticks w)\<rparr>) = (Inr ip, w1)"
    and "remove_vocals_serverless proc tool ip m w1 = (Inr op, w2)"
    and "encode_audio_file op w2 = (Inr r, w2)" and "output_stem fn = Inr stem"
  shows "handler proc tool (JDict [(''input'', JDict [(''audio_data'', a), (''filename'', fn), (''method'', m)])]) w =
    (SuccessResponse r (elapsed_us (clock w (ticks w)) (clock w2 (ticks w2))) m (device proc)
       (stem @ ''_no_vocals.wav'') (isoformat (clock w2 (Suc (ticks w2)))),
     w2\<lparr>ticks := Suc (Suc (ticks w2)), wfs := cleanup_files [ip, dirname op] (wfs w2)\<rparr>)"
  using assms by (simp add: handler_def handler_try_def now_def)

subsection \<open>Frames of the orchestrator\<close>

lemma handler_try_frame:
  assumes run: "handler_try proc tool job start w = (r, w')"
  shows "frame w w'"
  using run
  by (auto simp: handler_try_def Let_def now_def split: sum.splits prod.splits if_splits
      dest!: decode_audio_file_frame remove_vocals_frame encode_audio_file_frame
      intro: frame_tick frame_cleanup frame_trans)

lemma handler_try_wf:
  assumes keep: "tool_keeps_wf tool" and run: "handler_try proc tool job start w = (r, w')"
  shows "keeps_wf w w'"
  using run keep
  by (auto simp: handler_try_def Let_def now_def split: sum.splits prod.splits if_splits
      dest!: decode_audio_file_frame remove_vocals_frame encode_audio_file_frame
      intro: keeps_wf_tick keeps_wf_cleanup keeps_wf_trans)

lemma handler_try_success_time:
  assumes "handler_try proc tool job start w = (Inr (SuccessResponse a t b c d e), w')"
  shows "t = clock w (ticks w' - 2) - start \<and> ticks w + 2 \<le> ticks w'"
  using assms
  by (auto simp: handler_try_def Let_def now_def elapsed_us_def frame_def split: sum.splits prod.splits if_splits
      dest!: decode_audio_file_frame remove_vocals_frame encode_audio_file_frame)

lemma handler_try_no_failure:
  "handler_try proc tool job start w \<noteq> (Inr (FailureResponse a b c), w')"
  by (auto simp: handler_try_def Let_def split: sum.splits prod.splits if_splits)

subsection \<open>A job whose separation fails\<close>

text \<open>C2: the spec's timeout scenario.  A job with a valid payload and a plain file name,
  in a scratch root where its two names are free, whose tool runs past the bound: the
  response is the failure carrying \<open>TimeoutExpired\<close>'s message for the command, and
  the file system the job leaves is the one it found plus the job's output directory.
  The input file is removed by the \<open>except\<close> block, the output directory is not:
  the workspace is not released on this exit.\<close>

theorem handler_timeout_leaves_output_dir:
  assumes "scratch_at (wfs w) proc q" and "sep \<notin> set name"
    and "lookup (wfs w) (q @ [input_name (clock w (Suc (ticks w))) (JStr name)]) = None"
    and "lookup (wfs w) (q @ [output_dir_name (clock w (Suc (Suc (ticks w))))]) = None"
    and "bs \<noteq> []"
    and "cmd = map py_str (demucs_command proc (JStr m) (output_dir_path proc (clock w (Suc (Suc (ticks w)))))
                      (input_file_path proc (clock w (Suc (ticks w))) (JStr name)))"
    and "\<And>c fs. tool c fs = Timed_out fs"
  shows "handler proc tool
           (JDict [(''input'', JDict [(''audio_data'', JStr (b64encode bs)), (''filename'', JStr name), (''method'', JStr m)])]) w =
         (FailureResponse (exc_str (TimeoutExpired cmd 300))
            (elapsed_us (clock w (ticks w)) (clock w (Suc (Suc (Suc (ticks w))))))
            (isoformat (clock w (Suc (Suc (Suc (Suc (ticks w))))))),
          w\<lparr>wfs := wfs w @ [(q @ [output_dir_name (clock w (Suc (Suc (ticks w))))], Dir)],
            ticks := Suc (Suc (Suc (Suc (Suc (ticks w))))), runs := runs w @ [cmd]\<rparr>)"
proof (rule job_fails_in_run [OF assms(1-6)])
  fix fs1 and w1 :: world
  assume md: "os_makedirs (wfs w1) (output_dir_path proc (clock w1 (ticks w1))) = (Inr (), fs1)"
    and "clock w1 = clock w" and "ticks w1 = Suc (Suc (ticks w))"
  then show "remove_vocals_serverless proc tool (input_file_path proc (clock w (Suc (ticks w))) (JStr name)) (JStr m) w1 =
      (Inl (TimeoutExpired cmd 300), w1\<lparr>ticks := Suc (ticks w1), wfs := fs1, runs := runs w1 @ [cmd]\<rparr>)"
    using remove_vocals_ran [OF md, of cmd m _ tool] assms(6,7) by simp
qed

theorem handler_timeout_leaves_output_dir_witness:
  "handler \<lparr>temp_dir = ''/tmp/vocal_removal'', device = ''cpu''\<rparr> (\<lambda>c fs. Timed_out fs) (JDict [(''input'', JDict [(''audio_data'', JStr (b64encode [1, 2, 3])), (''filename'', JStr ''test.wav''), (''method'', JStr ''htdemucs_ft'')])])
     \<lparr>wfs = [([''tmp''], Dir), ([''tmp'', ''vocal_removal''], Dir)], clock = (\<lambda>_. 0), ticks = 0, runs = []\<rparr> =
   (FailureResponse (exc_str (TimeoutExpired (map py_str (demucs_command \<lparr>temp_dir = ''/tmp/vocal_removal'', device = ''cpu''\<rparr> (JStr ''htdemucs_ft'') (output_dir_path \<lparr>temp_dir = ''/tmp/vocal_removal'', device = ''cpu''\<rparr> 0) (input_file_path \<lparr>temp_dir = ''/tmp/vocal_removal'', device = ''cpu''\<rparr> 0 (JStr ''test.wav'')))) 300)) 0 (isoformat 0),
    \<lparr>wfs = [([''tmp''], Dir), ([''tmp'', ''vocal_removal''], Dir), ([''tmp'', ''vocal_removal'', output_dir_name 0], Dir)],
     clock = (\<lambda>_. 0), ticks = 5, runs = [(map py_str (demucs_command \<lparr>temp_dir = ''/tmp/vocal_removal'', device = ''cpu''\<rparr> (JStr ''htdemucs_ft'') (output_dir_path \<lparr>temp_dir = ''/tmp/vocal_removal'', device = ''cpu''\<rparr> 0) (input_file_path \<lparr>temp_dir = ''/tmp/vocal_removal'', device = ''cpu''\<rparr> 0 (JStr ''test.wav''))))]\<rparr>)"
proof -
  have sc: "scratch_at [([''tmp''], Dir), ([''tmp'', ''vocal_removal''], Dir)] \<lparr>temp_dir = ''/tmp/vocal_removal'', device = ''cpu''\<rparr> [''tmp'', ''vocal_removal'']"
    by code_simp
  have fin: "lookup [([''tmp''], Dir), ([''tmp'', ''vocal_removal''], Dir)] [''tmp'', ''vocal_removal'', input_name 0 (JStr ''test.wav'')] = None"
    by code_simp
  have fout: "lookup [([''tmp''], Dir), ([''tmp'', ''vocal_removal''], Dir)] [''tmp'', ''vocal_removal'', output_dir_name 0] = None"
    by code_simp
  show ?thesis
    using handler_timeout_leaves_output_dir [of "\<lparr>wfs = [([''tmp''], Dir), ([''tmp'', ''vocal_removal''], Dir)], clock = (\<lambda>_. 0), ticks = 0, runs = []\<rparr>" "\<lparr>temp_dir = ''/tmp/vocal_removal'', device = ''cpu''\<rparr>" "[''tmp'', ''vocal_removal'']" "''test.wav''" "[1, 2, 3]" "(map py_str (demucs_command \<lparr>temp_dir = ''/tmp/vocal_removal'', device = ''cpu''\<rparr> (JStr ''htdemucs_ft'') (output_dir_path \<lparr>temp_dir = ''/tmp/vocal_removal'', device = ''cpu''\<rparr> 0) (input_file_path \<lparr>temp_dir = ''/tmp/vocal_removal'', device = ''cpu''\<rparr> 0 (JStr ''test.wav''))))" "''htdemucs_ft''" "\<lambda>c fs. Timed_out fs"]
      sc fin fout
    by (simp add: sep_def elapsed_us_def)
qed

text \<open>C3: a tool that exits with a non-zero status: the failure response carries
  \<open>Demucs processing failed: \<close> and the tool's standard error, exactly one command was
  run, and again the job's output directory stays behind.\<close>

theorem handler_nonzero_exit_leaves_output_dir:
  assumes "scratch_at (wfs w) proc q" and "sep \<notin> set name"
    and "lookup (wfs w) (q @ [input_name (clock w (Suc (ticks w))) (JStr name)]) = None"
    and "lookup (wfs w) (q @ [output_dir_name (clock w (Suc (Suc (ticks w))))]) = None"
    and "bs \<noteq> []"
    and "cmd = map py_str (demucs_command proc (JStr m) (output_dir_path proc (clock w (Suc (Suc (ticks w)))))
                      (input_file_path proc (clock w (Suc (ticks w))) (JStr name)))"
    and "\<And>c fs. tool c fs = Completed rc out err fs" and "rc \<noteq> 0"
  shows "handler proc tool
           (JDict [(''input'', JDict [(''audio_data'', JStr (b64encode bs)), (''filename'', JStr name), (''method'', JStr m)])]) w =
         (FailureResponse (''Demucs processing failed: '' @ err)
            (elapsed_us (clock w (ticks w)) (clock w (Suc (Suc (Suc (ticks w))))))
            (isoformat (clock w (Suc (Suc (Suc (Suc (ticks w))))))),
          w\<lparr>wfs := wfs w @ [(q @ [output_dir_name (clock w (Suc (Suc (ticks w))))], Dir)],
            ticks := Suc (Suc (Suc (Suc (Suc (ticks w))))), runs := runs w @ [cmd]\<rparr>)"
proof -
  have "handler proc tool
           (JDict [(''input'', JDict [(''audio_data'', JStr (b64encode bs)), (''filename'', JStr name), (''method'', JStr m)])]) w =
         (FailureResponse (exc_str (RuntimeError (''Demucs processing failed: '' @ err)))
            (elapsed_us (clock w (ticks w)) (clock w (Suc (Suc (Suc (ticks w))))))
            (isoformat (clock w (Suc (Suc (Suc (Suc (ticks w))))))),
          w\<lparr>wfs := wfs w @ [(q @ [output_dir_name (clock w (Suc (Suc (ticks w))))], Dir)],
            ticks := Suc (Suc (Suc (Suc (Suc (ticks w))))), runs := runs w @ [cmd]\<rparr>)"
  proof (rule job_fails_in_run [OF assms(1-6)])
    fix fs1 and w1 :: world
    assume md: "os_makedirs (wfs w1) (output_dir_path proc (clock w1 (ticks w1))) = (Inr (), fs1)"
      and "clock w1 = clock w" and "ticks w1 = Suc (Suc (ticks w))"
    then show "remove_vocals_serverless proc tool (input_file_path proc (clock w (Suc (ticks w))) (JStr name)) (JStr m) w1 =
        (Inl (RuntimeError (''Demucs processing failed: '' @ err)), w1\<lparr>ticks := Suc (ticks w1), wfs := fs1, runs := runs w1 @ [cmd]\<rparr>)"
      using remove_vocals_ran [OF md, of cmd m _ tool] assms(6,7,8) by simp
  qed
  then show ?thesis
    by simp
qed

theorem handler_nonzero_exit_leaves_output_dir_witness:
  "handler \<lparr>temp_dir = ''/tmp/vocal_removal'', device = ''cpu''\<rparr> (\<lambda>c fs. Completed 1 [] ''boom'' fs) (JDict [(''input'', JDict [(''audio_data'', JStr (b64encode [1, 2, 3])), (''filename'', JStr ''test.wav''), (''method'', JStr ''htdemucs_ft'')])])
     \<lparr>wfs = [([''tmp''], Dir), ([''tmp'', ''vocal_removal''], Dir)], clock = (\<lambda>_. 0), ticks = 0, runs = []\<rparr> =
   (FailureResponse ''Demucs processing failed: boom'' 0 (isoformat 0),
    \<lparr>wfs = [([''tmp''], Dir), ([''tmp'', ''vocal_removal''], Dir), ([''tmp'', ''vocal_removal'', output_dir_name 0], Dir)],
     clock = (\<lambda>_. 0), ticks = 5, runs = [(map py_str (demucs_command \<lparr>temp_dir = ''/tmp/vocal_removal'', device = ''cpu''\<rparr> (JStr ''htdemucs_ft'') (output_dir_path \<lparr>temp_dir = ''/tmp/vocal_removal'', device = ''cpu''\<rparr> 0) (input_file_path \<lparr>temp_dir = ''/tmp/vocal_removal'', device = ''cpu''\<rparr> 0 (JStr ''test.wav''))))]\<rparr>)"
proof -
  have sc: "scratch_at [([''tmp''], Dir), ([''tmp'', ''vocal_removal''], Dir)] \<lparr>temp_dir = ''/tmp/vocal_removal'', device = ''cpu''\<rparr> [''tmp'', ''vocal_removal'']"
    by code_simp
  have fin: "lookup [([''tmp''], Dir), ([''tmp'', ''vocal_removal''], Dir)] [''tmp'', ''vocal_removal'', input_name 0 (JStr ''test.wav'')] = None"
    by code_simp
  have fout: "lookup [([''tmp''], Dir), ([''tmp'', ''vocal_removal''], Dir)] [''tmp'', ''vocal_removal'', output_dir_name 0] = None"
    by code_simp
  show ?thesis
    using handler_nonzero_exit_leaves_output_dir [of "\<lparr>wfs = [([''tmp''], Dir), ([''tmp'', ''vocal_removal''], Dir)], clock = (\<lambda>_. 0), ticks = 0, runs = []\<rparr>" "\<lparr>temp_dir = ''/tmp/vocal_removal'', device = ''cpu''\<rparr>" "[''tmp'', ''vocal_removal'']" "''test.wav''" "[1, 2, 3]" "(map py_str (demucs_command \<lparr>temp_dir = ''/tmp/vocal_removal'', device = ''cpu''\<rparr> (JStr ''htdemucs_ft'') (output_dir_path \<lparr>temp_dir = ''/tmp/vocal_removal'', device = ''cpu''\<rparr> 0) (input_file_path \<lparr>temp_dir = ''/tmp/vocal_removal'', device = ''cpu''\<rparr> 0 (JStr ''test.wav''))))" "''htdemucs_ft''" "\<lambda>c fs. Completed 1 [] ''boom'' fs" 1 "[]" "''boom''"]
      sc fin fout
    by (simp add: sep_def elapsed_us_def)
qed

subsection \<open>A job that succeeds\<close>

text \<open>C1: a valid job whose tool exits with status 0 after writing the documented layout
  \<open><output_dir>/<model>/<input stem>/no_vocals.<ext>\<close> gets the success response: the
  base64 text of the tool's file, the method, the device and
  \<open><filename stem>_no_vocals.wav\<close>, with the elapsed time and the timestamp read in this
  order.  Cleanup removes the input file and the stem directory only: the file system
  the job leaves is the one it found plus the output directory and the model directory
  inside it, so the workspace is not released on success either.\<close>

theorem handler_success_leaves_output_dirs:
  assumes sc: "scratch_at (wfs w) proc q" and wf: "fs_wf (wfs w)" and nm: "\<not> has_magic (temp_dir proc)"
    and name: "sep \<notin> set name" "\<not> has_magic name"
    and fin: "lookup (wfs w) (q @ [input_name (clock w (Suc (ticks w))) (JStr name)]) = None"
    and fout: "lookup (wfs w) (q @ [output_dir_name (clock w (Suc (Suc (ticks w))))]) = None"
    and bs: "bs \<noteq> []" and m: "valid_name m" "\<not> has_magic m"
    and x: "valid_name x" "\<not> is_hidden x" "fnmatch x ''no_vocals.*''"
    and cmd: "cmd = map py_str (demucs_command proc (JStr m) (output_dir_path proc (clock w (Suc (Suc (ticks w)))))
                      (input_file_path proc (clock w (Suc (ticks w))) (JStr name)))"
    and tool: "\<And>c fs. tool c fs = Completed 0 out err
                 (fs @ [(q @ [output_dir_name (clock w (Suc (Suc (ticks w)))), m], Dir),
                        (q @ [output_dir_name (clock w (Suc (Suc (ticks w)))), m,
                              fst (splitext (input_name (clock w (Suc (ticks w))) (JStr name)))], Dir),
                        (q @ [output_dir_name (clock w (Suc (Suc (ticks w)))), m,
                              fst (splitext (input_name (clock w (Suc (ticks w))) (JStr name))), x], File res)])"
  shows "handler proc tool
           (JDict [(''input'', JDict [(''audio_data'', JStr (b64encode bs)), (''filename'', JStr name), (''method'', JStr m)])]) w =
         (SuccessResponse (b64encode res) (elapsed_us (clock w (ticks w)) (clock w (Suc (Suc (Suc (ticks w))))))
            (JStr m) (device proc) (fst (splitext name) @ ''_no_vocals.wav'')
            (isoformat (clock w (Suc (Suc (Suc (Suc (ticks w))))))),
          w\<lparr>wfs := wfs w @ [(q @ [output_dir_name (clock w (Suc (Suc (ticks w))))], Dir),
                           (q @ [output_dir_name (clock w (Suc (Suc (ticks w)))), m], Dir)],
            ticks := Suc (Suc (Suc (Suc (Suc (ticks w))))), runs := runs w @ [cmd]\<rparr>)"
proof -
  let ?ni = "input_name (clock w (Suc (ticks w))) (JStr name)"
  let ?no = "output_dir_name (clock w (Suc (Suc (ticks w))))"
  let ?st = "fst (splitext ?ni)"
  let ?ip = "input_file_path proc (clock w (Suc (ticks w))) (JStr name)"
  let ?od = "output_dir_path proc (clock w (Suc (Suc (ticks w))))"
  let ?w1 = "w\<lparr>ticks := Suc (Suc (ticks w)), wfs := wfs w @ [(q @ [?ni], File bs)]\<rparr>"
  let ?fs2 = "wfs w @ [(q @ [?ni], File bs), (q @ [?no], Dir), (q @ [?no, m], Dir), (q @ [?no, m, ?st], Dir),
                       (q @ [?no, m, ?st, x], File res)]"
  let ?op = "?od @ sep # m @ sep # ?st @ sep # x"
  note stages = job_reaches_run [OF sc name(1) fin fout, of bs]
  have q: "lookup (wfs w) q = Some Dir" "resolve (wfs w) (temp_dir proc) = Inr q"
    and tmp: "temp_dir proc \<noteq> []" "last (temp_dir proc) \<noteq> sep"
    using sc by (simp_all add: scratch_at_def)
  have vi: "valid_name ?ni" using input_name_valid [OF name(1)] .
  have vo: "valid_name ?no" by (rule output_dir_name_valid)
  have st: "valid_name ?st" "\<not> has_magic ?st" using input_stem_plain [OF name] by simp_all
  have ne: "?ni \<noteq> ?no" by (rule input_output_names_differ)
  note lay = job_layout_lookups [OF wf fin fout ne, where b = bs and m = m and s = ?st and x = x and r = res]
  have sc2: "scratch_at ?fs2 proc q"
    using scratch_at_keep [OF sc lay(6)] .
  have found: "filter (\<lambda>y. fnmatch y ''no_vocals.*'') (filter (\<lambda>y. \<not> is_hidden y)
                  (child_names ?fs2 False (q @ [?no, m, ?st]))) = x # []"
    using lay(3,5) x(2,3) by (simp add: child_names_def)
  have stem: "fst (splitext (basename ?ip)) = ?st"
    using input_file_path_child [OF tmp name(1)] basename_join vi by (simp add: valid_name_def)
  have rv: "remove_vocals_serverless proc tool ?ip (JStr m) ?w1 =
      (Inr ?op, ?w1\<lparr>ticks := Suc (ticks ?w1), wfs := ?fs2, runs := runs ?w1 @ [cmd]\<rparr>)"
  proof -
    have md: "os_makedirs (wfs ?w1) (output_dir_path proc (clock ?w1 (ticks ?w1))) =
        (Inr (), wfs w @ [(q @ [?ni], File bs), (q @ [?no], Dir)])"
      using stages by simp
    have c: "cmd = map py_str (demucs_command proc (JStr m) (output_dir_path proc (clock ?w1 (ticks ?w1))) ?ip)"
      using cmd by simp
    have r: "tool cmd (wfs w @ [(q @ [?ni], File bs), (q @ [?no], Dir)]) = Completed 0 out err ?fs2"
      using tool by simp
    show ?thesis
      using remove_vocals_documented [where tool = tool and cmd = cmd, OF md c r sc2 nm m st stem _ _ job_layout_wf [OF wf q(1) fin fout ne vi vo m(1) st(1) x(1)]]
        lay(1,2) found
      by simp
  qed
  have od: "?od = temp_dir proc @ sep # ?no"
    using tmp vo by (simp add: output_dir_path_def path_join_child del: path_join.simps)
  note fin_stage = layout_read_and_cleanup [OF wf q(2,1) fin fout ne vi vo m(1) st(1) x(1), of bs res]
  have enc: "encode_audio_file ?op (?w1\<lparr>ticks := Suc (ticks ?w1), wfs := ?fs2, runs := runs ?w1 @ [cmd]\<rparr>) =
      (Inr (b64encode res), ?w1\<lparr>ticks := Suc (ticks ?w1), wfs := ?fs2, runs := runs ?w1 @ [cmd]\<rparr>)"
    using fin_stage(1) od by (simp add: encode_audio_file_def)
  have cl: "cleanup_files [?ip, dirname ?op] ?fs2 = wfs w @ [(q @ [?no], Dir), (q @ [?no, m], Dir)]"
    using fin_stage(2) input_file_path_child [OF tmp name(1)] od by simp
  have truthy: "py_truthy (JStr (b64encode bs))"
    using b64encode_nonempty [OF bs] by simp
  show ?thesis
    using handler_succeeds [OF truthy stages [THEN conjunct1] rv enc, of "fst (splitext name)"] cl
    by simp
qed

theorem handler_success_leaves_output_dirs_witness:
  "handler \<lparr>temp_dir = ''/tmp/vocal_removal'', device = ''cpu''\<rparr> (\<lambda>c fs. Completed 0 [] [] (fs @ [([''tmp'', ''vocal_removal''] @ [output_dir_name 0, ''htdemucs_ft''], Dir), ([''tmp'', ''vocal_removal''] @ [output_dir_name 0, ''htdemucs_ft'', fst (splitext (input_name 0 (JStr ''test.wav'')))], Dir), ([''tmp'', ''vocal_removal''] @ [output_dir_name 0, ''htdemucs_ft'', fst (splitext (input_name 0 (JStr ''test.wav''))), ''no_vocals.wav''], File [7, 8, 9])]))
     (JDict [(''input'', JDict [(''audio_data'', JStr (b64encode [1, 2, 3])), (''filename'', JStr ''test.wav''), (''method'', JStr ''htdemucs_ft'')])]) \<lparr>wfs = [([''tmp''], Dir), ([''tmp'', ''vocal_removal''], Dir)], clock = (\<lambda>_. 0), ticks = 0, runs = []\<rparr> =
   (SuccessResponse (b64encode [7, 8, 9]) 0 (JStr ''htdemucs_ft'') ''cpu'' ''test_no_vocals.wav'' (isoformat 0),
    \<lparr>wfs = [([''tmp''], Dir), ([''tmp'', ''vocal_removal''], Dir), ([''tmp'', ''vocal_removal''] @ [output_dir_name 0], Dir),
             ([''tmp'', ''vocal_removal''] @ [output_dir_name 0, ''htdemucs_ft''], Dir)],
     clock = (\<lambda>_. 0), ticks = 5, runs = [(map py_str (demucs_command \<lparr>temp_dir = ''/tmp/vocal_removal'', device = ''cpu''\<rparr> (JStr ''htdemucs_ft'') (output_dir_path \<lparr>temp_dir = ''/tmp/vocal_removal'', device = ''cpu''\<rparr> 0) (input_file_path \<lparr>temp_dir = ''/tmp/vocal_removal'', device = ''cpu''\<rparr> 0 (JStr ''test.wav''))))]\<rparr>)"
proof -
  have h: "scratch_at [([''tmp''], Dir), ([''tmp'', ''vocal_removal''], Dir)] \<lparr>temp_dir = ''/tmp/vocal_removal'', device = ''cpu''\<rparr> [''tmp'', ''vocal_removal'']" "fs_wf [([''tmp''], Dir), ([''tmp'', ''vocal_removal''], Dir)]" "\<not> has_magic ''/tmp/vocal_removal''"
    "sep \<notin> set ''test.wav''" "\<not> has_magic ''test.wav''"
    "lookup [([''tmp''], Dir), ([''tmp'', ''vocal_removal''], Dir)] ([''tmp'', ''vocal_removal''] @ [input_name 0 (JStr ''test.wav'')]) = None"
    "lookup [([''tmp''], Dir), ([''tmp'', ''vocal_removal''], Dir)] ([''tmp'', ''vocal_removal''] @ [output_dir_name 0]) = None"
    "valid_name ''htdemucs_ft''" "\<not> has_magic ''htdemucs_ft''"
    "valid_name ''no_vocals.wav''" "\<not> is_hidden ''no_vocals.wav''" "fnmatch ''no_vocals.wav'' ''no_vocals.*''"
    "fst (splitext ''test.wav'') = ''test''"
    by code_simp+
  show ?thesis
    using handler_success_leaves_output_dirs [of "\<lparr>wfs = [([''tmp''], Dir), ([''tmp'', ''vocal_removal''], Dir)], clock = (\<lambda>_. 0), ticks = 0, runs = []\<rparr>" "\<lparr>temp_dir = ''/tmp/vocal_removal'', device = ''cpu''\<rparr>" "[''tmp'', ''vocal_removal'']" "''test.wav''" "[1, 2, 3]" "''htdemucs_ft''"
      "''no_vocals.wav''" "(map py_str (demucs_command \<lparr>temp_dir = ''/tmp/vocal_removal'', device = ''cpu''\<rparr> (JStr ''htdemucs_ft'') (output_dir_path \<lparr>temp_dir = ''/tmp/vocal_removal'', device = ''cpu''\<rparr> 0) (input_file_path \<lparr>temp_dir = ''/tmp/vocal_removal'', device = ''cpu''\<rparr> 0 (JStr ''test.wav''))))" "\<lambda>c fs. Completed 0 [] [] (fs @ [([''tmp'', ''vocal_removal''] @ [output_dir_name 0, ''htdemucs_ft''], Dir), ([''tmp'', ''vocal_removal''] @ [output_dir_name 0, ''htdemucs_ft'', fst (splitext (input_name 0 (JStr ''test.wav'')))], Dir), ([''tmp'', ''vocal_removal''] @ [output_dir_name 0, ''htdemucs_ft'', fst (splitext (input_name 0 (JStr ''test.wav''))), ''no_vocals.wav''], File [7, 8, 9])])" "[]" "[]" "[7, 8, 9]"] h
    by (simp add: elapsed_us_def)
qed

subsection \<open>Every job\<close>

text \<open>C18: with a clock that never goes back, the \<open>processing_time\<close> of every
  response that has one is not negative: it is the difference of a later and the
  first clock reading of the job.\<close>

theorem handler_time_nonneg:
  assumes mono: "mono (clock w)"
  shows "case fst (handler proc tool job w) of
           SuccessResponse _ t _ _ _ _ \<Rightarrow> 0 \<le> t | FailureResponse _ t _ \<Rightarrow> 0 \<le> t | NoAudioResponse \<Rightarrow> True"
proof -
  obtain r w1 where run: "handler_try proc tool job (clock w (ticks w)) (w\<lparr>ticks := Suc (ticks w)\<rparr>) = (r, w1)"
    by fastforce
  have fr: "clock w1 = clock w" "Suc (ticks w) \<le> ticks w1"
    using handler_try_frame [OF run] by (simp_all add: frame_def)
  have le: "clock w (ticks w) \<le> clock w k" if "ticks w \<le> k" for k
    using mono that by (simp add: mono_def)
  show ?thesis
  proof (cases r)
    case (Inl ep)
    then show ?thesis
      using run fr le [of "ticks w1"]
      by (auto simp: handler_def now_def Let_def elapsed_us_def split: option.splits prod.splits)
  next
    case (Inr resp)
    show ?thesis
    proof (cases resp)
      case (SuccessResponse a t b c d e)
      then have "t = clock w (ticks w1 - 2) - clock w (ticks w)" "ticks w + 3 \<le> ticks w1"
        using handler_try_success_time [of proc tool job "clock w (ticks w)" "w\<lparr>ticks := Suc (ticks w)\<rparr>"] run Inr
        by (auto simp: fr)
      then show ?thesis
        using run Inr SuccessResponse le [of "ticks w1 - 2"] by (simp add: handler_def now_def)
    qed (use run Inr handler_try_no_failure in \<open>simp_all add: handler_def now_def\<close>)
  qed
qed

theorem handler_time_nonneg_witness:
  "case fst (handler \<lparr>temp_dir = ''/tmp/vocal_removal'', device = ''cpu''\<rparr> (\<lambda>c fs. Timed_out fs) (JDict [(''input'', JDict [(''audio_data'', JStr (b64encode [1, 2, 3])), (''filename'', JStr ''test.wav'')])]) \<lparr>wfs = [([''tmp''], Dir), ([''tmp'', ''vocal_removal''], Dir)], clock = (\<lambda>n. int n), ticks = 0, runs = []\<rparr>) of
     SuccessResponse _ t _ _ _ _ \<Rightarrow> 0 \<le> t | FailureResponse _ t _ \<Rightarrow> 0 \<le> t | NoAudioResponse \<Rightarrow> True"
proof -
  have "mono (\<lambda>n::nat. int n)" by (simp add: mono_def)
  then show ?thesis
    using handler_time_nonneg [of "\<lparr>wfs = [([''tmp''], Dir), ([''tmp'', ''vocal_removal''], Dir)], clock = (\<lambda>n. int n), ticks = 0, runs = []\<rparr>" "\<lparr>temp_dir = ''/tmp/vocal_removal'', device = ''cpu''\<rparr>" "\<lambda>c fs. Timed_out fs" "(JDict [(''input'', JDict [(''audio_data'', JStr (b64encode [1, 2, 3])), (''filename'', JStr ''test.wav'')])])"] by simp
qed

end
