(* ===== verification/Processor.thy ===== *)
theory Processor
  imports World
begin

text \<open>
  Construction of the worker's one \<open>ServerlessVocalRemover\<close> (src/handler.py,
  \<open>__init__\<close> and \<open>preload_models\<close>, run at import by line 169): the scratch root
  \<open>/tmp/vocal_removal\<close> is created with \<open>os.makedirs(..., exist_ok=True)\<close>, the
  device is \<open>cuda\<close> when \<open>torch.cuda.is_available()\<close> (a parameter here) and
  \<open>cpu\<close> otherwise, and the two Demucs models are pre-loaded onto it.  Pre-loading
  only warms the GPU: its outcome is the list of models that loaded, and every
  exception it meets (the import of \<open>demucs.pretrained\<close>, or loading one model) is
  caught and logged.  The results: the constructor's outcome on every branch, and that
  it leaves the scratch root the handler's theorems assume.
\<close>

subsection \<open>Model pre-loading\<close>

text \<open>\<open>get_model(name)\<close> followed by \<open>model.to(device)\<close> and
  \<open>torch.cuda.empty_cache()\<close>: it loads, or raises.\<close>


type_synonym loader = "string \<Rightarrow> string \<Rightarrow> py_exc + unit"

definition models_to_preload :: "string list" where
  "models_to_preload = [''htdemucs_ft'', ''htdemucs'']"

text \<open>The loop over \<open>models_to_preload\<close>, each load in its own \<open>try\<close>: a failing
  model is logged and skipped.\<close>

primrec preload_each :: "loader \<Rightarrow> string \<Rightarrow> string list \<Rightarrow> string list" where
  "preload_each load dev [] = []"
| "preload_each load dev (m # ms) =
     (case load m dev of Inl _ \<Rightarrow> [] | Inr _ \<Rightarrow> [m]) @ preload_each load dev ms"

text \<open>The outer \<open>try\<close>: when \<open>from demucs.pretrained import get_model\<close> fails,
  nothing is loaded and nothing is raised.\<close>

definition preload_models :: "py_exc + unit \<Rightarrow> loader \<Rightarrow> string \<Rightarrow> string list" where
  "preload_models import load dev =
     (case import of Inl _ \<Rightarrow> [] | Inr _ \<Rightarrow> preload_each load dev models_to_preload)"

subsection \<open>The constructor\<close>

definition scratch_root :: string where
  "scratch_root = ''/tmp/vocal_removal''"

text \<open>\<open>__init__\<close>: an error of \<open>os.makedirs\<close> propagates (the module import
  fails); otherwise the processor, the file system and the models pre-loading warmed.\<close>

definition init_processor :: "bool \<Rightarrow> py_exc + unit \<Rightarrow> loader \<Rightarrow> fs \<Rightarrow> py_exc + (processor \<times> fs \<times> string list)" where
  "init_processor cuda import load fs =
     (case os_makedirs fs scratch_root of
        (Inl e, fs') \<Rightarrow> Inl e
      | (Inr _, fs') \<Rightarrow>
          (let proc = \<lparr>temp_dir = scratch_root, device = (if cuda then ''cuda'' else ''cpu'')\<rparr>
           in Inr (proc, fs', preload_models import load (device proc))))"

lemma scratch_root_child: "scratch_root = ''/tmp'' @ sep # ''vocal_removal''"
  by (simp add: scratch_root_def sep_def)

lemma resolve_tmp: "resolve fs ''/tmp'' = Inr [''tmp'']"
  by (simp add: resolve_def sep_def comp_step_def lookup_def)

subsection \<open>What the constructor does\<close>

lemma init_processor_makedirs:
  "init_processor cuda import load fs = Inr (proc, fs', warm) \<Longrightarrow>
   \<exists>u. os_makedirs fs scratch_root = (Inr u, fs') \<and> temp_dir proc = scratch_root"
  by (auto simp: init_processor_def Let_def split: prod.splits sum.splits)

lemma init_processor_wf:
  "init_processor cuda import load fs = Inr (proc, fs', warm) \<Longrightarrow> fs_wf fs \<Longrightarrow> fs_wf fs'"
  using init_processor_makedirs os_makedirs_wf by metis

lemma preload_each_filter: "preload_each load dev ms = filter (\<lambda>m. \<not> isl (load m dev)) ms"
  by (induction ms) (simp_all split: sum.split)

lemma init_makedirs:
  assumes tmp: "lookup fs [''tmp''] = Some Dir"
  shows "os_makedirs fs scratch_root =
    (case lookup fs [''tmp'', ''vocal_removal''] of
       None \<Rightarrow> (Inr (), fs @ [([''tmp'', ''vocal_removal''], Dir)])
     | Some Dir \<Rightarrow> (Inr (), fs)
     | Some (File _) \<Rightarrow> (Inl (FileExistsError scratch_root), fs))"
proof -
  have v: "valid_name ''vocal_removal''" by (simp add: valid_name_def sep_def)
  have "os_makedirs fs (''/tmp'' @ sep # ''vocal_removal'') =
    (case lookup fs ([''tmp''] @ [''vocal_removal'']) of
       None \<Rightarrow> (Inr (), fs @ [([''tmp''] @ [''vocal_removal''], Dir)])
     | Some Dir \<Rightarrow> (Inr (), fs)
     | Some (File _) \<Rightarrow> (Inl (FileExistsError (''/tmp'' @ sep # ''vocal_removal'')), fs))"
    by (rule os_makedirs_child [OF resolve_tmp tmp _ _ v]) (simp_all add: sep_def)
  then show ?thesis
    by (simp add: scratch_root_def sep_def split: option.split node.split)
qed

text \<open>C10: with \<open>/tmp\<close> a directory, construction succeeds unless
  \<open>/tmp/vocal_removal\<close> is a file (\<open>FileExistsError\<close>); it creates the scratch root
  when it is missing and keeps an existing one; the device is \<open>cuda\<close> exactly when
  CUDA is available; and the warmed models are those of \<open>htdemucs_ft, htdemucs\<close> that
  load, none when the Demucs import fails: pre-loading never makes construction
  fail.\<close>

theorem init_processor_result:
  assumes tmp: "lookup fs [''tmp''] = Some Dir"
  shows "init_processor cuda import load fs =
    (let proc = \<lparr>temp_dir = scratch_root, device = (if cuda then ''cuda'' else ''cpu'')\<rparr>;
         warm = (case import of Inl _ \<Rightarrow> [] | Inr _ \<Rightarrow> filter (\<lambda>m. \<not> isl (load m (device proc))) models_to_preload)
     in case lookup fs [''tmp'', ''vocal_removal''] of
          None \<Rightarrow> Inr (proc, fs @ [([''tmp'', ''vocal_removal''], Dir)], warm)
        | Some Dir \<Rightarrow> Inr (proc, fs, warm)
        | Some (File _) \<Rightarrow> Inl (FileExistsError scratch_root))"
  using init_makedirs [OF tmp]
  by (simp add: init_processor_def preload_models_def preload_each_filter Let_def
      split: option.split node.split sum.split)

text \<open>C11: a constructed processor starts from a well-formed file system with its
  scratch root in place: the situation every job theorem of the Orchestrator theory
  assumes.\<close>

theorem init_processor_scratch:
  assumes tmp: "lookup fs [''tmp''] = Some Dir" and wf: "fs_wf fs"
    and init: "init_processor cuda import load fs = Inr (proc, fs', warm)"
  shows "scratch_at fs' proc [''tmp'', ''vocal_removal''] \<and> fs_wf fs'"
proof -
  obtain u where md: "os_makedirs fs scratch_root = (Inr u, fs')" and tp: "temp_dir proc = scratch_root"
    using init_processor_makedirs [OF init] by blast
  have v: "valid_name ''vocal_removal''" by (simp add: valid_name_def sep_def)
  have "resolve fs' scratch_root = Inr [''tmp'', ''vocal_removal''] \<and> lookup fs' [''tmp'', ''vocal_removal''] = Some Dir"
    using os_makedirs_child_isdir [OF resolve_tmp tmp _ _ v, of fs'] md
    by (simp add: scratch_root_child sep_def)
  moreover have "fs_wf fs'"
    using os_makedirs_wf [OF wf md] .
  ultimately show ?thesis
    using tp by (simp add: scratch_at_def scratch_root_def sep_def)
qed

theorem init_processor_result_witness:
  "lookup [([''tmp''], Dir)] [''tmp''] = Some Dir \<and>
   init_processor False (Inr ()) (\<lambda>m d. if m = ''htdemucs'' then Inl (RuntimeError ''CUDA out of memory'') else Inr ())
     [([''tmp''], Dir)] =
   Inr (\<lparr>temp_dir = scratch_root, device = ''cpu''\<rparr>, [([''tmp''], Dir), ([''tmp'', ''vocal_removal''], Dir)], [''htdemucs_ft''])"
  using init_processor_result [of "[([''tmp''], Dir)]" False "Inr ()"
      "\<lambda>m d. if m = ''htdemucs'' then Inl (RuntimeError ''CUDA out of memory'') else Inr ()"]
  by (simp add: lookup_def models_to_preload_def)

theorem init_processor_scratch_witness:
  "scratch_at [([''tmp''], Dir), ([''tmp'', ''vocal_removal''], Dir)] \<lparr>temp_dir = scratch_root, device = ''cuda''\<rparr>
     [''tmp'', ''vocal_removal''] \<and> fs_wf [([''tmp''], Dir), ([''tmp'', ''vocal_removal''], Dir)]"
proof -
  have "lookup [([''tmp''], Dir)] [''tmp''] = Some Dir" "fs_wf [([''tmp''], Dir)]"
    by code_simp+
  moreover have "init_processor True (Inl (RuntimeError ''no module named demucs'')) (\<lambda>m d. Inr ()) [([''tmp''], Dir)] =
    Inr (\<lparr>temp_dir = scratch_root, device = ''cuda''\<rparr>, [([''tmp''], Dir), ([''tmp'', ''vocal_removal''], Dir)], [])"
    by code_simp
  ultimately show ?thesis
    using init_processor_scratch [of "[([''tmp''], Dir)]" True "Inl (RuntimeError ''no module named demucs'')" "\<lambda>m d. Inr ()"]
    by blast
qed

end
