(* ===== verification/Residue.thy ===== *)
theory Residue
  imports Orchestrator Processor
begin

text \<open>
  What a job leaves on disk (src/handler.py, \<open>handler\<close> with its cleanup on line 230
  and the except block on lines 237-242).  Each stage's effect on the file system is
  described relative to the scratch root \<open>/tmp/vocal_removal\<close>: decoding writes the
  input file, the invoker changes nothing outside the output directory (given a tool
  that writes only below its \<open>-o\<close> directory), and either exit removes the input
  file.  \<open>handler_final_fs\<close> lists every way a job ends as a file system; the claim
  of this theory follows from it, and so does the survival of the scratch root that
  the worker-level claim in Worker needs.
\<close>

subsection \<open>The scratch root\<close>

lemma resolve_scratch_child:
  assumes "lookup fs [''tmp''] = Some Dir" "lookup fs [''tmp'', ''vocal_removal''] = Some Dir" "valid_name n"
  shows "resolve fs (scratch_root @ sep # n) = Inr [''tmp'', ''vocal_removal'', n]"
proof -
  have v: "valid_name ''vocal_removal''" by (simp add: valid_name_def sep_def)
  have "resolve fs scratch_root = Inr [''tmp'', ''vocal_removal'']"
    using resolve_child [OF resolve_tmp assms(1) v] by (simp add: scratch_root_child)
  then show ?thesis
    using resolve_child [OF _ assms(2,3)] by simp
qed

lemma scratch_root_at:
  assumes "lookup fs [''tmp''] = Some Dir" "lookup fs [''tmp'', ''vocal_removal''] = Some Dir"
    and "temp_dir proc = scratch_root"
  shows "scratch_at fs proc [''tmp'', ''vocal_removal'']"
proof -
  have v: "valid_name ''vocal_removal''" by (simp add: valid_name_def sep_def)
  have "resolve fs scratch_root = Inr [''tmp'', ''vocal_removal'']"
    using resolve_child [OF resolve_tmp assms(1) v] by (simp add: scratch_root_child)
  then show ?thesis
    using assms by (simp add: scratch_at_def scratch_root_def sep_def)
qed

lemma scratch_input_path:
  assumes "temp_dir proc = scratch_root" and "sep \<notin> set name"
  shows "input_file_path proc t (JStr name) = scratch_root @ sep # input_name t (JStr name)"
  using input_file_path_child [of proc name t] assms by (simp add: scratch_root_def sep_def)

lemma scratch_output_path:
  assumes "temp_dir proc = scratch_root"
  shows "output_dir_path proc t = scratch_root @ sep # output_dir_name t"
  using path_join_child [of scratch_root "output_dir_name t"] output_dir_name_valid [of t] assms
  by (simp add: output_dir_path_def scratch_root_def sep_def del: path_join.simps)

subsection \<open>The stages\<close>

lemma decode_residue:
  assumes d: "lookup (wfs w) [''tmp''] = Some Dir" "lookup (wfs w) [''tmp'', ''vocal_removal''] = Some Dir"
    and tp: "temp_dir proc = scratch_root" and name: "sep \<notin> set name"
    and run: "decode_audio_file proc a (JStr name) w = (r, w1)"
  shows "clock w1 = clock w \<and> ticks w1 = Suc (ticks w) \<and>
    ((\<exists>e. r = Inl e \<and> wfs w1 = wfs w) \<or>
     (\<exists>bs. r = Inr (scratch_root @ sep # input_name (clock w (ticks w)) (JStr name)) \<and>
        wfs w1 = fs_put (wfs w) [''tmp'', ''vocal_removal'', input_name (clock w (ticks w)) (JStr name)] (File bs)))"
proof -
  let ?n = "input_name (clock w (ticks w)) (JStr name)"
  have rs: "resolve (wfs w) (scratch_root @ sep # ?n) = Inr [''tmp'', ''vocal_removal'', ?n]"
    using resolve_scratch_child [OF d input_name_valid [OF name]] .
  show ?thesis
    using run rs scratch_input_path [OF tp name]
    by (auto simp: decode_audio_file_def now_def os_write_file_def Let_def split: sum.splits option.splits node.splits)
qed

lemma makedirs_residue:
  assumes d: "lookup fs [''tmp''] = Some Dir" "lookup fs [''tmp'', ''vocal_removal''] = Some Dir"
    and tp: "temp_dir proc = scratch_root"
    and md: "os_makedirs fs (output_dir_path proc t) = (r1, fs1)"
  shows "(\<forall>p. p \<noteq> [''tmp'', ''vocal_removal'', output_dir_name t] \<longrightarrow> lookup fs1 p = lookup fs p) \<and>
         (r1 = Inr () \<longrightarrow> resolve fs1 (output_dir_path proc t) = Inr [''tmp'', ''vocal_removal'', output_dir_name t] \<and>
            lookup fs1 [''tmp'', ''vocal_removal'', output_dir_name t] = Some Dir)"
proof -
  let ?qo = "[''tmp'', ''vocal_removal'', output_dir_name t]"
  have sc: "scratch_at fs proc [''tmp'', ''vocal_removal'']"
    using scratch_root_at [OF d tp] .
  have fs1: "(\<forall>p. p \<noteq> ?qo \<longrightarrow> lookup fs1 p = lookup fs p) \<and> (r1 = Inr () \<longrightarrow> lookup fs1 ?qo = Some Dir)"
    using md output_dir_makedirs [OF sc, of t]
    by (auto simp: lookup_append_new split: option.splits node.splits)
  then have "lookup fs1 [''tmp''] = Some Dir" "lookup fs1 [''tmp'', ''vocal_removal''] = Some Dir"
    using d by simp_all
  then have "resolve fs1 (output_dir_path proc t) = Inr ?qo"
    using resolve_scratch_child [OF _ _ output_dir_name_valid [of t]] scratch_output_path [OF tp] by simp
  then show ?thesis
    using fs1 by simp
qed

lemma remove_vocals_residue:
  assumes d: "lookup (wfs w) [''tmp''] = Some Dir" "lookup (wfs w) [''tmp'', ''vocal_removal''] = Some Dir"
    and tp: "temp_dir proc = scratch_root" and tc: "tool_confined tool"
    and run: "remove_vocals_serverless proc tool ip m w = (r, w2)"
  shows "\<forall>p. \<not> prefix [''tmp'', ''vocal_removal'', output_dir_name (clock w (ticks w))] p \<longrightarrow>
           lookup (wfs w2) p = lookup (wfs w) p"
proof -
  let ?t = "clock w (ticks w)"
  let ?qo = "[''tmp'', ''vocal_removal'', output_dir_name ?t]"
  let ?od = "output_dir_path proc ?t"
  obtain r1 fs1 where md: "os_makedirs (wfs w) ?od = (r1, fs1)" by fastforce
  note m = makedirs_residue [OF d tp md]
  have keep1: "lookup fs1 p = lookup (wfs w) p" if "\<not> prefix ?qo p" for p
    using m that by auto
  have "lookup (wfs w2) p = lookup fs1 p" if "\<not> prefix ?qo p" for p
  proof (cases r1)
    case (Inl e)
    then show ?thesis using run md by (auto simp: remove_vocals_serverless_def now_def)
  next
    case (Inr u)
    then have ro: "resolve fs1 ?od = Inr ?qo" "lookup fs1 ?qo = Some Dir"
      using m by simp_all
    show ?thesis
    proof (cases "str_items 0 (demucs_command proc m ?od ip)")
      case (Inl e)
      then show ?thesis using run md Inr by (auto simp: remove_vocals_serverless_def now_def)
    next
      case (Inr c)
      then have "take 2 (drop 7 c) = [''-o'', ?od]"
        using str_items_map [OF Inr] by (simp add: demucs_command_def)
      then have "case tool c fs1 of Completed _ _ _ fs' \<Rightarrow> agree_outside ?qo fs1 fs'
          | Timed_out fs' \<Rightarrow> agree_outside ?qo fs1 fs' | Launch_failed _ \<Rightarrow> True"
        using tc ro unfolding tool_confined_def by blast
      moreover have "\<not> strict_prefix ?qo p"
        using that by (auto simp: strict_prefix_def)
      ultimately show ?thesis
        using run md \<open>r1 = Inr u\<close> Inr
        by (cases "tool c fs1")
          (auto simp: remove_vocals_serverless_def now_def subprocess_run_def agree_outside_def Let_def
            split: list.splits if_splits)
    qed
  qed
  then show ?thesis
    using keep1 by simp
qed

lemma remove_vocals_found:
  assumes d: "lookup (wfs w) [''tmp''] = Some Dir" "lookup (wfs w) [''tmp'', ''vocal_removal''] = Some Dir"
    and tp: "temp_dir proc = scratch_root" and tc: "tool_confined tool"
    and run: "remove_vocals_serverless proc tool ip m w = (Inr op, w2)"
  shows "lookup (wfs w2) [''tmp'', ''vocal_removal'', output_dir_name (clock w (ticks w))] = Some Dir \<and>
         op \<in> set (find_output (wfs w2) (output_dir_path proc (clock w (ticks w))) (py_str m) ip)"
proof -
  let ?t = "clock w (ticks w)"
  let ?qo = "[''tmp'', ''vocal_removal'', output_dir_name ?t]"
  let ?od = "output_dir_path proc ?t"
  obtain r1 fs1 where md: "os_makedirs (wfs w) ?od = (r1, fs1)" by fastforce
  have r1: "r1 = Inr ()"
    using run md by (cases r1) (auto simp: remove_vocals_serverless_def now_def)
  then have ro: "resolve fs1 ?od = Inr ?qo" "lookup fs1 ?qo = Some Dir"
    using makedirs_residue [OF d tp md] by simp_all
  obtain c where c: "str_items 0 (demucs_command proc m ?od ip) = Inr c"
    using run md r1 by (cases "str_items 0 (demucs_command proc m ?od ip)") (auto simp: remove_vocals_serverless_def now_def)
  then have "take 2 (drop 7 c) = [''-o'', ?od]"
    using str_items_map [OF c] by (simp add: demucs_command_def)
  then have "case tool c fs1 of Completed _ _ _ fs' \<Rightarrow> agree_outside ?qo fs1 fs'
      | Timed_out fs' \<Rightarrow> agree_outside ?qo fs1 fs' | Launch_failed _ \<Rightarrow> True"
    using tc ro unfolding tool_confined_def by blast
  then show ?thesis
    using run md r1 c ro(2)
    by (cases "tool c fs1")
      (auto simp: remove_vocals_serverless_def now_def subprocess_run_def agree_outside_def Let_def
        split: list.splits if_splits)
qed

lemma input_file_removed:
  assumes d: "lookup fs [''tmp''] = Some Dir" "lookup fs [''tmp'', ''vocal_removal''] = Some Dir"
    and v: "valid_name n" and no: "n \<noteq> od"
    and keep: "\<forall>p. \<not> prefix [''tmp'', ''vocal_removal'', od] p \<longrightarrow>
                 lookup fs2 p = lookup (fs_put fs [''tmp'', ''vocal_removal'', n] (File bs)) p"
  shows "os_remove fs2 (scratch_root @ sep # n) = Inr (filter (\<lambda>(r, m). r \<noteq> [''tmp'', ''vocal_removal'', n]) fs2) \<and>
         cleanup_one fs2 (scratch_root @ sep # n) = filter (\<lambda>(r, m). r \<noteq> [''tmp'', ''vocal_removal'', n]) fs2 \<and>
         new_within fs (filter (\<lambda>(r, m). r \<noteq> [''tmp'', ''vocal_removal'', n]) fs2) (prefix [''tmp'', ''vocal_removal'', od])"
proof -
  let ?r = "[''tmp'', ''vocal_removal'', n]"
  have l2: "lookup fs2 p = (if p = ?r then Some (File bs) else lookup fs p)" if "\<not> prefix [''tmp'', ''vocal_removal'', od] p" for p
    using keep that by (simp add: lookup_fs_put)
  have "\<not> prefix [''tmp'', ''vocal_removal'', od] [''tmp'']" "\<not> prefix [''tmp'', ''vocal_removal'', od] [''tmp'', ''vocal_removal'']"
    "\<not> prefix [''tmp'', ''vocal_removal'', od] ?r"
    using no by simp_all
  then have f: "lookup fs2 [''tmp''] = Some Dir" "lookup fs2 [''tmp'', ''vocal_removal''] = Some Dir" "lookup fs2 ?r = Some (File bs)"
    using l2 d by simp_all
  have rs: "resolve fs2 (scratch_root @ sep # n) = Inr ?r"
    using resolve_scratch_child [OF f(1,2) v] .
  have rm: "os_remove fs2 (scratch_root @ sep # n) = Inr (filter (\<lambda>(r, m). r \<noteq> ?r) fs2)"
    using rs f(3) by (simp add: os_remove_def)
  moreover have "cleanup_one fs2 (scratch_root @ sep # n) = filter (\<lambda>(r, m). r \<noteq> ?r) fs2"
    using rs f(3) rm by (simp add: cleanup_one_def os_path_exists_def os_path_isfile_def)
  moreover have "new_within fs (filter (\<lambda>(r, m). r \<noteq> ?r) fs2) (prefix [''tmp'', ''vocal_removal'', od])"
    unfolding new_within_iff
  proof (intro allI impI)
    fix p assume "lookup (filter (\<lambda>(r, m). r \<noteq> ?r) fs2) p \<noteq> None"
    then have "p \<noteq> ?r" "lookup fs2 p \<noteq> None"
      by (auto simp: lookup_filter split: if_splits)
    then show "lookup fs p \<noteq> None \<or> prefix [''tmp'', ''vocal_removal'', od] p"
      using l2 by (cases "prefix [''tmp'', ''vocal_removal'', od] p") auto
  qed
  ultimately show ?thesis by blast
qed

subsection \<open>Every way a job ends\<close>

text \<open>Every way a job of the documented shape ends, as a file system: unchanged (no
  audio, or decoding failed), or the input file was written, the invoker changed
  nothing outside the output directory, and then either the except block removed the
  input file, or the success path's cleanup removed it and then \<open>dirname\<close> of a
  path the output search returned.\<close>

lemma handler_final_fs:
  assumes d: "lookup (wfs w) [''tmp''] = Some Dir" "lookup (wfs w) [''tmp'', ''vocal_removal''] = Some Dir"
    and tp: "temp_dir proc = scratch_root" and name: "sep \<notin> set name" and tc: "tool_confined tool"
    and hd: "handler proc tool (JDict [(''input'', JDict [(''audio_data'', a), (''filename'', JStr name), (''method'', m)])]) w = (resp, w')"
  defines "n \<equiv> input_name (clock w (Suc (ticks w))) (JStr name)"
    and "qo \<equiv> [''tmp'', ''vocal_removal'', output_dir_name (clock w (Suc (Suc (ticks w))))]"
  shows "wfs w' = wfs w \<or>
    (\<exists>bs fs3. (\<forall>p. \<not> prefix qo p \<longrightarrow> lookup fs3 p = lookup (fs_put (wfs w) [''tmp'', ''vocal_removal'', n] (File bs)) p) \<and>
       (tool_keeps_wf tool \<longrightarrow> fs_wf (wfs w) \<longrightarrow> fs_wf fs3) \<and>
       (wfs w' = filter (\<lambda>(r, x). r \<noteq> [''tmp'', ''vocal_removal'', n]) fs3 \<or>
        (\<exists>op. lookup fs3 qo = Some Dir \<and>
           op \<in> set (find_output fs3 (output_dir_path proc (clock w (Suc (Suc (ticks w))))) (py_str m) (scratch_root @ sep # n)) \<and>
           wfs w' = cleanup_one (filter (\<lambda>(r, x). r \<noteq> [''tmp'', ''vocal_removal'', n]) fs3) (dirname op))))"
proof (cases "py_truthy a")
  case False
  then show ?thesis
    using hd by (auto simp: handler_def handler_try_def now_def)
next
  case True
  let ?w1 = "w\<lparr>ticks := Suc (ticks w)\<rparr>"
  let ?ip = "scratch_root @ sep # n"
  have d1: "lookup (wfs ?w1) [''tmp''] = Some Dir" "lookup (wfs ?w1) [''tmp'', ''vocal_removal''] = Some Dir"
    using d by simp_all
  obtain r1 w2 where dec: "decode_audio_file proc a (JStr name) ?w1 = (r1, w2)" by fastforce
  note dr = decode_residue [OF d1 tp name dec]
  show ?thesis
  proof (cases r1)
    case (Inl e)
    then have "wfs w2 = wfs w" using dr by auto
    then show ?thesis
      using True dec Inl hd by (auto simp: handler_def handler_try_def now_def)
  next
    case (Inr ip)
    then obtain bs where ip: "ip = ?ip" and fs2: "wfs w2 = fs_put (wfs w) [''tmp'', ''vocal_removal'', n] (File bs)"
      using dr by (auto simp: n_def)
    have t2: "clock w2 (ticks w2) = clock w (Suc (Suc (ticks w)))"
      using dr by simp
    have d2: "lookup (wfs w2) [''tmp''] = Some Dir" "lookup (wfs w2) [''tmp'', ''vocal_removal''] = Some Dir"
      using d fs2 by (simp_all add: lookup_fs_put)
    obtain r2 w3 where rv: "remove_vocals_serverless proc tool ip m w2 = (r2, w3)" by fastforce
    have keep: "\<forall>p. \<not> prefix qo p \<longrightarrow> lookup (wfs w3) p = lookup (fs_put (wfs w) [''tmp'', ''vocal_removal'', n] (File bs)) p"
      using remove_vocals_residue [OF d2 tp tc rv] t2 fs2 by (simp add: qo_def)
    have wf3: "tool_keeps_wf tool \<longrightarrow> fs_wf (wfs w) \<longrightarrow> fs_wf (wfs w3)"
      using decode_audio_file_frame [OF dec] remove_vocals_frame [OF rv] by (simp add: keeps_wf_def)
    have rm: "os_remove (wfs w3) ?ip = Inr (filter (\<lambda>(r, x). r \<noteq> [''tmp'', ''vocal_removal'', n]) (wfs w3))"
      using input_file_removed [OF d input_name_valid [OF name] input_output_names_differ(1) keep [unfolded qo_def n_def]]
      by (simp add: n_def)
    show ?thesis
    proof (cases r2)
      case (Inl e)
      then have "wfs w' = filter (\<lambda>(r, x). r \<noteq> [''tmp'', ''vocal_removal'', n]) (wfs w3)"
        using True dec Inr rv ip rm hd by (auto simp: handler_def handler_try_def now_def)
      then show ?thesis
        using keep wf3 by blast
    next
      case (Inr op)
      obtain r3 w4 where en: "encode_audio_file op w3 = (r3, w4)" by fastforce
      then have w4: "w4 = w3" by (rule encode_audio_file_frame)
      show ?thesis
      proof (cases r3)
        case (Inl e)
        then have "wfs w' = filter (\<lambda>(r, x). r \<noteq> [''tmp'', ''vocal_removal'', n]) (wfs w3)"
          using True dec \<open>r1 = Inr ip\<close> rv Inr en w4 ip rm hd by (auto simp: handler_def handler_try_def now_def)
        then show ?thesis
          using keep wf3 by blast
      next
        case (Inr res)
        have f: "lookup (wfs w3) qo = Some Dir \<and>
            op \<in> set (find_output (wfs w3) (output_dir_path proc (clock w (Suc (Suc (ticks w))))) (py_str m) ?ip)"
          using remove_vocals_found [OF d2 tp tc rv [unfolded \<open>r2 = Inr op\<close>]] t2 ip by (simp add: qo_def)
        have "cleanup_files [ip, dirname op] (wfs w3) =
            cleanup_one (filter (\<lambda>(r, x). r \<noteq> [''tmp'', ''vocal_removal'', n]) (wfs w3)) (dirname op)"
          using input_file_removed [OF d input_name_valid [OF name] input_output_names_differ(1) keep [unfolded qo_def n_def]] ip
          by (simp add: cleanup_files_def n_def)
        then have "wfs w' = cleanup_one (filter (\<lambda>(r, x). r \<noteq> [''tmp'', ''vocal_removal'', n]) (wfs w3)) (dirname op)"
          using True dec \<open>r1 = Inr ip\<close> rv \<open>r2 = Inr op\<close> en w4 Inr hd by (auto simp: handler_def handler_try_def now_def)
        then show ?thesis
          using keep wf3 f by blast
      qed
    qed
  qed
qed

lemma handler_residue:
  assumes d: "lookup (wfs w) [''tmp''] = Some Dir" "lookup (wfs w) [''tmp'', ''vocal_removal''] = Some Dir"
    and tp: "temp_dir proc = scratch_root" and name: "sep \<notin> set name" and tc: "tool_confined tool"
    and hd: "handler proc tool (JDict [(''input'', JDict [(''audio_data'', a), (''filename'', JStr name), (''method'', m)])]) w = (resp, w')"
  shows "new_within (wfs w) (wfs w') (prefix [''tmp'', ''vocal_removal'', output_dir_name (clock w (Suc (Suc (ticks w))))])"
proof -
  let ?n = "input_name (clock w (Suc (ticks w))) (JStr name)"
  let ?qo = "[''tmp'', ''vocal_removal'', output_dir_name (clock w (Suc (Suc (ticks w))))]"
  have rem: "new_within (wfs w) (filter (\<lambda>(r, x). r \<noteq> [''tmp'', ''vocal_removal'', ?n]) fs3) (prefix ?qo)"
    if "\<forall>p. \<not> prefix ?qo p \<longrightarrow> lookup fs3 p = lookup (fs_put (wfs w) [''tmp'', ''vocal_removal'', ?n] (File bs)) p" for fs3 bs
    using input_file_removed [OF d input_name_valid [OF name] input_output_names_differ(1) that] by blast
  consider "wfs w' = wfs w"
    | bs fs3 where "\<forall>p. \<not> prefix ?qo p \<longrightarrow> lookup fs3 p = lookup (fs_put (wfs w) [''tmp'', ''vocal_removal'', ?n] (File bs)) p"
        "wfs w' = filter (\<lambda>(r, x). r \<noteq> [''tmp'', ''vocal_removal'', ?n]) fs3"
    | bs fs3 op where "\<forall>p. \<not> prefix ?qo p \<longrightarrow> lookup fs3 p = lookup (fs_put (wfs w) [''tmp'', ''vocal_removal'', ?n] (File bs)) p"
        "wfs w' = cleanup_one (filter (\<lambda>(r, x). r \<noteq> [''tmp'', ''vocal_removal'', ?n]) fs3) (dirname op)"
    using handler_final_fs [OF d tp name tc hd] by blast
  then show ?thesis
  proof cases
    case 1
    then show ?thesis by (simp add: new_within_refl)
  next
    case 2
    then show ?thesis using rem by simp
  next
    case (3 bs fs3 op)
    obtain P where "cleanup_one (filter (\<lambda>(r, x). r \<noteq> [''tmp'', ''vocal_removal'', ?n]) fs3) (dirname op) =
        filter (\<lambda>(r, x). P r) (filter (\<lambda>(r, x). r \<noteq> [''tmp'', ''vocal_removal'', ?n]) fs3)"
      using cleanup_one_filter by blast
    then show ?thesis
      using 3 new_within_filter [OF rem [OF 3(1)]] by (simp only:)
  qed
qed

text \<open>The scratch root survives a job of the documented shape with a plain model name
  and a plain file name: every directory its cleanup removes lies inside the output
  directory.\<close>

lemma handler_keeps_scratch:
  assumes d: "lookup (wfs w) [''tmp''] = Some Dir" "lookup (wfs w) [''tmp'', ''vocal_removal''] = Some Dir"
    and tp: "temp_dir proc = scratch_root" and name: "sep \<notin> set name" "\<not> has_magic name"
    and m: "valid_name m" "\<not> has_magic m" and tc: "tool_confined tool" and tk: "tool_keeps_wf tool"
    and wf: "fs_wf (wfs w)"
    and hd: "handler proc tool (JDict [(''input'', JDict [(''audio_data'', a), (''filename'', JStr name), (''method'', JStr m)])]) w = (resp, w')"
  shows "lookup (wfs w') [''tmp''] = Some Dir \<and> lookup (wfs w') [''tmp'', ''vocal_removal''] = Some Dir"
proof -
  let ?n = "input_name (clock w (Suc (ticks w))) (JStr name)"
  let ?t = "clock w (Suc (Suc (ticks w)))"
  let ?qo = "[''tmp'', ''vocal_removal'', output_dir_name ?t]"
  let ?F = "\<lambda>fs3. filter (\<lambda>(r, x). r \<noteq> [''tmp'', ''vocal_removal'', ?n]) fs3"
  have kept: "lookup (?F fs3) [''tmp''] = Some Dir \<and> lookup (?F fs3) [''tmp'', ''vocal_removal''] = Some Dir \<and>
      lookup fs3 [''tmp''] = Some Dir \<and> lookup fs3 [''tmp'', ''vocal_removal''] = Some Dir"
    if "\<forall>p. \<not> prefix ?qo p \<longrightarrow> lookup fs3 p = lookup (fs_put (wfs w) [''tmp'', ''vocal_removal'', ?n] (File bs)) p" for fs3 bs
    using that d by (simp add: lookup_filter lookup_fs_put)
  consider "wfs w' = wfs w"
    | bs fs3 where "\<forall>p. \<not> prefix ?qo p \<longrightarrow> lookup fs3 p = lookup (fs_put (wfs w) [''tmp'', ''vocal_removal'', ?n] (File bs)) p"
        "wfs w' = ?F fs3"
    | bs fs3 op where "\<forall>p. \<not> prefix ?qo p \<longrightarrow> lookup fs3 p = lookup (fs_put (wfs w) [''tmp'', ''vocal_removal'', ?n] (File bs)) p"
        "fs_wf fs3" "lookup fs3 ?qo = Some Dir"
        "op \<in> set (find_output fs3 (output_dir_path proc ?t) m (scratch_root @ sep # ?n))"
        "wfs w' = cleanup_one (?F fs3) (dirname op)"
    using handler_final_fs [OF d tp name(1) tc hd] tk wf by auto
  then show ?thesis
  proof cases
    case 1
    then show ?thesis using d by simp
  next
    case (2 bs fs3)
    then show ?thesis using kept [OF 2(1)] by simp
  next
    case (3 bs fs3 op)
    note k = kept [OF 3(1)]
    have od: "output_dir_path proc ?t = scratch_root @ sep # output_dir_name ?t"
      using scratch_output_path [OF tp] .
    have ro: "resolve fs3 (output_dir_path proc ?t) = Inr ?qo"
      using resolve_scratch_child [of fs3 "output_dir_name ?t"] k output_dir_name_valid od by simp
    have odf: "output_dir_path proc ?t \<noteq> []" "last (output_dir_path proc ?t) \<noteq> sep"
        "\<not> has_magic (output_dir_path proc ?t)"
    proof -
      have "output_dir_name ?t \<noteq> []" "\<not> has_magic scratch_root"
        by (simp_all add: output_dir_name_def scratch_root_def has_magic_def)
      then show "output_dir_path proc ?t \<noteq> []" "last (output_dir_path proc ?t) \<noteq> sep"
          "\<not> has_magic (output_dir_path proc ?t)"
        using od valid_name_last [OF output_dir_name_valid [of ?t]] output_dir_name_no_magic [of ?t]
        by (simp_all add: has_magic_append has_magic_sep_Cons)
    qed
    have stem: "fst (splitext (basename (scratch_root @ sep # ?n))) = fst (splitext ?n)"
      using basename_join [of ?n scratch_root] input_name_valid [OF name(1)] by (simp add: valid_name_def)
    note st = input_stem_plain [OF name]
    have "\<not> prefix r [''tmp''] \<and> \<not> prefix r [''tmp'', ''vocal_removal'']" if "resolve (?F fs3) (dirname op) = Inr r" for r
    proof -
      have "prefix ?qo r"
        using find_output_below [OF 3(2) ro 3(3) odf m st [THEN conjunct1] st [THEN conjunct2] stem 3(4)]
          resolve_filter [OF that] by blast
      moreover have "\<not> prefix ?qo [''tmp'']" "\<not> prefix ?qo [''tmp'', ''vocal_removal'']"
        by (auto dest: prefix_length_le)
      ultimately show ?thesis by (meson prefix_order.trans)
    qed
    then show ?thesis
      using 3(5) cleanup_one_keeps_dir [of "?F fs3"] k by simp
  qed
qed

subsection \<open>A job leaves only its output directory\<close>

text \<open>C9: whatever a job of the documented shape carries and however it ends (no
  audio, bad base64, a non-string method, a tool that fails to start, times out, exits
  non-zero or produces nothing, success), every entry of the file system it leaves
  that was not there before lies inside its output directory
  \<open>/tmp/vocal_removal/demucs_output_<stamp>\<close>: the input file it wrote is always
  removed, by the success path's cleanup or by the except block.  The tool is only
  assumed to write below the directory it is given after \<open>-o\<close>.\<close>

theorem handler_leaves_only_output_dir:
  assumes d: "lookup (wfs w) [''tmp''] = Some Dir" "lookup (wfs w) [''tmp'', ''vocal_removal''] = Some Dir"
    and tp: "temp_dir proc = scratch_root" and name: "sep \<notin> set name" and tc: "tool_confined tool"
  shows "new_within (wfs w)
    (wfs (snd (handler proc tool (JDict [(''input'', JDict [(''audio_data'', a), (''filename'', JStr name), (''method'', m)])]) w)))
    (prefix [''tmp'', ''vocal_removal'', output_dir_name (clock w (Suc (Suc (ticks w))))])"
  using handler_residue [OF d tp name tc] by (metis prod.collapse)

theorem handler_leaves_only_output_dir_witness:
  "new_within [([''tmp''], Dir), ([''tmp'', ''vocal_removal''], Dir)]
     (wfs (snd (handler \<lparr>temp_dir = scratch_root, device = ''cpu''\<rparr> (\<lambda>c fs. Timed_out fs)
        (JDict [(''input'', JDict [(''audio_data'', JStr ''AAAA''), (''filename'', JStr ''song.wav''), (''method'', JStr ''htdemucs_ft'')])])
        \<lparr>wfs = [([''tmp''], Dir), ([''tmp'', ''vocal_removal''], Dir)], clock = (\<lambda>n. int n), ticks = 0, runs = []\<rparr>)))
     (prefix [''tmp'', ''vocal_removal'', output_dir_name 2])"
proof -
  have h: "lookup [([''tmp''], Dir), ([''tmp'', ''vocal_removal''], Dir)] [''tmp''] = Some Dir"
    "lookup [([''tmp''], Dir), ([''tmp'', ''vocal_removal''], Dir)] [''tmp'', ''vocal_removal''] = Some Dir"
    "sep \<notin> set ''song.wav''" "tool_confined (\<lambda>c fs. Timed_out fs)"
    by (simp_all add: lookup_def sep_def tool_confined_def agree_outside_def)
  show ?thesis
    using handler_leaves_only_output_dir [of "\<lparr>wfs = [([''tmp''], Dir), ([''tmp'', ''vocal_removal''], Dir)], clock = (\<lambda>n. int n), ticks = 0, runs = []\<rparr>"
        "\<lparr>temp_dir = scratch_root, device = ''cpu''\<rparr>" "''song.wav''" "\<lambda>c fs. Timed_out fs" "JStr ''AAAA''" "JStr ''htdemucs_ft''"] h
    by (simp add: numeral_2_eq_2)
qed

end
