(* ===== verification/Worker.thy ===== *)
theory Worker
  imports Residue
begin

text \<open>
  The worker's life (src/handler.py, lines 169 and 255): the module constructs one
  processor and the RunPod runtime then calls \<open>handler\<close> once per job, in order, on
  the world the previous job left.  \<open>served proc tool w0 n w\<close> is this step relation:
  \<open>w\<close> is a world reachable from \<open>w0\<close> by \<open>n\<close> jobs, whatever they contain;
  \<open>serve_jobs\<close> is the loop over a concrete queue and \<open>worker_main\<close> the module's
  whole life, construction then the loop.  By rule induction over \<open>served\<close>: the
  clock is never rewound, every job consumes at least one reading of it, and no job
  runs the tool more than once.  By induction over the queue, with the job-level facts
  of Residue: the scratch root survives every job and the only entries a worker's life
  adds are the scratch root and what lies inside output directories.
\<close>

subsection \<open>The runtime's step relation\<close>

text \<open>The runtime's sequence of jobs: \<open>w\<close> is reached from \<open>w0\<close> by \<open>n\<close> calls of
  \<open>handler\<close>.\<close>

inductive served :: "processor \<Rightarrow> tool \<Rightarrow> world \<Rightarrow> nat \<Rightarrow> world \<Rightarrow> bool"
  for proc :: processor and tool :: tool and w0 :: world where
  served_start: "served proc tool w0 0 w0"
| served_job: "served proc tool w0 n w \<Longrightarrow> served proc tool w0 (Suc n) (snd (handler proc tool job w))"

text \<open>The runtime's job loop (\<open>runpod.serverless.start({"handler": handler})\<close>): each job
  of the queue is handed to \<open>handler\<close> in turn, on the world the previous job left, and
  its response is returned in the same order.\<close>

primrec serve_jobs :: "processor \<Rightarrow> tool \<Rightarrow> json list \<Rightarrow> world \<Rightarrow> response list \<times> world" where
  "serve_jobs proc tool [] w = ([], w)"
| "serve_jobs proc tool (job # jobs) w =
     (let (resp, w1) = handler proc tool job w;
          (resps, w2) = serve_jobs proc tool jobs w1
      in (resp # resps, w2))"

text \<open>The module's life (lines 169 and 255): the import constructs the global
  \<open>processor\<close>, whose exception aborts the import before any job, and then hands the
  runtime the job loop on it.  A failed construction keeps no effect of the world.\<close>

definition worker_main :: "bool \<Rightarrow> py_exc + unit \<Rightarrow> loader \<Rightarrow> tool \<Rightarrow> json list \<Rightarrow> world \<Rightarrow>
    (py_exc + response list) \<times> world" where
  "worker_main cuda import load tool jobs w =
     (case init_processor cuda import load (wfs w) of
        Inl e \<Rightarrow> (Inl e, w)
      | Inr (proc, fs', warm) \<Rightarrow>
          (let (resps, w') = serve_jobs proc tool jobs (w\<lparr>wfs := fs'\<rparr>) in (Inr resps, w')))"

subsection \<open>The tool runs of one job\<close>

text \<open>One job runs the tool at most once: the log is unchanged or grows by one command.\<close>

definition runs_step :: "world \<Rightarrow> world \<Rightarrow> bool" where
  "runs_step w w' \<longleftrightarrow> runs w' = runs w \<or> (\<exists>c. runs w' = runs w @ [c])"

lemma runs_step_same [simp]: "runs w' = runs w \<Longrightarrow> runs_step w w'"
  by (simp add: runs_step_def)

lemma subprocess_run_runs: "subprocess_run tool c n w = (x, w') \<Longrightarrow> runs w' = runs w @ [c]"
  by (cases "tool c (wfs w)") (auto simp: subprocess_run_def Let_def)

lemma decode_audio_file_runs: "decode_audio_file proc a fn w = (r, w') \<Longrightarrow> runs w' = runs w"
  by (drule decode_audio_file_world) auto

lemma remove_vocals_runs: "remove_vocals_serverless proc tool ip m w = (r, w') \<Longrightarrow> runs_step w w'"
  by (drule remove_vocals_world) (auto simp: runs_step_def dest: subprocess_run_runs)

lemma handler_try_runs:
  assumes "handler_try proc tool job start w = (r, w')"
  shows "runs_step w w'"
  using assms
  by (auto simp: handler_try_def Let_def now_def runs_step_def cleanup_files_def split: sum.splits prod.splits if_splits
      dest!: decode_audio_file_runs remove_vocals_runs encode_audio_file_frame)

subsection \<open>One job\<close>

lemma handler_step:
  assumes run: "handler proc tool job w = (resp, w')"
  shows "clock w' = clock w \<and> ticks w < ticks w' \<and> runs_step w w' \<and>
         (tool_keeps_wf tool \<longrightarrow> fs_wf (wfs w) \<longrightarrow> fs_wf (wfs w'))"
proof -
  obtain r w1 where ht: "handler_try proc tool job (clock w (ticks w)) (w\<lparr>ticks := Suc (ticks w)\<rparr>) = (r, w1)"
    by fastforce
  have f: "clock w1 = clock w" "Suc (ticks w) \<le> ticks w1" "runs_step w w1"
    using handler_try_frame [OF ht] handler_try_runs [OF ht] by (simp_all add: frame_def runs_step_def)
  have k: "tool_keeps_wf tool \<Longrightarrow> fs_wf (wfs w) \<Longrightarrow> fs_wf (wfs w1)"
    using handler_try_wf [OF _ ht] by (simp add: keeps_wf_def)
  show ?thesis
    using run ht f k
    by (auto simp: handler_def now_def Let_def runs_step_def split: sum.splits option.splits prod.splits
        dest: os_remove_wf)
qed

subsection \<open>The sequence of jobs\<close>

text \<open>C19: along any sequence of jobs the clock is the same, each job reads it at
  least once more, and the tool-run log only grows, by at most one command per job:
  no job runs Demucs twice.\<close>

theorem served_bounds:
  assumes "served proc tool w0 n w"
  shows "clock w = clock w0 \<and> ticks w0 + n \<le> ticks w \<and> prefix (runs w0) (runs w) \<and>
         length (runs w) \<le> length (runs w0) + n"
  using assms
proof induction
  case served_start
  then show ?case by simp
next
  case (served_job n w job)
  obtain resp w' where run: "handler proc tool job w = (resp, w')" by fastforce
  show ?case
    using handler_step [OF run] served_job.IH run by (auto simp: runs_step_def prefix_def)
qed

theorem served_bounds_witness:
  "served \<lparr>temp_dir = ''/tmp/vocal_removal'', device = ''cpu''\<rparr> (\<lambda>c fs. Timed_out fs)
     \<lparr>wfs = [([''tmp''], Dir)], clock = (\<lambda>n. int n), ticks = 0, runs = []\<rparr> (Suc 0)
     \<lparr>wfs = [([''tmp''], Dir)], clock = (\<lambda>n. int n), ticks = 1, runs = []\<rparr> \<and>
   0 + Suc 0 \<le> (1::nat) \<and> length ([] :: string list list) \<le> 0 + Suc 0"
proof -
  have h: "handler \<lparr>temp_dir = ''/tmp/vocal_removal'', device = ''cpu''\<rparr> (\<lambda>c fs. Timed_out fs) (JDict [(''input'', JDict [])])
      \<lparr>wfs = [([''tmp''], Dir)], clock = (\<lambda>n. int n), ticks = 0, runs = []\<rparr> =
    (NoAudioResponse, \<lparr>wfs = [([''tmp''], Dir)], clock = (\<lambda>n. int n), ticks = 1, runs = []\<rparr>)"
    by (simp add: handler_def handler_try_def now_def)
  have s: "served \<lparr>temp_dir = ''/tmp/vocal_removal'', device = ''cpu''\<rparr> (\<lambda>c fs. Timed_out fs)
     \<lparr>wfs = [([''tmp''], Dir)], clock = (\<lambda>n. int n), ticks = 0, runs = []\<rparr> (Suc 0)
     \<lparr>wfs = [([''tmp''], Dir)], clock = (\<lambda>n. int n), ticks = 1, runs = []\<rparr>"
  proof -
    have "served \<lparr>temp_dir = ''/tmp/vocal_removal'', device = ''cpu''\<rparr> (\<lambda>c fs. Timed_out fs)
     \<lparr>wfs = [([''tmp''], Dir)], clock = (\<lambda>n. int n), ticks = 0, runs = []\<rparr> (Suc 0)
     (snd (handler \<lparr>temp_dir = ''/tmp/vocal_removal'', device = ''cpu''\<rparr> (\<lambda>c fs. Timed_out fs) (JDict [(''input'', JDict [])])
      \<lparr>wfs = [([''tmp''], Dir)], clock = (\<lambda>n. int n), ticks = 0, runs = []\<rparr>))"
      by (rule served_job [OF served_start])
    then show ?thesis using h by simp
  qed
  show ?thesis
    using served_bounds [OF s] s by simp
qed

subsection \<open>What a worker's life leaves on disk\<close>

lemma serve_jobs_Cons_world:
  "snd (serve_jobs proc tool (job # jobs) w) = snd (serve_jobs proc tool jobs (snd (handler proc tool job w)))"
  by (simp add: split_def Let_def)

text \<open>A queue of jobs of the documented shape, each with a plain file name and a plain
  model name: the scratch root stays, the file system stays well formed, and every new
  entry lies in some output directory.\<close>

lemma serve_jobs_residue:
  assumes d: "lookup (wfs w) [''tmp''] = Some Dir" "lookup (wfs w) [''tmp'', ''vocal_removal''] = Some Dir"
    and tp: "temp_dir proc = scratch_root" and tc: "tool_confined tool" and tk: "tool_keeps_wf tool"
    and wf: "fs_wf (wfs w)"
    and jobs: "\<forall>job \<in> set jobs. \<exists>a name m. job = JDict [(''input'', JDict [(''audio_data'', a), (''filename'', JStr name), (''method'', JStr m)])] \<and>
                 sep \<notin> set name \<and> \<not> has_magic name \<and> valid_name m \<and> \<not> has_magic m"
  shows "lookup (wfs (snd (serve_jobs proc tool jobs w))) [''tmp''] = Some Dir \<and>
         lookup (wfs (snd (serve_jobs proc tool jobs w))) [''tmp'', ''vocal_removal''] = Some Dir \<and>
         fs_wf (wfs (snd (serve_jobs proc tool jobs w))) \<and>
         new_within (wfs w) (wfs (snd (serve_jobs proc tool jobs w)))
           (\<lambda>p. \<exists>t. prefix [''tmp'', ''vocal_removal'', output_dir_name t] p)"
  using d wf jobs
proof (induction jobs arbitrary: w)
  case Nil
  then show ?case by (simp add: new_within_refl)
next
  case (Cons job jobs)
  obtain a name m where job: "job = JDict [(''input'', JDict [(''audio_data'', a), (''filename'', JStr name), (''method'', JStr m)])]"
    and ok: "sep \<notin> set name" "\<not> has_magic name" "valid_name m" "\<not> has_magic m"
    using Cons.prems(4) by auto
  obtain resp w1 where hd: "handler proc tool job w = (resp, w1)" by fastforce
  have s1: "lookup (wfs w1) [''tmp''] = Some Dir \<and> lookup (wfs w1) [''tmp'', ''vocal_removal''] = Some Dir"
    using handler_keeps_scratch [OF Cons.prems(1,2) tp ok tc tk Cons.prems(3)] hd job by simp
  have wf1: "fs_wf (wfs w1)"
    using handler_step [OF hd] tk Cons.prems(3) by simp
  have n1: "new_within (wfs w) (wfs w1) (\<lambda>p. \<exists>t. prefix [''tmp'', ''vocal_removal'', output_dir_name t] p)"
    using handler_residue [OF Cons.prems(1,2) tp ok(1) tc] hd job by (blast intro: new_within_mono)
  have "lookup (wfs (snd (serve_jobs proc tool jobs w1))) [''tmp''] = Some Dir \<and>
         lookup (wfs (snd (serve_jobs proc tool jobs w1))) [''tmp'', ''vocal_removal''] = Some Dir \<and>
         fs_wf (wfs (snd (serve_jobs proc tool jobs w1))) \<and>
         new_within (wfs w1) (wfs (snd (serve_jobs proc tool jobs w1)))
           (\<lambda>p. \<exists>t. prefix [''tmp'', ''vocal_removal'', output_dir_name t] p)"
    using Cons.IH s1 wf1 Cons.prems(4) by simp
  then show ?case
    using hd n1 new_within_trans serve_jobs_Cons_world [of proc tool job jobs w]
    by (simp del: serve_jobs.simps(2))
qed

text \<open>C8: a worker started where \<open>/tmp\<close> is a directory and \<open>/tmp/vocal_removal\<close>
  is not a file, with a tool that keeps file systems well formed and writes only below
  its \<open>-o\<close> directory, imports successfully and, after any queue of jobs of the
  documented shape (plain file and model names), still has its scratch root, and the
  only entries its whole life added are the scratch root and what lies inside output
  directories \<open>demucs_output_<stamp>\<close>: no input file is ever left behind, and
  cleanup never removes the scratch root.\<close>

theorem worker_leaves_only_output_dirs:
  assumes tmp: "lookup (wfs w) [''tmp''] = Some Dir"
    and root: "lookup (wfs w) [''tmp'', ''vocal_removal''] \<in> {None, Some Dir}" and wf: "fs_wf (wfs w)"
    and tc: "tool_confined tool" and tk: "tool_keeps_wf tool"
    and jobs: "\<forall>job \<in> set jobs. \<exists>a name m. job = JDict [(''input'', JDict [(''audio_data'', a), (''filename'', JStr name), (''method'', JStr m)])] \<and>
                 sep \<notin> set name \<and> \<not> has_magic name \<and> valid_name m \<and> \<not> has_magic m"
  shows "\<not> isl (fst (worker_main cuda import load tool jobs w)) \<and>
    lookup (wfs (snd (worker_main cuda import load tool jobs w))) [''tmp'', ''vocal_removal''] = Some Dir \<and>
    new_within (wfs w) (wfs (snd (worker_main cuda import load tool jobs w)))
      (\<lambda>p. p = [''tmp'', ''vocal_removal''] \<or> (\<exists>t. prefix [''tmp'', ''vocal_removal'', output_dir_name t] p))"
proof -
  let ?R = "\<lambda>p. p = [''tmp'', ''vocal_removal''] \<or> (\<exists>t. prefix [''tmp'', ''vocal_removal'', output_dir_name t] p)"
  let ?proc = "\<lparr>temp_dir = scratch_root, device = (if cuda then ''cuda'' else ''cpu'')\<rparr>"
  obtain fs' where md: "os_makedirs (wfs w) scratch_root = (Inr (), fs')"
    and f': "lookup fs' [''tmp''] = Some Dir" "lookup fs' [''tmp'', ''vocal_removal''] = Some Dir"
      "new_within (wfs w) fs' (\<lambda>p. p = [''tmp'', ''vocal_removal''])"
  proof (cases "lookup (wfs w) [''tmp'', ''vocal_removal'']")
    case None
    then show ?thesis
      using that [of "wfs w @ [([''tmp'', ''vocal_removal''], Dir)]"] init_makedirs [OF tmp] tmp
      by (simp add: lookup_append_new new_within_iff)
  next
    case (Some nd)
    then have "nd = Dir" using root by simp
    then show ?thesis
      using that [of "wfs w"] init_makedirs [OF tmp] tmp Some by (simp add: new_within_refl)
  qed
  have init: "init_processor cuda import load (wfs w) = Inr (?proc, fs', preload_models import load (device ?proc))"
    by (simp add: init_processor_def md)
  have "fs_wf fs'" using init_processor_wf [OF init wf] .
  then have s: "lookup (wfs (snd (serve_jobs ?proc tool jobs (w\<lparr>wfs := fs'\<rparr>)))) [''tmp'', ''vocal_removal''] = Some Dir \<and>
      new_within fs' (wfs (snd (serve_jobs ?proc tool jobs (w\<lparr>wfs := fs'\<rparr>))))
        (\<lambda>p. \<exists>t. prefix [''tmp'', ''vocal_removal'', output_dir_name t] p)"
    using serve_jobs_residue [of "w\<lparr>wfs := fs'\<rparr>" ?proc tool jobs] f' tc tk jobs by simp
  have "new_within (wfs w) fs' ?R"
    using f'(3) by (blast intro: new_within_mono)
  moreover have "new_within fs' (wfs (snd (serve_jobs ?proc tool jobs (w\<lparr>wfs := fs'\<rparr>)))) ?R"
    using s by (blast intro: new_within_mono)
  ultimately have "new_within (wfs w) (wfs (snd (serve_jobs ?proc tool jobs (w\<lparr>wfs := fs'\<rparr>)))) ?R"
    by (rule new_within_trans)
  moreover obtain rs w2 where sj: "serve_jobs ?proc tool jobs (w\<lparr>wfs := fs'\<rparr>) = (rs, w2)" by fastforce
  moreover have "worker_main cuda import load tool jobs w = (Inr rs, w2)"
    using sj by (simp add: worker_main_def init)
  ultimately show ?thesis
    using s by simp
qed

theorem worker_leaves_only_output_dirs_witness:
  "\<not> isl (fst (worker_main False (Inr ()) (\<lambda>m d. Inr ()) (\<lambda>c fs. Timed_out fs)
      [JDict [(''input'', JDict [(''audio_data'', JStr ''AAAA''), (''filename'', JStr ''song.wav''), (''method'', JStr ''htdemucs_ft'')])]]
      \<lparr>wfs = [([''tmp''], Dir)], clock = (\<lambda>n. int n), ticks = 0, runs = []\<rparr>)) \<and>
   new_within [([''tmp''], Dir)] (wfs (snd (worker_main False (Inr ()) (\<lambda>m d. Inr ()) (\<lambda>c fs. Timed_out fs)
      [JDict [(''input'', JDict [(''audio_data'', JStr ''AAAA''), (''filename'', JStr ''song.wav''), (''method'', JStr ''htdemucs_ft'')])]]
      \<lparr>wfs = [([''tmp''], Dir)], clock = (\<lambda>n. int n), ticks = 0, runs = []\<rparr>)))
     (\<lambda>p. p = [''tmp'', ''vocal_removal''] \<or> (\<exists>t. prefix [''tmp'', ''vocal_removal'', output_dir_name t] p))"
proof -
  have h: "lookup [([''tmp''], Dir)] [''tmp''] = Some Dir" "lookup [([''tmp''], Dir)] [''tmp'', ''vocal_removal''] \<in> {None, Some Dir}"
    "fs_wf [([''tmp''], Dir)]" "tool_confined (\<lambda>c fs. Timed_out fs)" "tool_keeps_wf (\<lambda>c fs. Timed_out fs)"
    by (simp_all add: lookup_def fs_wf_def valid_name_def sep_def tool_confined_def agree_outside_def tool_keeps_wf_def)
  have j: "valid_name ''htdemucs_ft''" "\<not> has_magic ''htdemucs_ft''" "\<not> has_magic ''song.wav''" "sep \<notin> set ''song.wav''"
    by (simp_all add: valid_name_def has_magic_def sep_def)
  show ?thesis
    using worker_leaves_only_output_dirs [where w = "\<lparr>wfs = [([''tmp''], Dir)], clock = (\<lambda>n. int n), ticks = 0, runs = []\<rparr>"
        and tool = "\<lambda>c fs. Timed_out fs" and cuda = False and import = "Inr ()" and load = "\<lambda>m d. Inr ()"
        and jobs = "[JDict [(''input'', JDict [(''audio_data'', JStr ''AAAA''), (''filename'', JStr ''song.wav''), (''method'', JStr ''htdemucs_ft'')])]]"] h j
    by simp
qed

end
