(* ===== verification/Spec2Isabelle.thy ===== *)
theory Spec2Isabelle
  imports Worker
begin

text \<open>
  Verification model of src/handler.py, the serverless vocal-removal worker.

  \<^bold>\<open>The program.\<close>  At import the module builds one \<open>ServerlessVocalRemover\<close>
  (\<open>__init__\<close>: scratch root \<open>/tmp/vocal_removal\<close> made with \<open>os.makedirs\<close>, device
  \<open>cuda\<close> or \<open>cpu\<close>, \<open>preload_models\<close>) and hands \<open>handler(job)\<close> to the RunPod
  runtime, which calls it once per job.  \<open>handler\<close> reads \<open>audio_data\<close>,
  \<open>filename\<close> and \<open>method\<close> from the job's input, answers at once when there is no
  audio, and otherwise runs the pipeline: \<open>decode_audio_file\<close> (base64 text to a
  scratch file), \<open>remove_vocals_serverless\<close> (output directory, the Demucs command
  line, \<open>subprocess.run\<close> with a 300 s timeout, output discovery by two glob
  patterns), \<open>encode_audio_file\<close> (file back to base64), the success response and
  \<open>cleanup_files\<close>.  Any exception is caught: the input file is removed and a failure
  response carries \<open>str(e)\<close>.

  \<^bold>\<open>State and effects.\<close>  The worker's state is a \<open>world\<close> (theory World): the file
  system, the clock \<open>datetime.now()\<close> reads (an arbitrary sequence of timestamps, one
  reading per call, in the code's order), and the log of commands given to
  \<open>subprocess.run\<close>.  Every method returns its result or the Python exception it
  raises (\<open>py_exc + 'a\<close>) together with the world at that point, so an exception keeps
  the effects before it.  The Demucs tool is a parameter \<open>tool\<close>: from the command
  line and file system it completes with a status, output and new file system, times
  out (what it wrote stays), or fails to start.  Two contracts on it are assumed where
  a theorem needs them, never built into the model: \<open>tool_keeps_wf\<close> (it leaves a
  well-formed file system) and \<open>tool_confined\<close> (it changes nothing outside the
  directory given after \<open>-o\<close>).  The clock is independent of the tool's run time, so
  the theorems hold for every clock; none of them depends on two readings being equal.
  No fuel or bound is needed: every loop of the program is structural, or
  (\<open>os.makedirs\<close>, \<open>glob\<close>'s recursion, pattern translation) a \<open>function\<close> with a
  measure.

  \<^bold>\<open>The theories, in import order.\<close>
  \<^item> \<open>Prelude\<close>: bytes as \<open>8 word\<close>, rule collections, shared list lemmas.
  \<^item> \<open>PyValue\<close>: JSON job values, truthiness, \<open>dict.get\<close>, \<open>str\<close>/\<open>repr\<close>,
    the exceptions and their messages.
  \<^item> \<open>Base64\<close>: \<open>base64.b64encode\<close> (grouped \<open>b2a_base64\<close>) and the non-strict
    \<open>a2b_base64\<close> state machine; round trip, shape of an encoding, junk ignored.
  \<^item> \<open>PosixPath\<close>: \<open>os.path.join\<close>, \<open>split\<close>, \<open>basename\<close>, \<open>dirname\<close>,
    \<open>splitext\<close>.
  \<^item> \<open>FileSystem\<close>: an association-list store with kernel path resolution,
    \<open>makedirs\<close>, file write and read, \<open>os.remove\<close>, \<open>shutil.rmtree\<close>; the invariant
    \<open>fs_wf\<close> kept by every operation; lookups after each update; \<open>new_within\<close>
    (every new entry satisfies a predicate) and resolution read backwards.
  \<^item> \<open>Glob\<close>: \<open>fnmatch\<close> and \<open>glob.glob\<close> with the recursive \<open>**\<close>; what the
    searches can return.
  \<^item> \<open>DateTime\<close>: \<open>strftime\<close>, \<open>isoformat\<close>, elapsed time.
  \<^item> \<open>World\<close>: processor record, world, \<open>now\<close>, \<open>subprocess_run\<close>, the frame
    predicates, the tool contracts and the scratch-root predicate \<open>scratch_at\<close>.
  \<^item> \<open>Processor\<close>: \<open>__init__\<close> and \<open>preload_models\<close> (\<open>init_processor\<close>).
  \<^item> \<open>Codec\<close>: \<open>decode_audio_file\<close>, \<open>encode_audio_file\<close>.
  \<^item> \<open>Invoker\<close>: \<open>remove_vocals_serverless\<close> with its command line and output search.
  \<^item> \<open>Workspace\<close>: \<open>cleanup_files\<close>.
  \<^item> \<open>Orchestrator\<close>: \<open>handler\<close> (\<open>handler_try\<close> is the try block, \<open>handler\<close> adds
    the except block) and the three response shapes.
  \<^item> \<open>Residue\<close>: what one job leaves on disk, stage by stage, and every way a job
    ends as a file system.
  \<^item> \<open>Worker\<close>: the runtime's sequence of jobs as the inductive relation \<open>served\<close>,
    its loop over a queue (\<open>serve_jobs\<close>) and the module's life (\<open>worker_main\<close>: the
    global \<open>processor = ServerlessVocalRemover()\<close>, then the loop).

  \<^bold>\<open>What is proved.\<close>  Claims C1 to C19, each after a text naming it:
  \<^item> the job scenarios end to end (Orchestrator): success with the documented output
    layout (C1), timeout (C2), non-zero exit (C3), no audio (C5); on each exit the exact
    response and file system left behind, which shows that the output directory is
    never released;
  \<^item> what jobs leave on disk: on every exit path a job adds nothing outside its own
    output directory, its input file always removed (C9); over a worker's whole life,
    from the import on, the scratch root survives and the only additions are the
    scratch root and the contents of output directories (C8);
  \<^item> the codec round trip (C4) and junk tolerance of decoding (C15); file names with
    a separator cannot write outside the scratch root (C7);
  \<^item> the invoker's exits: non-zero status (C6), timeout (C13), no output (C14), a
    non-string method failing only after \<open>makedirs\<close> (C16); and completeness of the
    recursive fallback search (C12);
  \<^item> construction: its result on every branch (C10) and the scratch root it
    establishes (C11);
  \<^item> cleanup releases every path it is given (C17); non-negative processing time under
    a monotone clock (C18); at most one tool run per job along any job sequence (C19).

  \<^bold>\<open>Not modelled.\<close>  Logging: the \<open>logger\<close> calls only write text to the
  process's log stream, which no part of the program reads back; the one log line whose
  construction can raise (the join of the command list) is modelled by \<open>str_items\<close>.
  \<open>torch.cuda.get_device_name(0)\<close> (line 36) is assumed not to raise.  Also not
  modelled: the RunPod networking and job transport, GPU memory and the CUDA device
  query (a boolean), the inside of Demucs (any behaviour on the command line and file
  system, under the contracts above where stated), the tool's run time, symbolic links,
  permissions, concurrent workers and partially written files.
\<close>

end
